(* ===== verification/Prelude.thy ===== *)
theory Prelude
  imports "HOL-Library.Word"
begin

text \<open>
  What every component shares: the fixed-width integers of the code with the checked, saturating and
  rounding operations of the Rust standard library on them, Rust's strings as sequences of Unicode
  scalar values, its \<open>Result\<close> type with the operations the sources chain, and the generic lemmas
  that carry the component proofs.

  Integers keep their width: a \<open>u64\<close> is a \<open>64 word\<close>, whose \<open>+\<close>, \<open>-\<close> and \<open>*\<close> wrap exactly as
  the release build's do (the workspace sets no \<open>overflow-checks\<close>). The collection
  \<open>word_nat\<close> moves statements about words to the natural numbers their values denote, where linear
  arithmetic decides them; \<open>result_simps\<close> unfolds successful chains of \<open>Result\<close>s.
\<close>

named_theorems word_nat
named_theorems result_simps

section \<open>Fixed-width unsigned integers\<close>

type_synonym u16 = "16 word"
type_synonym u32 = "32 word"
type_synonym u64 = "64 word"
type_synonym u128 = "128 word"

definition checked_add :: "'a::len word \<Rightarrow> 'a word \<Rightarrow> 'a word option" where
  "checked_add a b = (if unat a + unat b < 2 ^ LENGTH('a) then Some (a + b) else None)"

definition checked_sub :: "'a::len word \<Rightarrow> 'a word \<Rightarrow> 'a word option" where
  "checked_sub a b = (if b \<le> a then Some (a - b) else None)"

definition checked_mul :: "'a::len word \<Rightarrow> 'a word \<Rightarrow> 'a word option" where
  "checked_mul a b = (if unat a * unat b < 2 ^ LENGTH('a) then Some (a * b) else None)"

definition saturating_sub :: "'a::len word \<Rightarrow> 'a word \<Rightarrow> 'a word" where
  "saturating_sub a b = (if b \<le> a then a - b else 0)"

definition saturating_add :: "'a::len word \<Rightarrow> 'a word \<Rightarrow> 'a word" where
  "saturating_add a b = (if unat a + unat b < 2 ^ LENGTH('a) then a + b else - 1)"

definition saturating_mul :: "'a::len word \<Rightarrow> 'a word \<Rightarrow> 'a word" where
  "saturating_mul a b = (if unat a * unat b < 2 ^ LENGTH('a) then a * b else - 1)"

definition abs_diff :: "'a::len word \<Rightarrow> 'a word \<Rightarrow> 'a word" where
  "abs_diff a b = (if a < b then b - a else a - b)"

text \<open>\<open>is_multiple_of\<close> with a zero divisor accepts only zero, which is what \<open>mod\<close> by zero gives.\<close>

definition is_multiple_of :: "'a::len word \<Rightarrow> 'a word \<Rightarrow> bool" where
  "is_multiple_of a b \<longleftrightarrow> a mod b = 0"

definition is_power_of_two :: "'a::len word \<Rightarrow> bool" where
  "is_power_of_two a \<longleftrightarrow> list_ex (\<lambda>k. a = 2 ^ k) [0..<LENGTH('a)]"

definition div_ceil :: "'a::len word \<Rightarrow> 'a word \<Rightarrow> 'a word" where
  "div_ceil a b = (if 0 < a mod b then a div b + 1 else a div b)"

definition clamp :: "'a::linorder \<Rightarrow> 'a \<Rightarrow> 'a \<Rightarrow> 'a" where
  "clamp x lo hi = (if x < lo then lo else if hi < x then hi else x)"

subsection \<open>Reading words as numbers\<close>

lemmas [word_nat] = word_le_nat_alt word_less_nat_alt word_unat_eq_iff unat_div unat_mod

lemma unat_max_eq [word_nat]: "unat (max a b) = max (unat a) (unat b)"
  by (simp add: max_def word_le_nat_alt)

lemma unat_min_eq [word_nat]: "unat (min a b) = min (unat a) (unat b)"
  by (simp add: min_def word_le_nat_alt)

lemma unat_saturating_sub [word_nat]: "unat (saturating_sub a b) = unat a - unat b"
  by (simp add: saturating_sub_def unat_sub word_le_nat_alt)

lemma unat_minus_le: "b \<le> a \<Longrightarrow> unat (a - b) = unat a - unat b"
  by (rule unat_sub)

lemma unat_add_less: "unat a + unat b < 2 ^ LENGTH('a) \<Longrightarrow> unat (a + b) = unat a + unat b"
  for a b :: "'a::len word"
  by (simp add: unat_add_lem)

lemma unat_less_bound: "unat (a::'a::len word) < 2 ^ LENGTH('a)"
  by (rule unsigned_less)

lemma unat_minus_one_max: "unat (- 1 :: 'a::len word) = 2 ^ LENGTH('a) - 1"
  by (simp add: unsigned_minus_1_eq_mask mask_eq_exp_minus_1)

lemma unat_saturating_add [word_nat]:
  "unat (saturating_add a b) = min (unat a + unat b) (2 ^ LENGTH('a) - 1)"
  for a b :: "'a::len word"
proof (cases "unat a + unat b < 2 ^ LENGTH('a)")
  case True
  then show ?thesis by (simp add: saturating_add_def unat_add_less)
next
  case False
  then show ?thesis
    by (simp add: saturating_add_def unat_minus_one_max)
qed

lemma unat_abs_diff [word_nat]:
  "unat (abs_diff a b) = (unat a - unat b) + (unat b - unat a)"
  by (auto simp: abs_diff_def unat_sub_if' word_less_nat_alt)

lemma unat_clamp [word_nat]: "unat (clamp a lo hi) = clamp (unat a) (unat lo) (unat hi)"
  by (simp add: clamp_def word_less_nat_alt)

lemma clamp_bounds: "lo \<le> hi \<Longrightarrow> lo \<le> clamp x lo hi \<and> clamp x lo hi \<le> hi"
  for x :: "'a::linorder"
  by (auto simp: clamp_def)

lemma checked_add_Some [word_nat]:
  "checked_add a b = Some c \<longleftrightarrow> unat c = unat a + unat b" for a b c :: "'a::len word"
proof
  assume "checked_add a b = Some c"
  then show "unat c = unat a + unat b"
    by (auto simp: checked_add_def unat_add_less split: if_splits)
next
  assume c: "unat c = unat a + unat b"
  then have "unat a + unat b < 2 ^ LENGTH('a)"
    using unat_less_bound [of c] by simp
  then show "checked_add a b = Some c"
    using c by (simp add: checked_add_def word_unat_eq_iff unat_add_less)
qed

lemma checked_add_None [word_nat]:
  "checked_add a b = None \<longleftrightarrow> 2 ^ LENGTH('a) \<le> unat a + unat b" for a b :: "'a::len word"
  by (auto simp: checked_add_def)

lemma checked_sub_Some [word_nat]:
  "checked_sub a b = Some c \<longleftrightarrow> unat a = unat b + unat c" for a b c :: "'a::len word"
  by (auto simp: checked_sub_def word_le_nat_alt word_unat_eq_iff unat_sub)

lemma checked_sub_None [word_nat]: "checked_sub a b = None \<longleftrightarrow> unat a < unat b"
  by (auto simp: checked_sub_def word_le_nat_alt)

lemma checked_mul_Some [word_nat]:
  "checked_mul a b = Some c \<longleftrightarrow> unat c = unat a * unat b" for a b c :: "'a::len word"
proof
  assume "checked_mul a b = Some c"
  then show "unat c = unat a * unat b"
    by (auto simp: checked_mul_def unat_mult_lem split: if_splits)
next
  assume c: "unat c = unat a * unat b"
  then have "unat a * unat b < 2 ^ LENGTH('a)"
    using unat_less_bound [of c] by simp
  then show "checked_mul a b = Some c"
    using c by (simp add: checked_mul_def word_unat_eq_iff unat_mult_lem)
qed

lemma checked_mul_None [word_nat]:
  "checked_mul a b = None \<longleftrightarrow> 2 ^ LENGTH('a) \<le> unat a * unat b" for a b :: "'a::len word"
  by (auto simp: checked_mul_def)

text \<open>Code equations that stay within the word type, so that closed terms evaluate quickly.\<close>

lemma add_overflow_iff: "a \<le> a + b \<longleftrightarrow> unat a + unat b < 2 ^ LENGTH('a)" for a b :: "'a::len word"
  by (rule no_olen_add_nat)

lemma checked_add_code [code]: "checked_add a b = (if a \<le> a + b then Some (a + b) else None)"
  by (simp add: checked_add_def add_overflow_iff)

lemma saturating_add_code [code]: "saturating_add a b = (if a \<le> a + b then a + b else - 1)"
  by (simp add: saturating_add_def add_overflow_iff)

lemma mul_overflow_iff:
  "(a = 0 \<or> a * b div a = b) \<longleftrightarrow> unat a * unat b < 2 ^ LENGTH('a)" for a b :: "'a::len word"
proof (cases "unat a * unat b < 2 ^ LENGTH('a)")
  case True
  then have "unat (a * b) = unat a * unat b" by (simp add: unat_mult_lem)
  then show ?thesis using True by (simp add: word_unat_eq_iff unat_div)
next
  case False
  have "\<not> (a * b div a = b)"
  proof
    assume "a * b div a = b"
    then have "unat b = unat (a * b) div unat a" by (metis unat_div)
    then have "unat a * unat b \<le> unat (a * b)" by (metis mult.commute div_times_less_eq_dividend)
    then show False using False unat_less_bound [of "a * b"] by linarith
  qed
  moreover have "a \<noteq> 0" using False by auto
  ultimately show ?thesis using False by simp
qed

lemma checked_mul_code [code]:
  "checked_mul a b = (if a = 0 \<or> a * b div a = b then Some (a * b) else None)"
  by (simp add: checked_mul_def mul_overflow_iff)

lemma saturating_mul_code [code]:
  "saturating_mul a b = (if a = 0 \<or> a * b div a = b then a * b else - 1)"
  by (simp add: saturating_mul_def mul_overflow_iff)

lemma is_multiple_of_dvd [word_nat]: "is_multiple_of a b \<longleftrightarrow> unat b dvd unat a"
  by (simp add: is_multiple_of_def word_unat_eq_iff unat_mod dvd_eq_mod_eq_0)

lemma unat_two_power: "k < LENGTH('a) \<Longrightarrow> unat (2 ^ k :: 'a::len word) = 2 ^ k"
  using unat_of_nat [of "2 ^ k", where ?'a = 'a] by simp

lemma is_power_of_two_unat:
  "is_power_of_two a \<longleftrightarrow> (\<exists>k < LENGTH('a). unat a = 2 ^ k)" for a :: "'a::len word"
proof -
  have "a = 2 ^ k \<longleftrightarrow> unat a = 2 ^ k" if "k < LENGTH('a)" for k
    using that by (simp add: word_unat_eq_iff unat_two_power)
  then show ?thesis
    by (auto simp: is_power_of_two_def list_ex_iff)
qed

text \<open>For evaluation: the powers by repeated doubling.\<close>

fun doubles_to :: "nat \<Rightarrow> 'a::len word \<Rightarrow> 'a word \<Rightarrow> bool" where
  "doubles_to 0 p a = False"
| "doubles_to (Suc n) p a = (a = p \<or> doubles_to n (p + p) a)"

lemma doubles_to_iff: "doubles_to n (2 ^ k) a \<longleftrightarrow> (\<exists>j. k \<le> j \<and> j < k + n \<and> a = 2 ^ j)"
proof (induction n arbitrary: k)
  case (Suc n)
  have "(2::'a word) ^ k + 2 ^ k = 2 ^ Suc k" by simp
  then have "doubles_to (Suc n) (2 ^ k) a \<longleftrightarrow> a = 2 ^ k \<or> (\<exists>j. Suc k \<le> j \<and> j < Suc k + n \<and> a = 2 ^ j)"
    using Suc.IH [of "Suc k"] by simp
  also have "\<dots> \<longleftrightarrow> (\<exists>j. k \<le> j \<and> j < k + Suc n \<and> a = 2 ^ j)"
    by (metis Suc_le_eq add_Suc_right add_Suc le_eq_less_or_eq less_add_Suc1)
  finally show ?case .
qed auto

lemma is_power_of_two_code [code]: "is_power_of_two a \<longleftrightarrow> doubles_to LENGTH('a) 1 a" for a :: "'a::len word"
  using doubles_to_iff [of "LENGTH('a)" 0 a] by (auto simp: is_power_of_two_def list_ex_iff)

lemma is_power_of_two_pos: "is_power_of_two a \<Longrightarrow> 0 < unat a" for a :: "'a::len word"
  by (auto simp: is_power_of_two_unat)

text \<open>Two powers of two divide each other in order of size.\<close>

lemma power_of_two_dvd:
  "is_power_of_two a \<Longrightarrow> is_power_of_two b \<Longrightarrow> a \<le> b \<Longrightarrow> unat a dvd unat b" for a b :: "'a::len word"
  by (auto simp: is_power_of_two_unat word_le_nat_alt intro: le_imp_power_dvd)

lemma nat_div_ceil: "0 < b \<Longrightarrow> (a + b - 1) div b = a div b + (if a mod b = 0 then 0 else 1)" for a b :: nat
proof -
  assume b: "0 < b"
  define q r where "q = a div b" and "r = a mod b"
  have a: "a = b * q + r" and r: "r < b" using b by (simp_all add: q_def r_def)
  have "(b * q + r + b - 1) div b = q + (if r = 0 then 0 else 1)"
    using r b by (intro div_nat_eqI) (auto simp: algebra_simps)
  then show ?thesis by (simp flip: a add: q_def r_def)
qed

lemma unat_div_ceil [word_nat]:
  fixes a b :: "'a::len word"
  assumes b: "0 < unat b"
  shows "unat (div_ceil a b) = (unat a + unat b - 1) div unat b"
proof (cases "unat a mod unat b = 0")
  case True
  then show ?thesis
    using nat_div_ceil [OF b, of "unat a"] by (simp add: div_ceil_def word_less_nat_alt unat_mod unat_div)
next
  case False
  have "unat b * (unat a div unat b) < unat a"
    using False mult_div_mod_eq [of "unat b" "unat a"] by linarith
  moreover have "unat a div unat b \<le> unat b * (unat a div unat b)" using b by simp
  ultimately have "unat a div unat b + 1 < 2 ^ LENGTH('a)"
    using unat_less_bound [of a] by linarith
  then have "unat (a div b + 1) = unat a div unat b + 1"
    by (subst unat_add_less) (simp_all add: unat_div)
  then show ?thesis
    using False nat_div_ceil [OF b, of "unat a"] by (simp add: div_ceil_def word_less_nat_alt unat_mod)
qed

lemma div_ceil_mult_ge:
  fixes a b :: nat
  assumes "0 < b"
  shows "a \<le> (a + b - 1) div b * b" and "(a + b - 1) div b * b < a + b"
proof -
  have "(a + b - 1) div b * b + (a + b - 1) mod b = a + b - 1" by simp
  moreover have "(a + b - 1) mod b < b" using assms by simp
  ultimately show "a \<le> (a + b - 1) div b * b" and "(a + b - 1) div b * b < a + b"
    using assms by linarith+
qed

section \<open>Rounding to a block size\<close>

text \<open>
  Several operations of the code round a byte count down to a multiple of the device block: the
  pool's \<open>align_down\<close>, the device's \<open>maximum_target_bytes\<close> and the grant of the host runtime. The
  locale states the contract they share; its lemmas are proved once and obtained by interpretation
  for each of them.
\<close>

locale block_floor =
  fixes floor_to :: "u64 \<Rightarrow> u64 \<Rightarrow> u64"
  assumes floor_to_unat: "0 < unat b \<Longrightarrow> unat (floor_to v b) = unat v - unat v mod unat b"
begin

lemma floor_le: "0 < unat b \<Longrightarrow> floor_to v b \<le> v"
  by (simp add: word_le_nat_alt floor_to_unat)

lemma floor_multiple: "0 < unat b \<Longrightarrow> is_multiple_of (floor_to v b) b"
  by (simp add: is_multiple_of_dvd floor_to_unat dvd_minus_mod)

lemma floor_gap:
  assumes "0 < unat b"
  shows "unat v < unat (floor_to v b) + unat b"
proof -
  have "unat v mod unat b \<le> unat v" and "unat v mod unat b < unat b"
    using assms by simp_all
  then show ?thesis unfolding floor_to_unat [OF assms] by linarith
qed

lemma floor_fixed: "0 < unat b \<Longrightarrow> is_multiple_of v b \<Longrightarrow> floor_to v b = v"
  by (simp add: word_unat_eq_iff floor_to_unat is_multiple_of_dvd)

text \<open>The rounded value is the greatest multiple that does not exceed the argument.\<close>

lemma floor_greatest:
  assumes "0 < unat b" and "is_multiple_of w b" and "w \<le> v"
  shows "w \<le> floor_to v b"
proof -
  have "unat w = unat b * (unat w div unat b)"
    using assms(2) by (simp add: is_multiple_of_dvd)
  also have "\<dots> \<le> unat b * (unat v div unat b)"
    using assms(3) by (simp add: word_le_nat_alt div_le_mono)
  also have "\<dots> = unat v - unat v mod unat b"
    by (simp add: minus_mod_eq_mult_div)
  finally show ?thesis
    using assms(1) by (simp add: word_le_nat_alt floor_to_unat)
qed

lemma floor_mono:
  assumes "0 < unat b" and "v \<le> w"
  shows "floor_to v b \<le> floor_to w b"
  using floor_greatest [OF assms(1) floor_multiple [OF assms(1)], of v w] floor_le [OF assms(1), of v] assms(2)
  by simp

end

lemma unat_minus_mod: "unat (v - v mod b) = unat v - unat v mod unat b" for v b :: u64
  by (simp add: unat_sub_if' unat_mod word_le_nat_alt)

lemma unat_div_mult: "unat (v div b * b) = unat v div unat b * unat b" for v b :: "'a::len word"
proof -
  have "unat (v div b) * unat b < 2 ^ LENGTH('a)"
    unfolding unat_div by (rule le_less_trans [OF div_times_less_eq_dividend unat_less_bound])
  then have "unat (v div b * b) = unat (v div b) * unat b" by (simp add: unat_mult_lem)
  then show ?thesis by (simp add: unat_div)
qed

text \<open>The length of a list as an integer, for evaluation against large bounds.\<close>

fun int_length :: "'a list \<Rightarrow> int" where
  "int_length [] = 0"
| "int_length (x # xs) = 1 + int_length xs"

lemma int_length_eq: "int_length xs = int (length xs)"
  by (induction xs) auto

section \<open>Results\<close>

text \<open>
  \<open>Result<T, E>\<close> is the sum type with the error on the left. \<open>and_then\<close> is the \<open>?\<close> operator: the
  first error ends the computation.
\<close>

fun and_then :: "'e + 'a \<Rightarrow> ('a \<Rightarrow> 'e + 'b) \<Rightarrow> 'e + 'b" where
  "and_then (Inl e) f = Inl e"
| "and_then (Inr x) f = f x"

fun map_err :: "('e \<Rightarrow> 'f) \<Rightarrow> 'e + 'a \<Rightarrow> 'f + 'a" where
  "map_err f (Inl e) = Inl (f e)"
| "map_err f (Inr x) = Inr x"

fun ok_or :: "'a option \<Rightarrow> 'e \<Rightarrow> 'e + 'a" where
  "ok_or None e = Inl e"
| "ok_or (Some x) e = Inr x"

fun is_ok :: "'e + 'a \<Rightarrow> bool" where
  "is_ok (Inl e) = False"
| "is_ok (Inr x) = True"

text \<open>The \<open>collect\<close> of an iterator of results: the first error, or every value in order.\<close>

fun collect_results :: "('e + 'a) list \<Rightarrow> 'e + 'a list" where
  "collect_results [] = Inr []"
| "collect_results (r # rs) = and_then r (\<lambda>x. and_then (collect_results rs) (\<lambda>xs. Inr (x # xs)))"

text \<open>Code equations see the chain as case distinctions, whose branches wait for their scrutinee.\<close>

lemma and_then_case [code_unfold]: "and_then m f = (case m of Inl e \<Rightarrow> Inl e | Inr x \<Rightarrow> f x)"
  by (cases m) simp_all

lemma and_then_Inr [result_simps]: "and_then m f = Inr y \<longleftrightarrow> (\<exists>x. m = Inr x \<and> f x = Inr y)"
  by (cases m) auto

lemma and_then_Inl [result_simps]:
  "and_then m f = Inl e \<longleftrightarrow> m = Inl e \<or> (\<exists>x. m = Inr x \<and> f x = Inl e)"
  by (cases m) auto

lemma map_err_Inr [result_simps]: "map_err f m = Inr y \<longleftrightarrow> m = Inr y"
  by (cases m) auto

lemma map_err_Inl [result_simps]: "map_err f m = Inl e \<longleftrightarrow> (\<exists>e'. m = Inl e' \<and> e = f e')"
  by (cases m) auto

lemma ok_or_Inr [result_simps]: "ok_or m e = Inr y \<longleftrightarrow> m = Some y"
  by (cases m) auto

lemma ok_or_Inl [result_simps]: "ok_or m e = Inl e' \<longleftrightarrow> m = None \<and> e' = e"
  by (cases m) auto

lemma is_ok_iff [result_simps]: "is_ok m \<longleftrightarrow> (\<exists>x. m = Inr x)"
  by (cases m) auto

lemma is_ok_unit: "is_ok m \<longleftrightarrow> m = Inr ()"
  by (cases m) auto

lemma not_ok_iff: "(\<forall>x. m \<noteq> Inr x) \<longleftrightarrow> (\<exists>e. m = Inl e)"
  by (cases m) auto

lemma collect_results_Inr: "collect_results rs = Inr xs \<longleftrightarrow> rs = map Inr xs"
proof (induction rs arbitrary: xs)
  case Nil
  then show ?case by auto
next
  case (Cons r rs)
  then show ?case by (cases xs) (auto simp: result_simps)
qed

lemma collect_results_map: "collect_results (map f xs) = Inr ys \<longleftrightarrow> list_all2 (\<lambda>x y. f x = Inr y) xs ys"
proof (induction xs arbitrary: ys)
  case (Cons x xs)
  then show ?case by (cases ys) (auto simp: result_simps)
qed auto

section \<open>Admission logs\<close>

lemma increasing_distinct: "sorted_wrt (\<lambda>x y. f x < f y) xs \<Longrightarrow> distinct xs" for f :: "'a \<Rightarrow> 'b::order"
  by (induction xs) auto

text \<open>
  The contract both ends of the request protocol share: the guest that issues requests and the host
  that admits them. An operation leaves an event. At most one request is open; another is admitted
  only when none is, with a stamp beyond the watermark, which it becomes. Only a resolution closes the
  open request, and nothing lowers the watermark. The client lemmas follow for every history.
\<close>

datatype 'r log_event = Admitted 'r | Replayed 'r | Resolved 'r | Noted 'r | Refused

primrec run_log :: "('j \<Rightarrow> 'o \<Rightarrow> 'r log_event \<times> 'j) \<Rightarrow> 'o list \<Rightarrow> 'j \<Rightarrow> 'r log_event list \<times> 'j" where
  "run_log step [] j = ([], j)"
| "run_log step (p # ps) j =
     (let (e, j') = step j p; (es, j'') = run_log step ps j' in (e # es, j''))"

fun admissions :: "'r log_event list \<Rightarrow> 'r list" where
  "admissions [] = []"
| "admissions (Admitted r # es) = r # admissions es"
| "admissions (e # es) = admissions es"

lemma run_log_Cons:
  assumes "run_log step (p # ps) j = (es, j')"
  obtains e j1 es' where "step j p = (e, j1)" "run_log step ps j1 = (es', j')" "es = e # es'"
  using assms by (auto split: prod.splits)

locale admission_log =
  fixes step :: "'j \<Rightarrow> 'o \<Rightarrow> 'r log_event \<times> 'j"
    and open_request :: "'j \<Rightarrow> 'r option"
    and watermark :: "'j \<Rightarrow> nat"
    and stamp :: "'r \<Rightarrow> nat"
  assumes admit_law: "step j p = (Admitted r, j') \<Longrightarrow>
      open_request j = None \<and> open_request j' = Some r \<and> watermark j < stamp r \<and> watermark j' = stamp r"
    and resolve_law: "step j p = (Resolved r, j') \<Longrightarrow>
      open_request j \<in> {None, Some r} \<and> open_request j' = None \<and> watermark j' = watermark j"
    and other_law: "step j p = (e, j') \<Longrightarrow> (\<And>r. e \<noteq> Admitted r \<and> e \<noteq> Resolved r) \<Longrightarrow>
      open_request j' = open_request j \<and> watermark j' = watermark j"
begin

lemma watermark_step: "step j p = (e, j') \<Longrightarrow> watermark j \<le> watermark j'"
  using admit_law [of j p _ j'] resolve_law [of j p _ j'] other_law [of j p e j']
  by (cases e) (force simp: less_imp_le)+

text \<open>Every admission of a history is stamped beyond the watermark at its start.\<close>

lemma admissions_after:
  "run_log step ps j = (es, j') \<Longrightarrow> r \<in> set (admissions es) \<Longrightarrow> watermark j < stamp r"
proof (induction ps arbitrary: j es)
  case (Cons p ps)
  obtain e j1 es' where run: "step j p = (e, j1)" "run_log step ps j1 = (es', j')" "es = e # es'"
    by (rule run_log_Cons [OF Cons.prems(1)])
  have "watermark j \<le> watermark j1" by (rule watermark_step [OF run(1)])
  moreover have "watermark j1 < stamp r" if "r \<in> set (admissions es')"
    by (rule Cons.IH [OF run(2) that])
  ultimately show ?case
    using Cons.prems(2) run(1,3) admit_law by (cases e) fastforce+
qed simp

lemma admissions_increasing:
  "run_log step ps j = (es, j') \<Longrightarrow> sorted_wrt (\<lambda>q r. stamp q < stamp r) (admissions es)"
proof (induction ps arbitrary: j es)
  case (Cons p ps)
  obtain e j1 es' where run: "step j p = (e, j1)" "run_log step ps j1 = (es', j')" "es = e # es'"
    by (rule run_log_Cons [OF Cons.prems(1)])
  show ?case
    using Cons.IH [OF run(2)] run(1,3) admissions_after [OF run(2)] admit_law
    by (cases e) fastforce+
qed simp

text \<open>An open request is resolved before any other is admitted.\<close>

lemma open_resolved_first:
  "run_log step ps j = (es, j') \<Longrightarrow> open_request j = Some q \<Longrightarrow>
   es = ys @ Admitted r # zs \<Longrightarrow> Resolved q \<in> set ys"
proof (induction ps arbitrary: j es ys)
  case (Cons p ps)
  obtain e j1 es' where run: "step j p = (e, j1)" "run_log step ps j1 = (es', j')" "es = e # es'"
    by (rule run_log_Cons [OF Cons.prems(1)])
  have not_admitted: "e \<noteq> Admitted a" for a
    using admit_law [of j p a j1] run(1) Cons.prems(2) by auto
  then obtain ys' where ys: "ys = e # ys'" "es' = ys' @ Admitted r # zs"
    using Cons.prems(3) run(3) by (cases ys) auto
  show ?case
  proof (cases "\<exists>a. e = Resolved a")
    case True
    then show ?thesis using resolve_law run(1) Cons.prems(2) ys(1) by fastforce
  next
    case False
    then have "open_request j1 = Some q"
      using other_law [OF run(1)] not_admitted Cons.prems(2) by auto
    then have "Resolved q \<in> set ys'"
      using Cons.IH [OF run(2) _ ys(2)] by blast
    then show ?thesis using ys(1) by simp
  qed
qed simp

lemma resolved_between:
  "run_log step ps j = (es, j') \<Longrightarrow> es = xs @ Admitted q # ys @ Admitted r # zs \<Longrightarrow>
   Resolved q \<in> set ys"
proof (induction ps arbitrary: j es xs)
  case (Cons p ps)
  obtain e j1 es' where run: "step j p = (e, j1)" "run_log step ps j1 = (es', j')" "es = e # es'"
    by (rule run_log_Cons [OF Cons.prems(1)])
  show ?case
  proof (cases xs)
    case Nil
    then have "e = Admitted q" "es' = ys @ Admitted r # zs" using Cons.prems(2) run(3) by auto
    then show ?thesis
      using open_resolved_first [OF run(2)] admit_law [of j p q j1] run(1) by blast
  next
    case (Cons x xs')
    then show ?thesis using Cons.IH [OF run(2)] Cons.prems(2) run(3) by auto
  qed
qed simp

end

end
