(* ===== verification/Rust_Strings.thy ===== *)
theory Rust_Strings
  imports Prelude
begin

text \<open>
  Rust's \<open>str\<close> and the operations the sources call on it. A string is the list of its Unicode scalar
  values (as integers), as \<open>chars()\<close> yields them; its \<open>len()\<close> is the length of its UTF-8 encoding in bytes. A
  literal of the source is written \<open>lit ''...''\<close>.
\<close>

type_synonym rust_char = int

type_synonym rust_str = "rust_char list"

definition lit :: "string \<Rightarrow> rust_str" where
  "lit = map of_char"

section \<open>Characters\<close>

definition len_utf8 :: "rust_char \<Rightarrow> nat" where
  "len_utf8 c = (if c < 0x80 then 1 else if c < 0x800 then 2 else if c < 0x10000 then 3 else 4)"

text \<open>\<open>char::is_control\<close> is the general category Cc.\<close>

definition is_control :: "rust_char \<Rightarrow> bool" where
  "is_control c \<longleftrightarrow> c < 0x20 \<or> 0x7F \<le> c \<and> c < 0xA0"

text \<open>\<open>char::is_whitespace\<close> is the property White\_Space.\<close>

definition is_whitespace :: "rust_char \<Rightarrow> bool" where
  "is_whitespace c \<longleftrightarrow>
     9 \<le> c \<and> c \<le> 13 \<or> c = 32 \<or> c = 0x85 \<or> c = 0xA0 \<or> c = 0x1680 \<or> 0x2000 \<le> c \<and> c \<le> 0x200A
     \<or> c = 0x2028 \<or> c = 0x2029 \<or> c = 0x202F \<or> c = 0x205F \<or> c = 0x3000"

definition is_ascii_digit :: "rust_char \<Rightarrow> bool" where
  "is_ascii_digit c \<longleftrightarrow> 48 \<le> c \<and> c \<le> 57"

definition is_ascii_lowercase :: "rust_char \<Rightarrow> bool" where
  "is_ascii_lowercase c \<longleftrightarrow> 97 \<le> c \<and> c \<le> 122"

definition is_ascii_uppercase :: "rust_char \<Rightarrow> bool" where
  "is_ascii_uppercase c \<longleftrightarrow> 65 \<le> c \<and> c \<le> 90"

definition is_ascii_alphabetic :: "rust_char \<Rightarrow> bool" where
  "is_ascii_alphabetic c \<longleftrightarrow> is_ascii_lowercase c \<or> is_ascii_uppercase c"

definition is_ascii_alphanumeric :: "rust_char \<Rightarrow> bool" where
  "is_ascii_alphanumeric c \<longleftrightarrow> is_ascii_alphabetic c \<or> is_ascii_digit c"

definition is_ascii_hexdigit :: "rust_char \<Rightarrow> bool" where
  "is_ascii_hexdigit c \<longleftrightarrow> is_ascii_digit c \<or> 97 \<le> c \<and> c \<le> 102 \<or> 65 \<le> c \<and> c \<le> 70"

definition char_to_ascii_lowercase :: "rust_char \<Rightarrow> rust_char" where
  "char_to_ascii_lowercase c = (if is_ascii_uppercase c then c + 32 else c)"

definition char_to_ascii_uppercase :: "rust_char \<Rightarrow> rust_char" where
  "char_to_ascii_uppercase c = (if is_ascii_lowercase c then c - 32 else c)"

section \<open>Strings\<close>

definition str_len :: "rust_str \<Rightarrow> nat" where
  "str_len s = sum_list (map len_utf8 s)"

definition is_ascii :: "rust_str \<Rightarrow> bool" where
  "is_ascii s \<longleftrightarrow> list_all (\<lambda>c. c < 0x80) s"

definition trim :: "rust_str \<Rightarrow> rust_str" where
  "trim s = rev (dropWhile is_whitespace (rev (dropWhile is_whitespace s)))"

definition to_ascii_lowercase :: "rust_str \<Rightarrow> rust_str" where
  "to_ascii_lowercase = map char_to_ascii_lowercase"

definition to_ascii_uppercase :: "rust_str \<Rightarrow> rust_str" where
  "to_ascii_uppercase = map char_to_ascii_uppercase"

definition starts_with :: "rust_str \<Rightarrow> rust_str \<Rightarrow> bool" where
  "starts_with s p \<longleftrightarrow> take (length p) s = p"

definition ends_with :: "rust_str \<Rightarrow> rust_str \<Rightarrow> bool" where
  "ends_with s p \<longleftrightarrow> starts_with (rev s) (rev p)"

text \<open>\<open>str::split\<close> on a predicate: the pieces between separators, one more than there are separators.\<close>

fun split_on :: "(rust_char \<Rightarrow> bool) \<Rightarrow> rust_str \<Rightarrow> rust_str list" where
  "split_on p [] = [[]]"
| "split_on p (c # s) =
     (if p c then [] # split_on p s
      else case split_on p s of [] \<Rightarrow> [[c]] | w # ws \<Rightarrow> (c # w) # ws)"

fun join :: "rust_str \<Rightarrow> rust_str list \<Rightarrow> rust_str" where
  "join sep [] = []"
| "join sep [w] = w"
| "join sep (w # v # ws) = w @ sep @ join sep (v # ws)"

text \<open>The decimal rendering of an unsigned integer.\<close>

fun dec :: "nat \<Rightarrow> rust_str" where
  "dec n = (if n < 10 then [48 + int n] else dec (n div 10) @ [48 + int (n mod 10)])"

declare dec.simps [simp del]

fun digits_value :: "nat \<Rightarrow> rust_str \<Rightarrow> nat" where
  "digits_value acc [] = acc"
| "digits_value acc (c # s) = digits_value (10 * acc + nat (c - 48)) s"

text \<open>
  \<open>parse\<close> to an unsigned integer below \<open>bound\<close>: an optional plus sign, then at least one decimal
  digit and nothing else.
\<close>

definition parse_unsigned :: "nat \<Rightarrow> rust_str \<Rightarrow> nat option" where
  "parse_unsigned bound s =
     (let d = (case s of c # t \<Rightarrow> (if c = 43 then t else s) | [] \<Rightarrow> s)
      in if d = [] \<or> \<not> list_all is_ascii_digit d \<or> bound \<le> digits_value 0 d then None
         else Some (digits_value 0 d))"

section \<open>Lemmas on strings\<close>

lemma str_len_simps [simp]:
  "str_len [] = 0" "str_len (c # s) = len_utf8 c + str_len s" "str_len (s @ t) = str_len s + str_len t"
  by (simp_all add: str_len_def)

lemma len_utf8_pos [simp]: "0 < len_utf8 c"
  by (simp add: len_utf8_def)

lemma len_utf8_le4: "len_utf8 c \<le> 4"
  by (simp add: len_utf8_def)

lemma length_le_str_len: "length s \<le> str_len s"
proof (induction s)
  case (Cons c s)
  have "1 \<le> len_utf8 c" using len_utf8_pos [of c] by linarith
  with Cons show ?case by simp
qed simp

lemma str_len_ascii: "is_ascii s \<Longrightarrow> str_len s = length s"
  by (induction s) (auto simp: is_ascii_def len_utf8_def)

lemma list_all_dropWhile: "list_all p (dropWhile p s) \<longleftrightarrow> list_all p s"
  by (induction s) auto

lemma trim_empty_iff: "trim s = [] \<longleftrightarrow> list_all is_whitespace s"
  using list_all_dropWhile [of is_whitespace s] by (simp add: trim_def list_all_iff)

lemma trim_nonempty: "trim s \<noteq> [] \<Longrightarrow> s \<noteq> []"
  by (auto simp: trim_def)

lemma set_trim: "set (trim s) \<subseteq> set s"
  by (auto simp: trim_def dest!: set_dropWhileD)

lemma starts_with_append: "starts_with s p \<longleftrightarrow> (\<exists>t. s = p @ t)"
  by (metis append_eq_conv_conj append_take_drop_id starts_with_def)

lemma ends_with_append: "ends_with s p \<longleftrightarrow> (\<exists>t. s = t @ p)"
  unfolding ends_with_def starts_with_append
  by (metis rev_append rev_rev_ident)

lemma split_on_not_Nil [simp]: "split_on p s \<noteq> []"
  by (induction s) (auto split: list.splits)

lemma split_on_pieces: "w \<in> set (split_on p s) \<Longrightarrow> c \<in> set w \<Longrightarrow> \<not> p c \<and> c \<in> set s"
proof (induction s arbitrary: w)
  case (Cons d s)
  then show ?case
    by (cases "split_on p s") (fastforce split: if_splits)+
qed simp

lemma split_on_none: "\<not> list_ex p s \<Longrightarrow> split_on p s = [s]"
  by (induction s) auto

lemma set_join: "set (join sep ws) \<subseteq> set sep \<union> \<Union> (set ` set ws)"
  by (induction sep ws rule: join.induct) auto

lemma join_empty_iff: "join sep ws = [] \<Longrightarrow> w \<in> set ws \<Longrightarrow> w = []"
  by (induction sep ws rule: join.induct) auto

lemma dec_nonempty [simp]: "dec n \<noteq> []"
  by (subst dec.simps) simp

lemma dec_digits: "list_all is_ascii_digit (dec n)"
proof (induction n rule: dec.induct)
  case (1 n)
  show ?case
  proof (cases "n < 10")
    case True
    then show ?thesis by (subst dec.simps) (simp add: is_ascii_digit_def)
  next
    case False
    have "n mod 10 < 10" by simp
    then have "is_ascii_digit (48 + int (n mod 10))"
      unfolding is_ascii_digit_def by linarith
    with False 1 show ?thesis
      by (subst dec.simps) simp
  qed
qed

lemma digits_value_append: "digits_value acc (s @ [c]) = 10 * digits_value acc s + nat (c - 48)"
  by (induction s arbitrary: acc) auto

lemma digits_value_dec: "digits_value 0 (dec n) = n"
proof (induction n rule: dec.induct)
  case (1 n)
  show ?case
  proof (cases "n < 10")
    case True
    then show ?thesis by (subst dec.simps) simp
  next
    case False
    then show ?thesis
      using 1 by (subst dec.simps) (simp add: digits_value_append)
  qed
qed

text \<open>Rendering a number and parsing it again is the identity on every value in range.\<close>

lemma parse_unsigned_dec: "n < bound \<Longrightarrow> parse_unsigned bound (dec n) = Some n"
proof -
  assume n: "n < bound"
  obtain c t where d: "dec n = c # t" by (cases "dec n") auto
  then have "is_ascii_digit c" using dec_digits [of n] by simp
  then have "c \<noteq> 43" by (simp add: is_ascii_digit_def)
  then show ?thesis
    using n d dec_digits [of n] digits_value_dec [of n] by (simp add: parse_unsigned_def)
qed

lemma parse_unsigned_bound: "parse_unsigned bound s = Some n \<Longrightarrow> n < bound"
  by (auto simp: parse_unsigned_def Let_def split: if_splits)

end
