(* ===== verification/Units.thy ===== *)
theory Units
  imports Rust_Strings
begin

text \<open>
  Checked conversions at external memory-unit boundaries: \<open>units.rs\<close> of the core crate. The two
  KiB conversions are inverse to each other where they are defined, and \<open>parse_byte_size\<close> is
  characterised exactly: it accepts a text precisely when the number it denotes, scaled by its binary
  unit, is a whole number of bytes that fits, and returns that number.
\<close>

section \<open>Definitions\<close>

definition BYTES_PER_KIB :: u64 where
  "BYTES_PER_KIB = 1024"

definition kibibytes_to_bytes :: "u64 \<Rightarrow> u64 option" where
  "kibibytes_to_bytes value_kib = checked_mul value_kib BYTES_PER_KIB"

definition bytes_to_kibibytes :: "u64 \<Rightarrow> u64 option" where
  "bytes_to_kibibytes value_bytes =
     (if is_multiple_of value_bytes BYTES_PER_KIB then Some (value_bytes div BYTES_PER_KIB) else None)"

text \<open>The reason of a refused size; the trimmed text is part of every message.\<close>

datatype size_error =
    UnknownSizeUnit rust_str
  | InvalidSize rust_str
  | SizeTooLarge rust_str
  | NotWholeBytes rust_str

definition unit_shift :: "rust_str \<Rightarrow> nat option" where
  "unit_shift unit =
     (let u = to_ascii_lowercase (trim unit) in
      if u = lit '''' \<or> u = lit ''b'' then Some 0
      else if u = lit ''k'' \<or> u = lit ''kb'' \<or> u = lit ''kib'' then Some 10
      else if u = lit ''m'' \<or> u = lit ''mb'' \<or> u = lit ''mib'' then Some 20
      else if u = lit ''g'' \<or> u = lit ''gb'' \<or> u = lit ''gib'' then Some 30
      else if u = lit ''t'' \<or> u = lit ''tb'' \<or> u = lit ''tib'' then Some 40
      else None)"

definition is_number_char :: "rust_char \<Rightarrow> bool" where
  "is_number_char c \<longleftrightarrow> is_ascii_digit c \<or> c = 46"

text \<open>\<open>split_once('.')\<close>, with the fallback the code gives a number without a point.\<close>

definition split_point :: "rust_str \<Rightarrow> rust_str \<times> rust_str" where
  "split_point number =
     (if 46 \<in> set number
      then (takeWhile (\<lambda>c. c \<noteq> 46) number, tl (dropWhile (\<lambda>c. c \<noteq> 46) number))
      else (number, []))"

text \<open>The digits as a 128-bit number, scaled by the unit and divided by the fraction's power of ten.\<close>

definition scale_size :: "rust_str \<Rightarrow> nat \<Rightarrow> nat \<Rightarrow> u128 \<Rightarrow> size_error + u64" where
  "scale_size text shift fraction_len digits =
     (let scale = (10::u128) ^ fraction_len; scaled = push_bit shift digits in
      if drop_bit shift scaled \<noteq> digits then Inl (SizeTooLarge text)
      else if scaled mod scale \<noteq> 0 then Inl (NotWholeBytes text)
      else if unat (scaled div scale) < 2 ^ 64 then Inr (of_nat (unat (scaled div scale)))
      else Inl (SizeTooLarge text))"

definition parse_byte_size :: "rust_str \<Rightarrow> size_error + u64" where
  "parse_byte_size text0 =
     (let text = trim text0;
          number = takeWhile is_number_char text;
          unit = dropWhile is_number_char text
      in case unit_shift unit of
           None \<Rightarrow> Inl (UnknownSizeUnit text)
         | Some shift \<Rightarrow>
             let (whole, fraction) = split_point number in
             if whole = [] \<and> fraction = []
                \<or> \<not> list_all is_ascii_digit (whole @ fraction)
                \<or> 18 < str_len fraction
             then Inl (InvalidSize text)
             else
               case parse_unsigned (2 ^ 128) (whole @ fraction) of
                 None \<Rightarrow> Inl (SizeTooLarge text)
               | Some digits \<Rightarrow> scale_size text shift (str_len fraction) (of_nat digits))"

text \<open>
  The serde adapter of a byte-count field: the visitor accepts an unsigned or signed integer or a
  size text, and the serializer writes the plain number.
\<close>

datatype scalar = VisitU64 u64 | VisitI64 u64 | VisitStr rust_str

datatype byte_size_error = NegativeByteCount | BadSize size_error

fun byte_size_visit :: "scalar \<Rightarrow> byte_size_error + u64" where
  "byte_size_visit (VisitU64 v) = Inr v"
| "byte_size_visit (VisitI64 v) = (if 0 \<le> sint v then Inr v else Inl NegativeByteCount)"
| "byte_size_visit (VisitStr s) = map_err BadSize (parse_byte_size s)"

definition byte_size_serialize :: "u64 \<Rightarrow> scalar" where
  "byte_size_serialize v = VisitU64 v"

definition byte_size_option_visit :: "scalar \<Rightarrow> byte_size_error + u64 option" where
  "byte_size_option_visit s = and_then (byte_size_visit s) (\<lambda>v. Inr (Some v))"

text \<open>\<open>str::parse::<u64>\<close>, with code equations that compute on integers.\<close>

definition parse_u64 :: "rust_str \<Rightarrow> u64 option" where
  "parse_u64 s = map_option of_nat (parse_unsigned (2 ^ 64) s)"

fun digits_int :: "int \<Rightarrow> rust_str \<Rightarrow> int" where
  "digits_int acc [] = acc"
| "digits_int acc (c # s) = digits_int (10 * acc + (c - 48)) s"

lemma digits_int_eq: "list_all is_ascii_digit s \<Longrightarrow> digits_int (int acc) s = int (digits_value acc s)"
proof (induction s arbitrary: acc)
  case (Cons c s)
  have "10 * int acc + (c - 48) = int (10 * acc + nat (c - 48))"
    using Cons.prems by (simp add: is_ascii_digit_def)
  then show ?case using Cons.IH [of "10 * acc + nat (c - 48)"] Cons.prems by simp
qed simp

lemma parse_u64_code [code]:
  "parse_u64 s =
     (let d = (case s of c # t \<Rightarrow> (if c = 43 then t else s) | [] \<Rightarrow> s)
      in if d = [] \<or> \<not> list_all is_ascii_digit d \<or> 2 ^ 64 \<le> digits_int 0 d then None
         else Some (word_of_int (digits_int 0 d)))"
proof -
  have int: "list_all is_ascii_digit d \<Longrightarrow> digits_int 0 d = int (digits_value 0 d)" for d
    using digits_int_eq [of d 0] by simp
  have "list_all is_ascii_digit d \<Longrightarrow> (2 ^ 64 \<le> digits_int 0 d) = (2 ^ 64 \<le> digits_value 0 d)" for d
    using int [of d] by (metis of_nat_le_iff of_nat_numeral of_nat_power)
  then show ?thesis
    unfolding parse_u64_def parse_unsigned_def Let_def by (auto simp: int)
qed

lemma parse_u64_show: "parse_u64 (dec (unat v)) = Some v"
  using parse_unsigned_dec [of "unat v" "2 ^ 64"] unat_less_bound [of v] by (simp add: parse_u64_def)

section \<open>The KiB conversions\<close>

lemma unat_BYTES_PER_KIB [simp]: "unat BYTES_PER_KIB = 1024"
  by (simp add: BYTES_PER_KIB_def)

lemma bytes_to_kibibytes_iff: "bytes_to_kibibytes b = Some k \<longleftrightarrow> unat b = 1024 * unat k"
  by (auto simp: bytes_to_kibibytes_def word_nat)

lemma kibibytes_to_bytes_iff: "kibibytes_to_bytes k = Some b \<longleftrightarrow> unat b = 1024 * unat k"
  by (auto simp: kibibytes_to_bytes_def word_nat)

section \<open>Parsing sizes\<close>

lemma split_point_parts:
  assumes "split_point number = (whole, fraction)"
  shows "number = (if 46 \<in> set number then whole @ 46 # fraction else whole)"
    and "46 \<notin> set whole" and "46 \<notin> set number \<Longrightarrow> fraction = []"
proof -
  have "number = takeWhile (\<lambda>c. c \<noteq> 46) number @ dropWhile (\<lambda>c. c \<noteq> 46) number" by simp
  moreover have "dropWhile (\<lambda>c. c \<noteq> 46) number = 46 # tl (dropWhile (\<lambda>c. c \<noteq> 46) number)"
    if "46 \<in> set number"
    using that hd_dropWhile [of "\<lambda>c. c \<noteq> 46" number]
    by (cases "dropWhile (\<lambda>c. c \<noteq> 46) number") auto
  ultimately show "number = (if 46 \<in> set number then whole @ 46 # fraction else whole)"
    using assms by (auto simp: split_point_def split: if_splits) (metis takeWhile_dropWhile_id)
  show "46 \<notin> set whole"
    using assms by (auto simp: split_point_def dest: set_takeWhileD split: if_splits)
  show "46 \<notin> set number \<Longrightarrow> fraction = []"
    using assms by (auto simp: split_point_def split: if_splits)
qed

lemma unit_shift_le: "unit_shift u = Some s \<Longrightarrow> s \<le> 40"
  by (auto simp: unit_shift_def Let_def split: if_splits)

lemma all_digits_parse:
  "s \<noteq> [] \<Longrightarrow> list_all is_ascii_digit s \<Longrightarrow>
     parse_unsigned bound s = (if digits_value 0 s < bound then Some (digits_value 0 s) else None)"
  by (cases s) (auto simp: parse_unsigned_def is_ascii_digit_def)

lemma digits_str_len: "list_all is_ascii_digit s \<Longrightarrow> str_len s = length s"
  by (rule str_len_ascii) (auto simp: is_ascii_def is_ascii_digit_def list_all_iff)

text \<open>Shifting left and back is lossless exactly when the shifted value still fits.\<close>

lemma shift_lossless:
  fixes x :: u128
  assumes "s < 128"
  shows "drop_bit s (push_bit s x) = x \<longleftrightarrow> unat x * 2 ^ s < 2 ^ 128"
    and "unat x * 2 ^ s < 2 ^ 128 \<Longrightarrow> unat (push_bit s x) = unat x * 2 ^ s"
proof -
  have p: "unat (push_bit s x) = unat x * 2 ^ s mod 2 ^ 128"
    by (simp add: unsigned_push_bit_eq take_bit_eq_mod) (simp add: push_bit_eq_mult)
  show val: "unat x * 2 ^ s < 2 ^ 128 \<Longrightarrow> unat (push_bit s x) = unat x * 2 ^ s"
    using p by simp
  have d: "unat (drop_bit s (push_bit s x)) = unat (push_bit s x) div 2 ^ s"
    using assms by (simp add: drop_bit_eq_div unat_div unat_two_power)
  show "drop_bit s (push_bit s x) = x \<longleftrightarrow> unat x * 2 ^ s < 2 ^ 128"
  proof
    assume "drop_bit s (push_bit s x) = x"
    then have "unat x = unat (push_bit s x) div 2 ^ s" using d by simp
    then have "unat x * 2 ^ s \<le> unat (push_bit s x)"
      by (metis div_times_less_eq_dividend)
    then show "unat x * 2 ^ s < 2 ^ 128"
      using unat_less_bound [of "push_bit s x"] by simp
  next
    assume "unat x * 2 ^ s < 2 ^ 128"
    then show "drop_bit s (push_bit s x) = x"
      using d val by (simp add: word_unat_eq_iff)
  qed
qed


text \<open>What a text denotes: its digits, the number of fractional ones, and its unit's shift.\<close>

definition size_number :: "rust_str \<Rightarrow> rust_str \<times> rust_str" where
  "size_number text = split_point (takeWhile is_number_char (trim text))"

definition size_unit :: "rust_str \<Rightarrow> nat option" where
  "size_unit text = unit_shift (dropWhile is_number_char (trim text))"

definition well_formed_number :: "rust_str \<times> rust_str \<Rightarrow> bool" where
  "well_formed_number number \<longleftrightarrow>
     fst number @ snd number \<noteq> [] \<and> list_all is_ascii_digit (fst number @ snd number)
     \<and> length (snd number) \<le> 18"

lemma scale_value: "n \<le> 18 \<Longrightarrow> unat ((10::u128) ^ n) = 10 ^ n"
proof -
  assume "n \<le> 18"
  then have "(10::nat) ^ n \<le> 10 ^ 18" by (rule power_increasing) simp
  then have "(10::nat) ^ n < 2 ^ 128" by (rule le_less_trans) simp
  then show ?thesis
    using unat_of_nat [of "10 ^ n", where ?'a = 128] by simp
qed

lemma of_nat_u64_eq: "n < 2 ^ 64 \<Longrightarrow> (of_nat n :: u64) = v \<longleftrightarrow> unat v = n"
  by (auto simp: word_unat_eq_iff unat_of_nat take_bit_nat_eq_self_iff)

lemma scale_size_iff:
  assumes shift: "shift < 128" and frac: "f \<le> 18"
  shows "scale_size text shift f d = Inr v \<longleftrightarrow>
    unat d * 2 ^ shift < 2 ^ 128 \<and> unat v * 10 ^ f = unat d * 2 ^ shift"
proof (cases "unat d * 2 ^ shift < 2 ^ 128")
  case False
  then have "drop_bit shift (push_bit shift d) \<noteq> d"
    using shift_lossless(1) [OF shift] by blast
  then show ?thesis using False by (simp add: scale_size_def Let_def)
next
  case True
  let ?s = "push_bit shift d"
  have us: "unat ?s = unat d * 2 ^ shift" using shift_lossless(2) [OF shift True] .
  have lossless: "drop_bit shift ?s = d" using shift_lossless(1) [OF shift] True by blast
  have m: "?s mod 10 ^ f = 0 \<longleftrightarrow> 10 ^ f dvd unat d * 2 ^ shift"
    by (simp add: word_unat_eq_iff unat_mod us scale_value [OF frac] dvd_eq_mod_eq_0)
  have q: "unat (?s div 10 ^ f) = unat d * 2 ^ shift div 10 ^ f"
    by (simp add: unat_div us scale_value [OF frac])
  have v: "unat v < 2 ^ 64" using unat_less_bound [of v] by simp
  have "scale_size text shift f d = Inr v \<longleftrightarrow> 10 ^ f dvd unat d * 2 ^ shift \<and>
      unat d * 2 ^ shift div 10 ^ f < 2 ^ 64 \<and> unat v = unat d * 2 ^ shift div 10 ^ f"
    using lossless m q of_nat_u64_eq by (auto simp: scale_size_def Let_def)
  also have "\<dots> \<longleftrightarrow> unat v * 10 ^ f = unat d * 2 ^ shift"
  proof
    assume eq: "unat v * 10 ^ f = unat d * 2 ^ shift"
    show "10 ^ f dvd unat d * 2 ^ shift \<and> unat d * 2 ^ shift div 10 ^ f < 2 ^ 64 \<and>
        unat v = unat d * 2 ^ shift div 10 ^ f"
      using v by (simp flip: eq)
  qed (auto simp: dvd_div_eq_mult)
  finally show ?thesis using True by simp
qed

text \<open>
  The exact condition: accepted texts are the well-formed numbers with a known unit whose scaled
  value is a whole number of bytes below \<open>2 ^ 64\<close>, computed without losing bits in 128.
\<close>

lemma parse_byte_size_iff:
  assumes number: "size_number text = (whole, fraction)"
  shows "parse_byte_size text = Inr v \<longleftrightarrow>
    well_formed_number (whole, fraction) \<and>
    (\<exists>shift. size_unit text = Some shift \<and>
       digits_value 0 (whole @ fraction) * 2 ^ shift < 2 ^ 128 \<and>
       unat v * 10 ^ length fraction = digits_value 0 (whole @ fraction) * 2 ^ shift)"
proof (cases "size_unit text")
  case None
  then show ?thesis by (simp add: parse_byte_size_def size_unit_def Let_def)
next
  case (Some shift)
  define d where "d = digits_value 0 (whole @ fraction)"
  note parse_defs = parse_byte_size_def Let_def Some [unfolded size_unit_def]
    number [unfolded size_number_def]
  show ?thesis
  proof (cases "well_formed_number (whole, fraction)")
    case False
    then show ?thesis
      by (auto simp: parse_defs well_formed_number_def digits_str_len)
  next
    case wf: True
    then have frac: "str_len fraction = length fraction" "length fraction \<le> 18"
      by (auto simp: well_formed_number_def digits_str_len)
    have shift: "shift < 128"
      using unit_shift_le Some [unfolded size_unit_def] by fastforce
    have parsed: "parse_unsigned (2 ^ 128) (whole @ fraction) = (if d < 2 ^ 128 then Some d else None)"
      using all_digits_parse [of "whole @ fraction"] wf by (auto simp: d_def well_formed_number_def)
    have "d * 1 \<le> d * 2 ^ shift" by (rule mult_le_mono2) simp
    then have big: "\<not> d * 2 ^ shift < 2 ^ 128" if "\<not> d < 2 ^ 128"
      using that by linarith
    show ?thesis
    proof (cases "d < 2 ^ 128")
      case False
      then show ?thesis using big wf frac parsed Some
        by (simp add: parse_defs well_formed_number_def d_def)
    next
      case True
      then have ud: "unat (of_nat d :: u128) = d"
        by (simp add: unat_of_nat take_bit_nat_eq_self_iff)
      have "parse_byte_size text = scale_size (trim text) shift (length fraction) (of_nat d)"
        using wf frac parsed True by (auto simp: parse_defs well_formed_number_def)
      then show ?thesis
        using scale_size_iff [OF shift frac(2)] wf Some ud by (auto simp: d_def)
    qed
  qed
qed

section \<open>Properties\<close>

text \<open>
  The two KiB conversions are inverse to each other: one maps \<open>k\<close> to \<open>b\<close> exactly when the other
  maps \<open>b\<close> back to \<open>k\<close>. So every byte count sent to libvirt in KiB denotes the same bytes again, and
  a conversion is refused exactly when no such count exists.
\<close>

theorem kib_conversions_inverse: "kibibytes_to_bytes k = Some b \<longleftrightarrow> bytes_to_kibibytes b = Some k"
  by (simp add: bytes_to_kibibytes_iff kibibytes_to_bytes_iff)

text \<open>
  C27. \<open>parse_byte_size\<close> is exact: it returns \<open>v\<close> precisely when the text is a decimal number with at
  most 18 fractional digits and a known unit, the digits scaled by the unit fit 128 bits, and \<open>v\<close> bytes
  are exactly the number times its unit. It never rounds, and no text it accepts denotes another size.
\<close>

theorem parse_byte_size_exact:
  "parse_byte_size text = Inr v \<longleftrightarrow>
     well_formed_number (size_number text) \<and>
     (\<exists>shift. size_unit text = Some shift \<and>
        digits_value 0 (fst (size_number text) @ snd (size_number text)) * 2 ^ shift < 2 ^ 128 \<and>
        unat v * 10 ^ length (snd (size_number text)) =
          digits_value 0 (fst (size_number text) @ snd (size_number text)) * 2 ^ shift)"
  using parse_byte_size_iff [OF prod.collapse [symmetric]] by simp

lemma dec_number_chars: "c \<in> set (dec n) \<Longrightarrow> is_number_char c \<and> c \<noteq> 46 \<and> \<not> is_whitespace c"
  using dec_digits [of n]
  by (auto simp: list_all_iff is_number_char_def is_ascii_digit_def is_whitespace_def)

lemma trim_dec_unit:
  assumes "u = [] \<or> \<not> is_whitespace (last u)"
  shows "trim (dec n @ u) = dec n @ u"
proof -
  obtain c t where d: "dec n = c # t" by (cases "dec n") auto
  have c: "\<not> is_whitespace c" and l: "\<not> is_whitespace (last (dec n @ u))"
    using dec_number_chars [of _ n] d assms by (auto simp: last_append)
  have "dropWhile is_whitespace (dec n @ u) = dec n @ u" using d c by simp
  moreover have "dropWhile is_whitespace (rev (dec n @ u)) = rev (dec n @ u)"
    using l d by (metis Nil_is_append_conv dropWhile_eq_self_iff hd_rev list.distinct(1))
  ultimately show ?thesis by (simp add: trim_def)
qed

text \<open>
  A size written as a decimal number followed by a unit, as an administrator writes \<open>8GB\<close>, is
  read back as that number of binary units whenever it fits a \<open>u64\<close>; the unit is anything the
  parser knows that starts with no digit or point and does not end in white space.
\<close>

theorem parse_rendered_size:
  assumes unit: "unit_shift u = Some shift"
    and plain: "u = [] \<or> \<not> is_number_char (hd u) \<and> \<not> is_whitespace (last u)"
    and fits: "n * 2 ^ shift < 2 ^ 64"
  shows "parse_byte_size (dec n @ u) = Inr (of_nat (n * 2 ^ shift))"
proof -
  have t: "trim (dec n @ u) = dec n @ u" using plain by (intro trim_dec_unit) auto
  have take: "takeWhile is_number_char (dec n @ u) = dec n"
    and drop: "dropWhile is_number_char (dec n @ u) = u"
    using plain dec_number_chars [of _ n] by (cases u; simp)+
  have parts: "size_number (dec n @ u) = (dec n, [])"
    using dec_number_chars [of _ n] by (auto simp: size_number_def t take split_point_def)
  have "well_formed_number (dec n, [])"
    using dec_digits [of n] by (simp add: well_formed_number_def)
  moreover have "size_unit (dec n @ u) = Some shift" by (simp add: size_unit_def t drop unit)
  moreover have "unat (of_nat (n * 2 ^ shift) :: u64) = n * 2 ^ shift"
    using of_nat_u64_eq [OF fits] by blast
  ultimately show ?thesis
    using parse_byte_size_iff [OF parts, of "of_nat (n * 2 ^ shift)"] fits
    by (simp add: digits_value_dec)
qed

end
