(* ===== verification/Virtio_Mem.thy ===== *)
theory Virtio_Mem
  imports Units
begin

text \<open>
  The device state and its validation: \<open>virtio_mem.rs\<close> and \<open>error.rs\<close> of the core crate. A state is
  accepted exactly when its geometry is sound (\<open>wf_device\<close>), and \<open>maximum_target_bytes\<close> is the
  largest target such a device accepts. Every accepted target is a whole number of KiB, so the
  conversion libvirt needs cannot fail for it.
\<close>

section \<open>Definitions\<close>

datatype virtio_mem_error =
    ZeroSize
  | BlockSizeTooSmall u64 u64
  | BlockSizeNotPowerOfTwo u64
  | SizeNotAligned u64 u64
  | ValueOutsideSize rust_str u64 u64
  | ValueNotAligned rust_str u64 u64

definition show_u64 :: "u64 \<Rightarrow> rust_str" where
  "show_u64 v = dec (unat v)"

lemma show_u64_code [code]:
  "show_u64 v = (if v < 10 then [48 + uint v] else show_u64 (v div 10) @ [48 + uint (v mod 10)])"
proof -
  have "int (unat v) = uint v" by (rule uint_nat [symmetric])
  moreover have "int (unat v mod 10) = uint (v mod 10)"
    unfolding uint_nat unat_mod by simp
  ultimately show ?thesis
    unfolding show_u64_def by (subst dec.simps) (simp add: word_less_nat_alt unat_div)
qed

text \<open>The messages the \<open>thiserror\<close> attributes give the errors.\<close>

definition show_word :: "'a::len word \<Rightarrow> rust_str" where
  "show_word v = show_u64 (ucast v)"

fun display_virtio_mem_error :: "virtio_mem_error \<Rightarrow> rust_str" where
  "display_virtio_mem_error ZeroSize = lit ''virtio-mem device size must be greater than zero''"
| "display_virtio_mem_error (BlockSizeTooSmall actual minimum) =
     lit ''virtio-mem block size '' @ show_u64 actual @ lit '' is smaller than the minimum ''
     @ show_u64 minimum @ lit '' bytes''"
| "display_virtio_mem_error (BlockSizeNotPowerOfTwo block) =
     lit ''virtio-mem block size must be a power of two: '' @ show_u64 block @ lit '' bytes''"
| "display_virtio_mem_error (SizeNotAligned sz block) =
     lit ''virtio-mem device size '' @ show_u64 sz @ lit '' is not a multiple of block size ''
     @ show_u64 block"
| "display_virtio_mem_error (ValueOutsideSize name v sz) =
     lit ''virtio-mem '' @ name @ lit '' value '' @ show_u64 v @ lit '' is outside device size ''
     @ show_u64 sz"
| "display_virtio_mem_error (ValueNotAligned name v block) =
     lit ''virtio-mem '' @ name @ lit '' value '' @ show_u64 v
     @ lit '' is not aligned to block size '' @ show_u64 block"

definition MIN_BLOCK_SIZE_BYTES :: u64 where
  "MIN_BLOCK_SIZE_BYTES = 1048576"

record virtio_mem_state =
  size_bytes :: u64
  block_size_bytes :: u64
  requested_bytes :: u64
  current_bytes :: u64

definition validate_state_value ::
    "virtio_mem_state \<Rightarrow> u64 \<Rightarrow> rust_str \<Rightarrow> virtio_mem_error + unit" where
  "validate_state_value d value_bytes name =
     (if size_bytes d < value_bytes then Inl (ValueOutsideSize name value_bytes (size_bytes d))
      else if \<not> is_multiple_of value_bytes (block_size_bytes d)
        then Inl (ValueNotAligned name value_bytes (block_size_bytes d))
      else Inr ())"

definition validate_device :: "virtio_mem_state \<Rightarrow> virtio_mem_error + unit" where
  "validate_device d =
     (if size_bytes d = 0 then Inl ZeroSize
      else if block_size_bytes d < MIN_BLOCK_SIZE_BYTES
        then Inl (BlockSizeTooSmall (block_size_bytes d) MIN_BLOCK_SIZE_BYTES)
      else if \<not> is_power_of_two (block_size_bytes d)
        then Inl (BlockSizeNotPowerOfTwo (block_size_bytes d))
      else if size_bytes d < block_size_bytes d \<or> \<not> is_multiple_of (size_bytes d) (block_size_bytes d)
        then Inl (SizeNotAligned (size_bytes d) (block_size_bytes d))
      else and_then (validate_state_value d (requested_bytes d) (lit ''requested'')) (\<lambda>_.
        validate_state_value d (current_bytes d) (lit ''current'')))"

definition maximum_target_bytes :: "u64 \<Rightarrow> u64 \<Rightarrow> u64" where
  "maximum_target_bytes sz block = sz - sz mod max block 1"

definition device_maximum_target :: "virtio_mem_state \<Rightarrow> u64" where
  "device_maximum_target d = maximum_target_bytes (size_bytes d) (block_size_bytes d)"

definition validate_target :: "virtio_mem_state \<Rightarrow> u64 \<Rightarrow> virtio_mem_error + unit" where
  "validate_target d target_bytes =
     and_then (validate_device d) (\<lambda>_.
     and_then (validate_state_value d target_bytes (lit ''target'')) (\<lambda>_. Inr ()))"

section \<open>Sound geometry\<close>

definition wf_device :: "virtio_mem_state \<Rightarrow> bool" where
  "wf_device d \<longleftrightarrow>
     0 < size_bytes d \<and> MIN_BLOCK_SIZE_BYTES \<le> block_size_bytes d \<and> is_power_of_two (block_size_bytes d)
     \<and> is_multiple_of (size_bytes d) (block_size_bytes d)
     \<and> requested_bytes d \<le> size_bytes d \<and> is_multiple_of (requested_bytes d) (block_size_bytes d)
     \<and> current_bytes d \<le> size_bytes d \<and> is_multiple_of (current_bytes d) (block_size_bytes d)"

lemma validate_state_value_ok:
  "validate_state_value d v name = Inr u \<longleftrightarrow>
     v \<le> size_bytes d \<and> is_multiple_of v (block_size_bytes d)"
  by (auto simp: validate_state_value_def not_less)

lemma multiple_ge_block: "is_multiple_of v b \<Longrightarrow> 0 < v \<Longrightarrow> b \<le> v" for v b :: u64
  by (auto simp: word_nat dest: dvd_imp_le)

lemma validate_device_ok [result_simps]: "validate_device d = Inr u \<longleftrightarrow> wf_device d"
proof -
  have pos: "size_bytes d \<noteq> 0 \<longleftrightarrow> 0 < size_bytes d" by (simp add: word_neq_0_conv)
  show ?thesis
    by (auto simp: validate_device_def wf_device_def and_then_Inr validate_state_value_ok pos not_less
        dest: multiple_ge_block)
qed

lemma validate_target_ok [result_simps]:
  "validate_target d t = Inr u \<longleftrightarrow>
     wf_device d \<and> t \<le> size_bytes d \<and> is_multiple_of t (block_size_bytes d)"
  by (auto simp: validate_target_def and_then_Inr validate_state_value_ok validate_device_ok)

lemma unat_MIN_BLOCK [simp]: "unat MIN_BLOCK_SIZE_BYTES = 1048576"
  by (simp add: MIN_BLOCK_SIZE_BYTES_def)

lemma wf_device_block: "wf_device d \<Longrightarrow> 1048576 \<le> unat (block_size_bytes d)"
  by (auto simp: wf_device_def word_le_nat_alt)

lemma wf_device_block_pos: "wf_device d \<Longrightarrow> 0 < unat (block_size_bytes d)"
  using wf_device_block by fastforce

text \<open>Rounding a device size to its blocks meets the shared contract.\<close>

interpretation device_floor: block_floor maximum_target_bytes
proof
  fix b v :: u64
  assume "0 < unat b"
  then have "max b 1 = b" by (auto simp: max_def word_nat)
  then show "unat (maximum_target_bytes v b) = unat v - unat v mod unat b"
    by (simp add: maximum_target_bytes_def unat_minus_mod)
qed

lemma wf_device_maximum: "wf_device d \<Longrightarrow> device_maximum_target d = size_bytes d"
  unfolding device_maximum_target_def
  by (rule device_floor.floor_fixed) (auto simp: wf_device_block_pos wf_device_def)

lemma is_power_of_two_kib: "is_power_of_two BYTES_PER_KIB"
  unfolding is_power_of_two_unat by (rule exI [of _ 10]) (simp add: BYTES_PER_KIB_def)

lemma wf_device_kib: "wf_device d \<Longrightarrow> is_multiple_of (block_size_bytes d) BYTES_PER_KIB"
  using wf_device_block [of d] power_of_two_dvd [OF is_power_of_two_kib, of "block_size_bytes d"]
  by (simp add: is_multiple_of_dvd wf_device_def word_le_nat_alt)

section \<open>Properties\<close>

text \<open>
  Validation accepts exactly the sound device states: a positive size that is a multiple of a
  power-of-two block of at least 1 MiB, with requested and current bytes block multiples within it.
\<close>

theorem validate_device_exact: "validate_device d = Inr () \<longleftrightarrow> wf_device d"
  by (rule validate_device_ok)

text \<open>
  On a sound device \<open>maximum_target_bytes\<close> is the largest target that validation accepts: it is
  itself accepted, and every accepted target is at most it.
\<close>

theorem maximum_target_is_greatest:
  assumes "wf_device d"
  shows "validate_target d (device_maximum_target d) = Inr ()
    \<and> (\<forall>t. validate_target d t = Inr () \<longrightarrow> t \<le> device_maximum_target d)"
  using assms by (auto simp: validate_target_ok wf_device_maximum wf_device_def)

theorem maximum_target_is_greatest_witness:
  "let d = \<lparr>size_bytes = 8589934592, block_size_bytes = 2097152,
            requested_bytes = 4294967296, current_bytes = 4294967296\<rparr>
   in validate_target d (device_maximum_target d) = Inr () \<and> device_maximum_target d = 8589934592"
proof -
  let ?d = "\<lparr>size_bytes = 8589934592, block_size_bytes = 2097152,
            requested_bytes = 4294967296, current_bytes = 4294967296\<rparr> :: virtio_mem_state"
  have "wf_device ?d" by code_simp
  then show ?thesis
    using maximum_target_is_greatest [of ?d] wf_device_maximum [of ?d] by simp
qed

text \<open>
  Every target validation accepts is a whole number of KiB, so converting it for
  \<open>virsh update-memory-device\<close> always succeeds.
\<close>

theorem valid_target_in_kib:
  assumes "validate_target d t = Inr ()"
  shows "\<exists>k. bytes_to_kibibytes t = Some k \<and> kibibytes_to_bytes k = Some t"
proof -
  have "unat BYTES_PER_KIB dvd unat t"
    using assms wf_device_kib by (auto simp: validate_target_ok is_multiple_of_dvd intro: dvd_trans)
  then obtain k where "bytes_to_kibibytes t = Some k"
    by (auto simp: bytes_to_kibibytes_def is_multiple_of_dvd)
  then show ?thesis by (auto simp: bytes_to_kibibytes_iff kibibytes_to_bytes_iff)
qed

end
