(* ===== verification/Memory_Request.thy ===== *)
theory Memory_Request
  imports Virtio_Mem
begin

text \<open>
  Guest-owned deltas and host responses: \<open>memory_request.rs\<close> of the core crate. The theory holds the
  wire types, the identity and reason rules, and the host's admission journal. The theorems show that
  a bounded reason is always a valid one, that every journal operation keeps the journal valid, that a
  terminal result is final, and that over any history of operations requests are admitted in strictly
  increasing order of issuance, each at most once and each only after its predecessor was resolved.
\<close>

section \<open>Identities and paths\<close>

definition MEMORY_REQUEST_VERSION :: u16 where
  "MEMORY_REQUEST_VERSION = 1"

definition MAX_REQUEST_LIFETIME_MILLIS :: u64 where
  "MAX_REQUEST_LIFETIME_MILLIS = 60000"

definition MAX_REASON_BYTES :: nat where
  "MAX_REASON_BYTES = 1024"

definition host_status_path :: "rust_str \<Rightarrow> rust_str" where
  "host_status_path publication_path = publication_path @ lit ''.host-status''"

definition request_state_path :: "rust_str \<Rightarrow> rust_str" where
  "request_state_path publication_path = publication_path @ lit ''.request-state''"

definition valid_identity :: "rust_str \<Rightarrow> bool" where
  "valid_identity v \<longleftrightarrow> trim v \<noteq> [] \<and> str_len v \<le> 128 \<and> is_ascii v \<and> \<not> list_ex is_control v"

section \<open>Requests\<close>

record request_identity =
  id_vm_name :: rust_str
  id_service_name :: rust_str
  id_session_id :: rust_str
  id_sequence :: u64

datatype memory_operation = Add | Remove

record memory_request =
  req_version :: u16
  identity :: request_identity
  operation :: memory_operation
  req_bytes :: u64
  issued_unix_millis :: u64
  expires_unix_millis :: u64

definition validate_request :: "memory_request \<Rightarrow> rust_str + unit" where
  "validate_request r =
     (if req_version r \<noteq> MEMORY_REQUEST_VERSION then Inl (lit ''unsupported memory request version'')
      else if \<not> list_all valid_identity
          [id_vm_name (identity r), id_service_name (identity r), id_session_id (identity r)]
        then Inl (lit ''invalid memory request identity'')
      else if req_bytes r = 0 \<or> issued_unix_millis r = 0
          \<or> expires_unix_millis r \<le> issued_unix_millis r
          \<or> MAX_REQUEST_LIFETIME_MILLIS < saturating_sub (expires_unix_millis r) (issued_unix_millis r)
        then Inl (lit ''memory request needs a positive delta and a bounded validity interval'')
      else Inr ())"

definition validate_at ::
    "memory_request \<Rightarrow> rust_str \<Rightarrow> rust_str \<Rightarrow> u64 \<Rightarrow> u64 \<Rightarrow> rust_str + unit" where
  "validate_at r vm service now future_tolerance_millis =
     and_then (validate_request r) (\<lambda>_.
       if id_vm_name (identity r) \<noteq> vm \<or> id_service_name (identity r) \<noteq> service
         then Inl (lit ''foreign memory request'')
       else if saturating_add now future_tolerance_millis < issued_unix_millis r
           \<or> expires_unix_millis r \<le> now
         then Inl (lit ''memory request is expired or from the future'')
       else Inr ())"

section \<open>Reasons\<close>

text \<open>
  \<open>is_char_boundary\<close> holds at the byte offsets where a character starts, and at the end; \<open>truncate\<close>
  at such an offset keeps the characters before it.
\<close>

definition is_char_boundary :: "rust_str \<Rightarrow> nat \<Rightarrow> bool" where
  "is_char_boundary s n \<longleftrightarrow> list_ex (\<lambda>k. str_len (take k s) = n) [0..<Suc (length s)]"

fun boundary_at_most :: "rust_str \<Rightarrow> nat \<Rightarrow> nat" where
  "boundary_at_most s 0 = 0"
| "boundary_at_most s (Suc n) = (if is_char_boundary s (Suc n) then Suc n else boundary_at_most s n)"

fun truncate_str :: "rust_str \<Rightarrow> nat \<Rightarrow> rust_str" where
  "truncate_str [] n = []"
| "truncate_str (c # s) n = (if len_utf8 c \<le> n then c # truncate_str s (n - len_utf8 c) else [])"

definition bounded_reason :: "rust_str \<Rightarrow> rust_str" where
  "bounded_reason t =
     (let words = filter (\<lambda>w. w \<noteq> []) (split_on (\<lambda>c. is_control c \<or> is_whitespace c) t);
          joined = join (lit '' '') words;
          reason = (if MAX_REASON_BYTES < str_len joined
                    then truncate_str joined (boundary_at_most joined MAX_REASON_BYTES) else joined)
      in if reason = [] then lit ''unspecified'' else reason)"

section \<open>Results and the host status\<close>

datatype memory_outcome = Completed | Partial | PoolEmpty | RequestRejected | Uncertain

record memory_result =
  request :: memory_request
  outcome :: memory_outcome
  actual_bytes :: u64
  result_observed_unix_millis :: u64
  reason :: "rust_str option"

definition rejected_result :: "memory_request \<Rightarrow> u64 \<Rightarrow> rust_str \<Rightarrow> memory_result" where
  "rejected_result r observed why =
     \<lparr>request = r, outcome = RequestRejected, actual_bytes = 0,
      result_observed_unix_millis = observed, reason = Some why\<rparr>"

definition invalid_reason :: "rust_str \<Rightarrow> bool" where
  "invalid_reason s \<longleftrightarrow> s = [] \<or> MAX_REASON_BYTES < str_len s \<or> list_ex is_control s"

fun outcome_consistent :: "memory_outcome \<Rightarrow> memory_result \<Rightarrow> memory_request \<Rightarrow> bool" where
  "outcome_consistent Completed x r = (actual_bytes x = req_bytes r)"
| "outcome_consistent Partial x r = (actual_bytes x < req_bytes r)"
| "outcome_consistent PoolEmpty x r = (operation r = Add \<and> actual_bytes x = 0)"
| "outcome_consistent RequestRejected x r = (actual_bytes x = 0 \<and> reason x \<noteq> None)"
| "outcome_consistent Uncertain x r = (reason x \<noteq> None)"

definition validate_result_for :: "memory_result \<Rightarrow> memory_request \<Rightarrow> rust_str + unit" where
  "validate_result_for x r =
     and_then (validate_request (request x)) (\<lambda>_.
       if request x \<noteq> r then Inl (lit ''memory result does not match the retained request'')
       else if result_observed_unix_millis x = 0 \<or> req_bytes r < actual_bytes x
         then Inl (lit ''memory result has invalid observation/actual bytes'')
       else if (case reason x of None \<Rightarrow> False | Some s \<Rightarrow> invalid_reason s)
         then Inl (lit ''invalid memory result reason'')
       else if \<not> outcome_consistent (outcome x) x r
         then Inl (lit ''memory result outcome contradicts actual bytes'')
       else Inr ())"

definition terminal :: "memory_result \<Rightarrow> bool" where
  "terminal x \<longleftrightarrow> outcome x \<noteq> Uncertain"

record host_memory_status =
  st_version :: u16
  st_vm_name :: rust_str
  st_service_name :: rust_str
  st_device_alias :: rust_str
  st_observed_unix_millis :: u64
  st_device_size_bytes :: u64
  st_block_size_bytes :: u64
  st_requested_bytes :: u64
  st_current_bytes :: u64
  st_result :: "memory_result option"

definition status_device :: "host_memory_status \<Rightarrow> virtio_mem_state" where
  "status_device s =
     \<lparr>size_bytes = st_device_size_bytes s, block_size_bytes = st_block_size_bytes s,
      requested_bytes = st_requested_bytes s, current_bytes = st_current_bytes s\<rparr>"

definition validate_status_for :: "host_memory_status \<Rightarrow> rust_str \<Rightarrow> rust_str \<Rightarrow> rust_str + unit" where
  "validate_status_for s vm service =
     (if st_version s \<noteq> MEMORY_REQUEST_VERSION \<or> st_vm_name s \<noteq> vm \<or> st_service_name s \<noteq> service
        then Inl (lit ''foreign or unsupported host memory status'')
      else if st_observed_unix_millis s = 0
        then Inl (lit ''host memory status has no observation time'')
      else and_then (map_err display_virtio_mem_error (validate_device (status_device s))) (\<lambda>_.
        case st_result s of
          None \<Rightarrow> Inr ()
        | Some x \<Rightarrow>
            and_then (validate_result_for x (request x)) (\<lambda>_.
              if id_vm_name (identity (request x)) \<noteq> vm
                 \<or> id_service_name (identity (request x)) \<noteq> service
                 \<or> st_observed_unix_millis s < result_observed_unix_millis x
              then Inl (lit ''host memory result identity/time contradicts status'')
              else Inr ())))"

definition fresh_at :: "host_memory_status \<Rightarrow> u64 \<Rightarrow> u64 \<Rightarrow> bool" where
  "fresh_at s now max_age_millis \<longleftrightarrow> abs_diff (st_observed_unix_millis s) now \<le> max_age_millis"

section \<open>The admission journal\<close>

record memory_request_journal =
  j_request :: "memory_request option"
  j_result :: "memory_result option"

definition empty_journal :: memory_request_journal where
  "empty_journal = \<lparr>j_request = None, j_result = None\<rparr>"

datatype request_admission = New | Replay

definition validate_journal :: "memory_request_journal \<Rightarrow> rust_str + unit" where
  "validate_journal j =
     (case j_request j of
        None \<Rightarrow>
          (case j_result j of
             None \<Rightarrow> Inr ()
           | Some _ \<Rightarrow> Inl (lit ''request journal has a result without an admission''))
      | Some r \<Rightarrow>
          and_then (validate_request r) (\<lambda>_.
            case j_result j of None \<Rightarrow> Inr () | Some x \<Rightarrow> validate_result_for x r))"

text \<open>The checks of \<open>admit\<close> against the retained request; \<open>Some\<close> result ends the call.\<close>

definition admit_against ::
    "memory_request_journal \<Rightarrow> memory_request \<Rightarrow> memory_request \<Rightarrow> rust_str \<Rightarrow> rust_str \<Rightarrow>
     (rust_str + request_admission) option" where
  "admit_against j previous r vm service =
     (if id_vm_name (identity previous) \<noteq> vm \<or> id_service_name (identity previous) \<noteq> service
        then Some (Inl (lit ''foreign request journal''))
      else if identity previous = identity r
        then (if previous \<noteq> r
              then Some (Inl (lit ''request identity was reused with different content''))
              else Some (Inr Replay))
      else if (case j_result j of None \<Rightarrow> True | Some x \<Rightarrow> \<not> terminal x)
        then Some (Inl (lit ''an earlier request is unresolved, including across producer sessions''))
      else if issued_unix_millis r \<le> issued_unix_millis previous
          \<or> id_session_id (identity r) = id_session_id (identity previous)
            \<and> id_sequence (identity r) \<le> id_sequence (identity previous)
        then Some (Inl (lit ''memory request predates the retained replay watermark''))
      else None)"

definition admit ::
    "memory_request_journal \<Rightarrow> memory_request \<Rightarrow> rust_str \<Rightarrow> rust_str \<Rightarrow> u64 \<Rightarrow> u64 \<Rightarrow>
     rust_str + request_admission \<times> memory_request_journal" where
  "admit j r vm service now future_tolerance_millis =
     and_then (validate_journal j) (\<lambda>_.
     and_then (validate_request r) (\<lambda>_.
       if id_vm_name (identity r) \<noteq> vm \<or> id_service_name (identity r) \<noteq> service
         then Inl (lit ''foreign memory request'')
       else
         case (case j_request j of
                 None \<Rightarrow> None
               | Some previous \<Rightarrow> admit_against j previous r vm service) of
           Some ended \<Rightarrow> and_then ended (\<lambda>a. Inr (a, j))
         | None \<Rightarrow>
             and_then (validate_at r vm service now future_tolerance_millis) (\<lambda>_.
               Inr (New, j\<lparr>j_request := Some r, j_result := None\<rparr>))))"

definition record_result ::
    "memory_request_journal \<Rightarrow> memory_result \<Rightarrow> rust_str + memory_request_journal" where
  "record_result j x0 =
     and_then (validate_journal j) (\<lambda>_.
       let x = x0\<lparr>reason := map_option bounded_reason (reason x0)\<rparr> in
       and_then (ok_or (j_request j) (lit ''memory result has no admitted request'')) (\<lambda>r.
       and_then (validate_result_for x r) (\<lambda>_.
         case j_result j of
           None \<Rightarrow> Inr (j\<lparr>j_result := Some x\<rparr>)
         | Some previous \<Rightarrow>
             if terminal previous \<and> previous \<noteq> x
               then Inl (lit ''terminal memory result cannot be replaced'')
             else if result_observed_unix_millis x < result_observed_unix_millis previous
               then Inl (lit ''memory result observation moved backwards'')
             else Inr (j\<lparr>j_result := Some x\<rparr>))))"

text \<open>
  Histories of the journal: a delivery of a request or a result to record, and the event each leaves.
  A refused operation leaves the journal as it was.
\<close>

datatype journal_op = Deliver memory_request u64 u64 | Conclude memory_result

fun journal_step ::
    "rust_str \<Rightarrow> rust_str \<Rightarrow> memory_request_journal \<Rightarrow> journal_op \<Rightarrow>
     memory_request log_event \<times> memory_request_journal" where
  "journal_step vm service j (Deliver r now tolerance) =
     (case admit j r vm service now tolerance of
        Inl _ \<Rightarrow> (Refused, j)
      | Inr (New, j') \<Rightarrow> (Admitted r, j')
      | Inr (Replay, j') \<Rightarrow> (Replayed r, j'))"
| "journal_step vm service j (Conclude x) =
     (case record_result j x of
        Inl _ \<Rightarrow> (Refused, j)
      | Inr j' \<Rightarrow> (if terminal x then Resolved (request x) else Noted (request x), j'))"

definition settled :: "memory_request_journal \<Rightarrow> bool" where
  "settled j \<longleftrightarrow> (case j_result j of None \<Rightarrow> False | Some x \<Rightarrow> terminal x)"

section \<open>Validated requests and results\<close>

definition wf_request :: "memory_request \<Rightarrow> bool" where
  "wf_request r \<longleftrightarrow>
     req_version r = 1 \<and> valid_identity (id_vm_name (identity r))
     \<and> valid_identity (id_service_name (identity r)) \<and> valid_identity (id_session_id (identity r))
     \<and> 0 < req_bytes r \<and> 0 < issued_unix_millis r \<and> issued_unix_millis r < expires_unix_millis r
     \<and> unat (expires_unix_millis r) \<le> unat (issued_unix_millis r) + 60000"

lemma validate_request_ok [result_simps]: "validate_request r = Inr u \<longleftrightarrow> wf_request r"
  by (auto simp: validate_request_def wf_request_def MEMORY_REQUEST_VERSION_def
      MAX_REQUEST_LIFETIME_MILLIS_def word_nat)

lemma validate_at_ok [result_simps]:
  "validate_at r vm service now tolerance = Inr u \<longleftrightarrow>
     wf_request r \<and> id_vm_name (identity r) = vm \<and> id_service_name (identity r) = service
     \<and> issued_unix_millis r \<le> saturating_add now tolerance \<and> now < expires_unix_millis r"
  by (auto simp: validate_at_def result_simps not_less not_le)

definition reason_ok :: "rust_str option \<Rightarrow> bool" where
  "reason_ok w \<longleftrightarrow> (case w of None \<Rightarrow> True | Some s \<Rightarrow> \<not> invalid_reason s)"

lemma validate_result_ok [result_simps]:
  "validate_result_for x r = Inr u \<longleftrightarrow>
     request x = r \<and> wf_request r \<and> result_observed_unix_millis x \<noteq> 0 \<and> actual_bytes x \<le> req_bytes r
     \<and> reason_ok (reason x) \<and> outcome_consistent (outcome x) x r"
  by (auto simp: validate_result_for_def result_simps reason_ok_def not_less split: option.splits if_splits)

definition wf_journal :: "memory_request_journal \<Rightarrow> bool" where
  "wf_journal j \<longleftrightarrow>
     (case j_request j of
        None \<Rightarrow> j_result j = None
      | Some r \<Rightarrow> wf_request r \<and>
          (case j_result j of None \<Rightarrow> True | Some x \<Rightarrow> validate_result_for x r = Inr ()))"

lemma validate_journal_ok [result_simps]: "validate_journal j = Inr u \<longleftrightarrow> wf_journal j"
  by (auto simp: validate_journal_def wf_journal_def result_simps split: option.splits)

section \<open>Bounded reasons\<close>

lemma char_boundary_iff: "is_char_boundary s n \<longleftrightarrow> (\<exists>k. str_len (take k s) = n)"
proof
  assume "\<exists>k. str_len (take k s) = n"
  then obtain k where "str_len (take k s) = n" ..
  then have "str_len (take (min k (length s)) s) = n" by (cases "k \<le> length s") (simp_all add: min_def)
  moreover have "min k (length s) \<in> set [0..<Suc (length s)]"
    unfolding set_upt by simp
  ultimately show "is_char_boundary s n"
    unfolding is_char_boundary_def list_ex_iff by blast
next
  assume "is_char_boundary s n"
  then show "\<exists>k. str_len (take k s) = n"
    unfolding is_char_boundary_def list_ex_iff by blast
qed

lemma char_boundary_zero [simp]: "is_char_boundary s 0"
  unfolding char_boundary_iff by (rule exI [of _ 0]) simp

lemma boundary_at_most_le: "boundary_at_most s n \<le> n"
  by (induction s n rule: boundary_at_most.induct) auto

lemma boundary_at_most_boundary: "is_char_boundary s (boundary_at_most s n)"
  by (induction s n rule: boundary_at_most.induct) auto

lemma boundary_at_most_greatest: "is_char_boundary s m \<Longrightarrow> m \<le> n \<Longrightarrow> m \<le> boundary_at_most s n"
  by (induction s n rule: boundary_at_most.induct) (auto simp: le_Suc_eq)

lemma truncate_str_prefix: "\<exists>rest. s = truncate_str s n @ rest"
  by (induction s n rule: truncate_str.induct) auto

lemma truncate_str_at_boundary: "truncate_str s (str_len (take k s)) = take k s"
proof (induction s arbitrary: k)
  case (Cons c s)
  then show ?case by (cases k) (auto simp: not_le len_utf8_pos)
qed simp

lemma str_len_truncate: "is_char_boundary s n \<Longrightarrow> str_len (truncate_str s n) = n"
  by (auto simp: char_boundary_iff truncate_str_at_boundary)

text \<open>A text longer than the limit has a character boundary within the last four bytes before it.\<close>

lemma boundary_near_limit: "n < str_len s \<Longrightarrow> \<exists>k. str_len (take k s) \<le> n \<and> n < str_len (take k s) + 4"
proof (induction s arbitrary: n)
  case (Cons c s)
  show ?case
  proof (cases "n < len_utf8 c")
    case True
    then show ?thesis using len_utf8_le4 [of c] by (intro exI [of _ 0]) simp
  next
    case False
    then have "n - len_utf8 c < str_len s" using Cons.prems by simp
    from Cons.IH [OF this] obtain k where "str_len (take k s) \<le> n - len_utf8 c"
      and "n - len_utf8 c < str_len (take k s) + 4" by blast
    then show ?thesis using False by (intro exI [of _ "Suc k"]) (simp add: not_less, linarith)
  qed
qed simp

lemma boundary_at_most_near: "n < str_len s \<Longrightarrow> n < boundary_at_most s n + 4"
proof -
  assume "n < str_len s"
  from boundary_near_limit [OF this] obtain k
    where k: "str_len (take k s) \<le> n" "n < str_len (take k s) + 4" by blast
  have "is_char_boundary s (str_len (take k s))"
    by (auto simp: char_boundary_iff)
  from boundary_at_most_greatest [OF this k(1)] show ?thesis using k(2) by simp
qed

definition reason_words :: "rust_str \<Rightarrow> rust_str list" where
  "reason_words t = filter (\<lambda>w. w \<noteq> []) (split_on (\<lambda>c. is_control c \<or> is_whitespace c) t)"

lemma bounded_reason_cases:
  obtains (Whole) "join (lit '' '') (reason_words t) \<noteq> []"
      "str_len (join (lit '' '') (reason_words t)) \<le> 1024"
      "bounded_reason t = join (lit '' '') (reason_words t)"
  | (Cut) rest where "join (lit '' '') (reason_words t) = bounded_reason t @ rest"
      "1024 < str_len (join (lit '' '') (reason_words t))"
      "1020 < str_len (bounded_reason t)" "str_len (bounded_reason t) \<le> 1024"
  | (Unspecified) "join (lit '' '') (reason_words t) = []" "bounded_reason t = lit ''unspecified''"
proof -
  let ?j = "join (lit '' '') (reason_words t)"
  let ?b = "boundary_at_most ?j 1024"
  consider "?j = []" | "?j \<noteq> []" "str_len ?j \<le> 1024" | "1024 < str_len ?j" by linarith
  then show thesis
  proof cases
    case 1
    then show ?thesis
      by (intro Unspecified) (simp_all add: bounded_reason_def MAX_REASON_BYTES_def Let_def flip: reason_words_def)
  next
    case 2
    then show ?thesis
      by (intro Whole) (simp_all add: bounded_reason_def MAX_REASON_BYTES_def Let_def flip: reason_words_def)
  next
    case 3
    have len: "str_len (truncate_str ?j ?b) = ?b"
      by (simp add: str_len_truncate boundary_at_most_boundary)
    have near: "1024 < ?b + 4" by (rule boundary_at_most_near [OF 3])
    with len have "truncate_str ?j ?b \<noteq> []" by auto
    then have eq: "bounded_reason t = truncate_str ?j ?b"
      using 3 by (simp add: bounded_reason_def MAX_REASON_BYTES_def Let_def flip: reason_words_def)
    obtain rest where rest: "?j = truncate_str ?j ?b @ rest" using truncate_str_prefix by blast
    show ?thesis
    proof (rule Cut [of rest])
      show "?j = bounded_reason t @ rest" unfolding eq by (rule rest)
      show "1020 < str_len (bounded_reason t)" unfolding eq len using near by linarith
      show "str_len (bounded_reason t) \<le> 1024" unfolding eq len by (rule boundary_at_most_le)
    qed (rule 3)
  qed
qed

lemma reason_words_chars: "w \<in> set (reason_words t) \<Longrightarrow> c \<in> set w \<Longrightarrow> \<not> is_control c \<and> \<not> is_whitespace c"
  unfolding reason_words_def using split_on_pieces by fastforce

lemma joined_words_no_control: "c \<in> set (join (lit '' '') (reason_words t)) \<Longrightarrow> \<not> is_control c"
  using set_join [of "lit '' ''" "reason_words t"] reason_words_chars
  by (fastforce simp: lit_def is_control_def)

lemma bounded_reason_valid [simp]: "\<not> invalid_reason (bounded_reason t)"
proof (cases t rule: bounded_reason_cases)
  case Whole
  then show ?thesis
    by (simp add: invalid_reason_def MAX_REASON_BYTES_def list_ex_iff joined_words_no_control)
next
  case (Cut rest)
  then have "bounded_reason t \<noteq> []" by auto
  moreover have "\<not> is_control c" if "c \<in> set (bounded_reason t)" for c
    using joined_words_no_control [of c t] Cut(1) that by simp
  ultimately show ?thesis
    using Cut(4) by (auto simp: invalid_reason_def MAX_REASON_BYTES_def list_ex_iff)
next
  case Unspecified
  then show ?thesis by (simp add: invalid_reason_def MAX_REASON_BYTES_def) code_simp
qed

lemma reason_ok_bounded [simp]: "reason_ok (map_option bounded_reason w)"
  by (cases w) (simp_all add: reason_ok_def)

section \<open>Journal operations\<close>

lemma admit_New_iff:
  "admit j r vm service now tolerance = Inr (New, j') \<longleftrightarrow>
     wf_journal j \<and> validate_at r vm service now tolerance = Inr () \<and> j' = \<lparr>j_request = Some r, j_result = None\<rparr>
     \<and> (\<forall>p. j_request j = Some p \<longrightarrow>
          id_vm_name (identity p) = vm \<and> id_service_name (identity p) = service
          \<and> identity p \<noteq> identity r \<and> settled j \<and> issued_unix_millis p < issued_unix_millis r
          \<and> (id_session_id (identity r) = id_session_id (identity p) \<longrightarrow>
               id_sequence (identity p) < id_sequence (identity r)))"
  by (cases j; cases "j_request j")
    (auto simp: admit_def admit_against_def settled_def result_simps not_le split: option.splits if_splits)

lemma admit_Replay_iff:
  "admit j r vm service now tolerance = Inr (Replay, j') \<longleftrightarrow>
     wf_journal j \<and> j_request j = Some r \<and> j' = j
     \<and> id_vm_name (identity r) = vm \<and> id_service_name (identity r) = service"
  by (cases "j_request j")
    (auto simp: admit_def admit_against_def wf_journal_def result_simps split: option.splits if_splits)

lemma record_result_iff:
  "record_result j x = Inr j' \<longleftrightarrow>
     (\<exists>r. j_request j = Some r \<and> wf_journal j \<and>
       validate_result_for (x\<lparr>reason := map_option bounded_reason (reason x)\<rparr>) r = Inr () \<and>
       (\<forall>p. j_result j = Some p \<longrightarrow>
          (terminal p \<longrightarrow> p = x\<lparr>reason := map_option bounded_reason (reason x)\<rparr>)
          \<and> result_observed_unix_millis p \<le> result_observed_unix_millis x) \<and>
       j' = j\<lparr>j_result := Some (x\<lparr>reason := map_option bounded_reason (reason x)\<rparr>)\<rparr>)"
  by (cases "j_result j")
    (auto simp: record_result_def Let_def result_simps not_less split: if_splits)

lemma terminal_reason [simp]: "terminal (x\<lparr>reason := w\<rparr>) = terminal x"
  by (simp add: terminal_def)

lemma record_terminal_same:
  "record_result j x = Inr j' \<Longrightarrow> j_result j = Some p \<Longrightarrow> terminal p \<Longrightarrow> j' = j \<and> terminal x"
  by (cases j) (auto simp: record_result_iff)

lemma outcome_consistent_reason:
  "outcome_consistent k (x\<lparr>reason := map_option f (reason x)\<rparr>) r = outcome_consistent k x r"
  by (cases k) auto

lemma wf_journal_request: "wf_journal j \<Longrightarrow> j_result j = Some x \<Longrightarrow> j_request j = Some (request x)"
  by (auto simp: wf_journal_def result_simps split: option.splits)

lemma wf_journal_admit: "admit j r vm service now tolerance = Inr (a, j') \<Longrightarrow> wf_journal j'"
  by (cases a) (auto simp: admit_New_iff admit_Replay_iff wf_journal_def validate_at_ok)

lemma wf_journal_record: "record_result j x = Inr j' \<Longrightarrow> wf_journal j'"
  by (auto simp: record_result_iff wf_journal_def split: option.splits)

lemma journal_step_events:
  "journal_step vm service j p = (Admitted r, j') \<longleftrightarrow>
     (\<exists>now tolerance. p = Deliver r now tolerance \<and> admit j r vm service now tolerance = Inr (New, j'))"
  "journal_step vm service j p = (Replayed r, j') \<longleftrightarrow>
     (\<exists>now tolerance. p = Deliver r now tolerance \<and> admit j r vm service now tolerance = Inr (Replay, j'))"
  "journal_step vm service j p = (Resolved r, j') \<longleftrightarrow>
     (\<exists>x. p = Conclude x \<and> terminal x \<and> request x = r \<and> record_result j x = Inr j')"
  "journal_step vm service j p = (Noted r, j') \<longleftrightarrow>
     (\<exists>x. p = Conclude x \<and> \<not> terminal x \<and> request x = r \<and> record_result j x = Inr j')"
  "journal_step vm service j p = (Refused, j') \<Longrightarrow> j' = j"
  by (cases p; auto split: sum.splits prod.splits request_admission.splits if_splits)+

text \<open>The journal meets the contract of an admission log, with the issuance time as the stamp.\<close>

definition open_journal_request :: "memory_request_journal \<Rightarrow> memory_request option" where
  "open_journal_request j = (if settled j then None else j_request j)"

definition journal_watermark :: "memory_request_journal \<Rightarrow> nat" where
  "journal_watermark j = (case j_request j of None \<Rightarrow> 0 | Some r \<Rightarrow> unat (issued_unix_millis r))"

lemma journal_admit_law:
  assumes "admit j r vm service now tolerance = Inr (New, j')"
  shows "open_journal_request j = None \<and> open_journal_request j' = Some r
    \<and> journal_watermark j < unat (issued_unix_millis r) \<and> journal_watermark j' = unat (issued_unix_millis r)"
  using assms
  by (cases "j_request j")
    (auto simp: admit_New_iff validate_at_ok wf_request_def open_journal_request_def journal_watermark_def
      settled_def word_less_nat_alt)

lemma journal_record_law:
  assumes "record_result j x = Inr j'"
  shows "open_journal_request j \<in> {None, Some (request x)}" "journal_watermark j' = journal_watermark j"
    "terminal x \<Longrightarrow> open_journal_request j' = None"
    "\<not> terminal x \<Longrightarrow> open_journal_request j' = open_journal_request j"
proof -
  show "open_journal_request j \<in> {None, Some (request x)}" "journal_watermark j' = journal_watermark j"
    "terminal x \<Longrightarrow> open_journal_request j' = None"
    using assms
    by (auto simp: record_result_iff result_simps open_journal_request_def settled_def journal_watermark_def)
  assume x: "\<not> terminal x"
  then have "\<not> settled j" "\<not> settled j'"
    using assms record_terminal_same [OF assms]
    by (auto simp: record_result_iff settled_def split: option.splits)
  then show "open_journal_request j' = open_journal_request j"
    using assms by (auto simp: record_result_iff open_journal_request_def)
qed

interpretation journal: admission_log "journal_step vm service" open_journal_request journal_watermark
    "\<lambda>r. unat (issued_unix_millis r)" for vm service
proof (unfold_locales, goal_cases)
  case (1 j p r j')
  then show ?case using journal_admit_law by (fastforce simp: journal_step_events)
next
  case (2 j p r j')
  then show ?case using journal_record_law by (fastforce simp: journal_step_events)
next
  case (3 j p e j')
  then show ?case
    using journal_record_law(2,4)
    by (cases e) (auto simp: journal_step_events admit_Replay_iff dest!: journal_step_events(5))
qed

section \<open>Properties\<close>

text \<open>
  C8. Over every history of deliveries and results, starting from any journal, the admitted requests
  have strictly increasing issuance times (so no request is admitted twice), and between the
  admission of one request and the next a terminal result of the first was recorded.
\<close>

theorem journal_admits_in_order:
  assumes "run_log (journal_step vm service) ops j = (events, j')"
  shows "sorted_wrt (\<lambda>q r. issued_unix_millis q < issued_unix_millis r) (admissions events)
    \<and> distinct (admissions events)
    \<and> (\<forall>xs q ys r zs. events = xs @ Admitted q # ys @ Admitted r # zs \<longrightarrow> Resolved q \<in> set ys)"
proof (intro conjI allI impI)
  have sorted: "sorted_wrt (\<lambda>q r. unat (issued_unix_millis q) < unat (issued_unix_millis r)) (admissions events)"
    by (rule journal.admissions_increasing [OF assms])
  then show "sorted_wrt (\<lambda>q r. issued_unix_millis q < issued_unix_millis r) (admissions events)"
    by (simp add: word_less_nat_alt)
  show "distinct (admissions events)"
    by (rule increasing_distinct [OF sorted])
next
  fix xs q ys r zs
  assume "events = xs @ Admitted q # ys @ Admitted r # zs"
  then show "Resolved q \<in> set ys" by (rule journal.resolved_between [OF assms])
qed

definition sample_request :: "u64 \<Rightarrow> u64 \<Rightarrow> memory_request" where
  "sample_request n issued =
     \<lparr>req_version = 1,
      identity = \<lparr>id_vm_name = lit ''win11'', id_service_name = lit ''VirtioMem'',
                  id_session_id = lit ''s1'', id_sequence = n\<rparr>,
      operation = Add, req_bytes = 2097152,
      issued_unix_millis = issued, expires_unix_millis = issued + 30000\<rparr>"

definition sample_result :: "memory_request \<Rightarrow> memory_result" where
  "sample_result r =
     \<lparr>request = r, outcome = Completed, actual_bytes = 2097152,
      result_observed_unix_millis = 2000, reason = None\<rparr>"

text \<open>Two requests with a result between them: both are admitted, the repeated delivery is a replay.\<close>

theorem journal_admits_in_order_witness:
  "fst (run_log (journal_step (lit ''win11'') (lit ''VirtioMem''))
      [Deliver (sample_request 1 1000) 1500 0, Deliver (sample_request 2 1600) 1700 0,
       Deliver (sample_request 1 1000) 1800 0,
       Conclude (sample_result (sample_request 1 1000)), Deliver (sample_request 2 1600) 2100 0]
      empty_journal)
    = [Admitted (sample_request 1 1000), Refused, Replayed (sample_request 1 1000),
       Resolved (sample_request 1 1000), Admitted (sample_request 2 1600)]
    \<and> distinct [sample_request 1 1000, sample_request 2 1600]"
proof -
  let ?ops = "[Deliver (sample_request 1 1000) 1500 0, Deliver (sample_request 2 1600) 1700 0,
       Deliver (sample_request 1 1000) 1800 0,
       Conclude (sample_result (sample_request 1 1000)), Deliver (sample_request 2 1600) 2100 0]"
  obtain es j' where run: "run_log (journal_step (lit ''win11'') (lit ''VirtioMem'')) ?ops empty_journal = (es, j')"
    by fastforce
  have es: "fst (run_log (journal_step (lit ''win11'') (lit ''VirtioMem'')) ?ops empty_journal)
    = [Admitted (sample_request 1 1000), Refused, Replayed (sample_request 1 1000),
       Resolved (sample_request 1 1000), Admitted (sample_request 2 1600)]"
    by code_simp
  from journal_admits_in_order [OF run] have "distinct (admissions es)" by simp
  with es run show ?thesis by simp
qed

text \<open>
  Every journal operation that succeeds leaves a valid journal, a replayed delivery leaves it as
  it was, and once a terminal result is recorded no further result changes the journal.
\<close>

theorem journal_stays_valid:
  "(admit j r vm service now tolerance = Inr (a, j') \<longrightarrow>
      validate_journal j' = Inr () \<and> (a = Replay \<longrightarrow> j' = j))
   \<and> (record_result j x = Inr j'' \<longrightarrow>
      validate_journal j'' = Inr () \<and> (settled j \<longrightarrow> j'' = j))"
proof (intro conjI impI)
  assume rec: "record_result j x = Inr j''"
  then show "validate_journal j'' = Inr ()" by (simp add: result_simps wf_journal_record)
  assume "settled j"
  then show "j'' = j"
    using record_terminal_same [OF rec] by (auto simp: settled_def split: option.splits)
qed (auto simp: result_simps admit_Replay_iff wf_journal_admit)

theorem journal_stays_valid_witness:
  "\<exists>j'. admit empty_journal (sample_request 1 1000) (lit ''win11'') (lit ''VirtioMem'') 1500 0 = Inr (New, j')
     \<and> validate_journal j' = Inr ()
     \<and> (\<exists>j''. record_result j' (sample_result (sample_request 1 1000)) = Inr j'' \<and> validate_journal j'' = Inr ())"
proof -
  let ?r = "sample_request 1 1000"
  let ?j1 = "\<lparr>j_request = Some ?r, j_result = None\<rparr>"
  let ?j2 = "\<lparr>j_request = Some ?r, j_result = Some (sample_result ?r)\<rparr>"
  have a: "admit empty_journal ?r (lit ''win11'') (lit ''VirtioMem'') 1500 0 = Inr (New, ?j1)"
    by code_simp
  have b: "record_result ?j1 (sample_result ?r) = Inr ?j2" by code_simp
  show ?thesis
    using a b journal_stays_valid [of empty_journal ?r "lit ''win11''" "lit ''VirtioMem''" 1500 0 New ?j1]
      journal_stays_valid [of ?j1 ?r "lit ''win11''" "lit ''VirtioMem''" 1500 0 New ?j1 "sample_result ?r" ?j2]
    by blast
qed

text \<open>
  C24. A new admission happens exactly when the journal is valid, the request is well formed, in force
  now and addressed to this VM and service, and the retained request, if any, has the same owner, is
  settled, and precedes the new one in issuance time and, within a session, in sequence number.
\<close>

theorem admission_exact:
  "(\<exists>j'. admit j r vm service now tolerance = Inr (New, j')) \<longleftrightarrow>
     validate_journal j = Inr () \<and> wf_request r
     \<and> id_vm_name (identity r) = vm \<and> id_service_name (identity r) = service
     \<and> unat (issued_unix_millis r) \<le> unat now + unat tolerance \<and> now < expires_unix_millis r
     \<and> (case j_request j of
          None \<Rightarrow> True
        | Some p \<Rightarrow>
            id_vm_name (identity p) = vm \<and> id_service_name (identity p) = service \<and> settled j
            \<and> issued_unix_millis p < issued_unix_millis r
            \<and> (id_session_id (identity p) \<noteq> id_session_id (identity r)
                \<or> id_sequence (identity p) < id_sequence (identity r)))"
proof -
  have sat: "issued_unix_millis r \<le> saturating_add now tolerance \<longleftrightarrow>
      unat (issued_unix_millis r) \<le> unat now + unat tolerance"
    using unat_less_bound [of "issued_unix_millis r"] by (simp add: word_nat)
  show ?thesis
  proof (cases "j_request j")
    case None
    then show ?thesis by (simp add: admit_New_iff result_simps sat)
  next
    case (Some p)
    have ne: "identity p \<noteq> identity r"
      if "id_session_id (identity p) \<noteq> id_session_id (identity r) \<or> id_sequence (identity p) < id_sequence (identity r)"
      using that by (metis less_irrefl)
    show ?thesis
      unfolding admit_New_iff validate_at_ok validate_journal_ok sat Some option.case option.inject
      using ne by (simp only: ex_simps simp_thms) metis
  qed
qed

theorem admission_exact_witness:
  "\<exists>j'. admit \<lparr>j_request = Some (sample_request 1 1000), j_result = Some (sample_result (sample_request 1 1000))\<rparr>
     (sample_request 2 1600) (lit ''win11'') (lit ''VirtioMem'') 2100 0 = Inr (New, j')"
proof -
  let ?j = "\<lparr>j_request = Some (sample_request 1 1000), j_result = Some (sample_result (sample_request 1 1000))\<rparr>"
  let ?r = "sample_request 2 1600"
  have "validate_request ?r = Inr ()" by code_simp
  then have "wf_request ?r" by (simp add: result_simps)
  moreover have "validate_journal ?j = Inr ()" and "settled ?j" by code_simp+
  ultimately show ?thesis
    unfolding admission_exact by (simp add: sample_request_def)
qed

text \<open>
  The text of a reason never makes a result unrecordable: a result for the admitted request whose
  numbers are consistent with its outcome is recorded whatever its reason says, when no terminal or
  later result is already there; the recorded reason is non-empty, free of control characters and at
  most 1024 bytes long.
\<close>

theorem any_reason_is_recordable:
  assumes "validate_journal j = Inr ()" and "j_request j = Some (request x)"
    and "result_observed_unix_millis x \<noteq> 0" and "actual_bytes x \<le> req_bytes (request x)"
    and "outcome_consistent (outcome x) x (request x)"
    and "\<forall>p. j_result j = Some p \<longrightarrow> \<not> terminal p \<and> result_observed_unix_millis p \<le> result_observed_unix_millis x"
  shows "record_result j x = Inr (j\<lparr>j_result := Some (x\<lparr>reason := map_option bounded_reason (reason x)\<rparr>)\<rparr>)
    \<and> (\<forall>t. bounded_reason t \<noteq> [] \<and> str_len (bounded_reason t) \<le> 1024
          \<and> \<not> list_ex is_control (bounded_reason t))"
proof
  have "wf_journal j" using assms(1) by (simp add: result_simps)
  moreover from this have "wf_request (request x)" using assms(2) by (simp add: wf_journal_def)
  ultimately show "record_result j x = Inr (j\<lparr>j_result := Some (x\<lparr>reason := map_option bounded_reason (reason x)\<rparr>)\<rparr>)"
    using assms(2-) by (auto simp: record_result_iff result_simps outcome_consistent_reason)
  have "\<not> invalid_reason (bounded_reason t)" for t by simp
  then show "\<forall>t. bounded_reason t \<noteq> [] \<and> str_len (bounded_reason t) \<le> 1024
      \<and> \<not> list_ex is_control (bounded_reason t)"
    by (simp add: invalid_reason_def MAX_REASON_BYTES_def not_less)
qed

theorem any_reason_is_recordable_witness:
  "record_result \<lparr>j_request = Some (sample_request 1 1000), j_result = None\<rparr>
      (rejected_result (sample_request 1 1000) 2000 [10, 0x1F600, 9, 13])
    = Inr \<lparr>j_request = Some (sample_request 1 1000),
        j_result = Some (rejected_result (sample_request 1 1000) 2000 [0x1F600])\<rparr>"
proof -
  let ?j = "\<lparr>j_request = Some (sample_request 1 1000), j_result = None\<rparr>"
  let ?x = "rejected_result (sample_request 1 1000) 2000 [10, 0x1F600, 9, 13]"
  have "validate_journal ?j = Inr ()" "result_observed_unix_millis ?x \<noteq> 0"
      "actual_bytes ?x \<le> req_bytes (request ?x)" "outcome_consistent (outcome ?x) ?x (request ?x)"
    by code_simp+
  moreover have "bounded_reason [10, 0x1F600, 9, 13] = [0x1F600]" by code_simp
  ultimately show ?thesis
    using any_reason_is_recordable [of ?j ?x] by (simp add: rejected_result_def)
qed

end
