(* ===== verification/Telemetry.thy ===== *)
theory Telemetry
  imports Virtio_Mem
begin

text \<open>
  The memory counters a Windows guest reports and their consistency rules: the snapshot, the native
  notification and the errors of \<open>demand.rs\<close> in the core crate. The envelope that carries them is in
  the theory \<open>Demand\<close>, since it embeds requests and policy diagnostics.
\<close>

record memory_telemetry_snapshot =
  physical_total_bytes :: u64
  physical_available_bytes :: u64
  memory_load_percent :: u32
  commit_total_bytes :: u64
  commit_limit_bytes :: u64
  commit_peak_bytes :: u64
  system_cache_bytes :: u64
  kernel_paged_bytes :: u64
  kernel_nonpaged_bytes :: u64

datatype memory_resource_notification_state = Low | Neutral | High

datatype demand_error =
    InvalidMemoryRequest rust_str
  | ZeroCounter rust_str
  | InconsistentCounters rust_str
  | InvalidMemoryLoad u32
  | DemandArithmeticOverflow
  | UnsupportedPlatform
  | PerformanceInfo u32
  | UnsupportedTelemetryVersion u16
  | InvalidTelemetryIdentity rust_str
  | WrongTelemetryVm rust_str rust_str
  | WrongTelemetryService rust_str rust_str
  | StaleTelemetry u64 u64
  | FutureTelemetry u64 u64
  | ReplayedTelemetrySequence u64
  | NonIncreasingTelemetryMonotonicClock u64
  | TelemetryWallClockMovedBackwards

fun display_demand_error :: "demand_error \<Rightarrow> rust_str" where
  "display_demand_error (InvalidMemoryRequest e) = lit ''embedded memory request is invalid: '' @ e"
| "display_demand_error (ZeroCounter c) = lit ''memory counter must be greater than zero: '' @ c"
| "display_demand_error (InconsistentCounters c) = lit ''inconsistent memory counters: '' @ c"
| "display_demand_error (InvalidMemoryLoad v) =
     lit ''memory load percentage is outside 0..=100: '' @ show_word v"
| "display_demand_error DemandArithmeticOverflow = lit ''memory counter arithmetic overflow''"
| "display_demand_error UnsupportedPlatform =
     lit ''native Windows memory telemetry is unavailable on this platform''"
| "display_demand_error (PerformanceInfo c) = lit ''GetPerformanceInfo failed: '' @ show_word c"
| "display_demand_error (UnsupportedTelemetryVersion v) =
     lit ''unsupported raw telemetry version: '' @ show_word v"
| "display_demand_error (InvalidTelemetryIdentity f) =
     lit ''raw telemetry identity field is invalid: '' @ f"
| "display_demand_error (WrongTelemetryVm expected actual) =
     lit ''raw telemetry belongs to VM '' @ actual @ lit '', expected '' @ expected"
| "display_demand_error (WrongTelemetryService expected actual) =
     lit ''raw telemetry belongs to service '' @ actual @ lit '', expected '' @ expected"
| "display_demand_error (StaleTelemetry observed now) =
     lit ''raw telemetry observation '' @ show_u64 observed @ lit '' is stale at '' @ show_u64 now"
| "display_demand_error (FutureTelemetry observed now) =
     lit ''raw telemetry observation '' @ show_u64 observed @ lit '' is in the future at ''
     @ show_u64 now"
| "display_demand_error (ReplayedTelemetrySequence s) =
     lit ''raw telemetry sequence is replayed or non-increasing: '' @ show_u64 s"
| "display_demand_error (NonIncreasingTelemetryMonotonicClock m) =
     lit ''raw telemetry monotonic clock is non-increasing: '' @ show_u64 m"
| "display_demand_error TelemetryWallClockMovedBackwards =
     lit ''raw telemetry wall clock moved backwards across records''"

definition validate_snapshot :: "memory_telemetry_snapshot \<Rightarrow> demand_error + unit" where
  "validate_snapshot m =
     (if physical_total_bytes m = 0 then Inl (ZeroCounter (lit ''physical total''))
      else if commit_limit_bytes m = 0 then Inl (ZeroCounter (lit ''commit limit''))
      else if physical_total_bytes m < physical_available_bytes m
        then Inl (InconsistentCounters (lit ''physical available exceeds physical total''))
      else if commit_limit_bytes m < commit_total_bytes m
        then Inl (InconsistentCounters (lit ''commit total exceeds commit limit''))
      else if commit_peak_bytes m < commit_total_bytes m
        then Inl (InconsistentCounters (lit ''commit peak is below commit total''))
      else if 100 < memory_load_percent m then Inl (InvalidMemoryLoad (memory_load_percent m))
      else Inr ())"

definition wf_snapshot :: "memory_telemetry_snapshot \<Rightarrow> bool" where
  "wf_snapshot m \<longleftrightarrow>
     0 < physical_total_bytes m \<and> 0 < commit_limit_bytes m
     \<and> physical_available_bytes m \<le> physical_total_bytes m
     \<and> commit_total_bytes m \<le> commit_limit_bytes m \<and> commit_total_bytes m \<le> commit_peak_bytes m
     \<and> memory_load_percent m \<le> 100"

lemma validate_snapshot_ok [result_simps]: "validate_snapshot m = Inr u \<longleftrightarrow> wf_snapshot m"
  by (auto simp: validate_snapshot_def wf_snapshot_def not_less word_neq_0_conv)

end
