(* ===== verification/Target_Controller.thy ===== *)
theory Target_Controller
  imports Telemetry
begin

text \<open>
  The estimator of \<open>target_controller.rs\<close>: from one telemetry sample and the live device geometry it
  computes an instantaneous target, and from a window of samples taken under native High it derives
  the target that may be planned. \<open>&mut self\<close> methods return the updated state beside their result,
  on the error paths too.
\<close>

section \<open>Data\<close>

definition MAX_TARGET_HISTORY_ENTRIES :: nat where
  "MAX_TARGET_HISTORY_ENTRIES = 4096"

record target_policy_config =
  configured_minimum_bytes :: u64
  physical_reserve_bytes :: u64
  commit_reserve_bytes :: u64
  safe_floor_physical_reserve_bytes :: u64
  safe_floor_commit_reserve_bytes :: u64
  history_window_millis :: u64
  maximum_gap_millis :: u64
  downward_hysteresis_bytes :: u64

record target_geometry =
  geo_device_size_bytes :: u64
  geo_block_size_bytes :: u64
  geo_current_bytes :: u64

record target_sample =
  smp_session_id :: rust_str
  smp_observed_unix_millis :: u64
  smp_monotonic_millis :: u64
  smp_sequence :: u64
  smp_memory :: memory_telemetry_snapshot
  smp_native_pressure :: "memory_resource_notification_state option"

record instantaneous_target =
  inst_desired_now_bytes :: u64
  inst_floor_now_bytes :: u64
  inst_effective_maximum_bytes :: u64
  inst_capacity_limited :: bool

record target_estimate =
  desired_bytes :: u64
  safe_floor_bytes :: u64
  desired_now_bytes :: u64
  floor_now_bytes :: u64
  effective_maximum_bytes :: u64
  history_ready :: bool
  capacity_limited :: bool

record candidate_history_entry =
  ent_monotonic_millis :: u64
  ent_desired_now_bytes :: u64
  ent_floor_now_bytes :: u64

record target_estimator_state =
  est_desired_bytes :: u64
  est_safe_floor_bytes :: u64
  est_session_id :: rust_str
  est_last_monotonic_millis :: u64
  est_last_sequence :: u64
  est_last_visible_base_bytes :: "u64 option"
  est_history :: "candidate_history_entry list"

datatype target_estimator_error =
    InvalidPolicy rust_str
  | InvalidGeometry rust_str
  | TargetArithmeticOverflow
  | InvalidOrdering rust_str
  | InvalidTelemetry rust_str

fun display_target_estimator_error :: "target_estimator_error \<Rightarrow> rust_str" where
  "display_target_estimator_error (InvalidPolicy w) = lit ''target policy is invalid: '' @ w"
| "display_target_estimator_error (InvalidGeometry w) = lit ''target geometry is invalid: '' @ w"
| "display_target_estimator_error TargetArithmeticOverflow = lit ''target arithmetic overflow''"
| "display_target_estimator_error (InvalidOrdering w) =
     lit ''target telemetry ordering is invalid: '' @ w"
| "display_target_estimator_error (InvalidTelemetry w) = lit ''memory telemetry is invalid: '' @ w"

definition default_estimator_state :: target_estimator_state where
  "default_estimator_state =
     \<lparr>est_desired_bytes = 0, est_safe_floor_bytes = 0, est_session_id = [],
      est_last_monotonic_millis = 0, est_last_sequence = 0,
      est_last_visible_base_bytes = None, est_history = []\<rparr>"

definition invalidate_history :: "target_estimator_state \<Rightarrow> target_estimator_state" where
  "invalidate_history st = st\<lparr>est_history := [], est_safe_floor_bytes := est_desired_bytes st\<rparr>"

record target_estimator =
  config :: target_policy_config
  min_ram :: u64
  max_ram :: u64
  est_state :: target_estimator_state

section \<open>Policy and limits\<close>

definition validate_target_policy :: "target_policy_config \<Rightarrow> target_estimator_error + unit" where
  "validate_target_policy c =
     (if physical_reserve_bytes c = 0 \<or> commit_reserve_bytes c = 0
         \<or> safe_floor_physical_reserve_bytes c = 0 \<or> safe_floor_commit_reserve_bytes c = 0
         \<or> history_window_millis c = 0 \<or> maximum_gap_millis c = 0 \<or> downward_hysteresis_bytes c = 0
        then Inl (InvalidPolicy (lit ''byte values and durations must be positive''))
      else if physical_reserve_bytes c < safe_floor_physical_reserve_bytes c
         \<or> commit_reserve_bytes c < safe_floor_commit_reserve_bytes c
        then Inl (InvalidPolicy (lit ''safe-floor reserves exceed normal reserves''))
      else Inr ())"

definition new_estimator :: "target_policy_config \<Rightarrow> target_estimator_error + target_estimator" where
  "new_estimator c =
     and_then (validate_target_policy c) (\<lambda>_.
       Inr \<lparr>config = c, min_ram = 0, max_ram = - 1, est_state = default_estimator_state\<rparr>)"

definition set_ram_limits ::
    "target_estimator \<Rightarrow> u64 \<Rightarrow> u64 \<Rightarrow> (rust_str + unit) \<times> target_estimator" where
  "set_ram_limits e minimum maximum =
     (if maximum < minimum then (Inl (lit ''min_ram exceeds max_ram''), e)
      else (Inr (), e\<lparr>est_state := invalidate_history (est_state e), min_ram := minimum, max_ram := maximum\<rparr>))"

definition invalidate_estimator_history :: "target_estimator \<Rightarrow> target_estimator" where
  "invalidate_estimator_history e = e\<lparr>est_state := invalidate_history (est_state e)\<rparr>"

section \<open>The instantaneous target\<close>

definition align_up :: "u64 \<Rightarrow> u64 \<Rightarrow> target_estimator_error + u64" where
  "align_up v alignment =
     (let remainder = v mod alignment in
      if remainder = 0 then Inr v
      else ok_or (checked_add v (alignment - remainder)) TargetArithmeticOverflow)"

definition candidate ::
    "memory_telemetry_snapshot \<Rightarrow> u64 \<Rightarrow> u64 \<Rightarrow> u64 \<Rightarrow> u64 \<Rightarrow> target_estimator_error + u64" where
  "candidate m current base physical_reserve commit_reserve =
     and_then (ok_or (checked_sub (physical_total_bytes m) (physical_available_bytes m))
         TargetArithmeticOverflow) (\<lambda>physical_used.
     and_then (ok_or (checked_add physical_used physical_reserve) TargetArithmeticOverflow)
       (\<lambda>physical_need.
     and_then (ok_or (checked_sub (commit_limit_bytes m) (commit_total_bytes m))
         TargetArithmeticOverflow) (\<lambda>commit_headroom.
     and_then (ok_or (checked_add current commit_reserve) TargetArithmeticOverflow)
       (\<lambda>commit_need.
       Inr (max (saturating_sub physical_need base) (saturating_sub commit_need commit_headroom))))))"

definition calculate_effective_maximum ::
    "target_policy_config \<Rightarrow> target_geometry \<Rightarrow> target_estimator_error + u64" where
  "calculate_effective_maximum c g =
     and_then (validate_target_policy c) (\<lambda>_.
       if geo_device_size_bytes g = 0
         then Inl (InvalidGeometry (lit ''device size must be greater than zero''))
       else if geo_block_size_bytes g = 0 \<or> \<not> is_power_of_two (geo_block_size_bytes g)
         then Inl (InvalidGeometry (lit ''block size must be a non-zero power of two''))
       else if \<not> is_multiple_of (geo_current_bytes g) (geo_block_size_bytes g)
         then Inl (InvalidGeometry (lit ''current allocation is not block aligned''))
       else
         let maximum = maximum_target_bytes (geo_device_size_bytes g) (geo_block_size_bytes g) in
         if maximum < configured_minimum_bytes c
            \<or> \<not> is_multiple_of (configured_minimum_bytes c) (geo_block_size_bytes g)
            \<or> maximum < geo_current_bytes g
           then Inl (InvalidGeometry
             (lit ''minimum or current allocation exceeds the aligned effective maximum''))
         else if list_ex (\<lambda>v. \<not> is_multiple_of v (geo_block_size_bytes g))
             [physical_reserve_bytes c, commit_reserve_bytes c, safe_floor_physical_reserve_bytes c,
              safe_floor_commit_reserve_bytes c, downward_hysteresis_bytes c]
           then Inl (InvalidGeometry (lit ''reserves and hysteresis must be block aligned''))
         else Inr maximum)"

definition calculate_instantaneous ::
    "target_policy_config \<Rightarrow> memory_telemetry_snapshot \<Rightarrow> target_geometry \<Rightarrow>
     target_estimator_error + instantaneous_target" where
  "calculate_instantaneous c m g =
     and_then (calculate_effective_maximum c g) (\<lambda>maximum.
     and_then (map_err (\<lambda>e. InvalidTelemetry (display_demand_error e)) (validate_snapshot m)) (\<lambda>_.
     and_then (ok_or (checked_sub (physical_total_bytes m) (geo_current_bytes g))
         (InvalidGeometry (lit ''physical total is below current allocation''))) (\<lambda>base.
     and_then (candidate m (geo_current_bytes g) base (physical_reserve_bytes c) (commit_reserve_bytes c))
       (\<lambda>wanted.
     and_then (candidate m (geo_current_bytes g) base
         (safe_floor_physical_reserve_bytes c) (safe_floor_commit_reserve_bytes c)) (\<lambda>floor.
       let desired_raw = max wanted (configured_minimum_bytes c);
           floor_raw = max floor (configured_minimum_bytes c)
       in and_then (align_up (min desired_raw maximum) (geo_block_size_bytes g)) (\<lambda>desired_up.
          and_then (align_up (min floor_raw maximum) (geo_block_size_bytes g)) (\<lambda>floor_up.
            let desired_now = min desired_up maximum in
            Inr \<lparr>inst_desired_now_bytes = desired_now,
                 inst_floor_now_bytes = min floor_up desired_now,
                 inst_effective_maximum_bytes = maximum,
                 inst_capacity_limited = (maximum < desired_raw)\<rparr>)))))))"

section \<open>History\<close>

definition prepare_sample ::
    "target_policy_config \<Rightarrow> target_estimator_state \<Rightarrow> target_sample \<Rightarrow>
     (target_estimator_error + unit) \<times> target_estimator_state" where
  "prepare_sample c st s =
     (if trim (smp_session_id s) = [] then (Inl (InvalidOrdering (lit ''empty producer session'')), st)
      else if est_session_id st = [] then (Inr (), st)
      else if smp_session_id s \<noteq> est_session_id st then (Inr (), st\<lparr>est_history := []\<rparr>)
      else if smp_sequence s \<le> est_last_sequence st
          \<or> smp_monotonic_millis s \<le> est_last_monotonic_millis st
        then (Inl (InvalidOrdering (lit ''sample did not advance within the producer session'')), st)
      else if maximum_gap_millis c < saturating_sub (smp_monotonic_millis s) (est_last_monotonic_millis st)
        then (Inr (), st\<lparr>est_history := []\<rparr>)
      else (Inr (), st))"

fun prune_before :: "candidate_history_entry list \<Rightarrow> u64 \<Rightarrow> candidate_history_entry list" where
  "prune_before (e # f # h) boundary =
     (if ent_monotonic_millis f \<le> boundary then prune_before (f # h) boundary else e # f # h)"
| "prune_before h boundary = h"

definition prune_history ::
    "candidate_history_entry list \<Rightarrow> u64 \<Rightarrow> u64 \<Rightarrow> candidate_history_entry list" where
  "prune_history h now window = prune_before h (saturating_sub now window)"

definition history_is_ready :: "candidate_history_entry list \<Rightarrow> u64 \<Rightarrow> u64 \<Rightarrow> bool" where
  "history_is_ready h now window =
     (case h of [] \<Rightarrow> False | first # _ \<Rightarrow> \<not> saturating_sub now (ent_monotonic_millis first) < window)"

definition bucket_millis :: "target_policy_config \<Rightarrow> u64" where
  "bucket_millis c = max (div_ceil (history_window_millis c) (of_nat (MAX_TARGET_HISTORY_ENTRIES - 2))) 1"

definition merge_entry ::
    "candidate_history_entry \<Rightarrow> instantaneous_target \<Rightarrow> candidate_history_entry" where
  "merge_entry l i =
     l\<lparr>ent_desired_now_bytes := max (ent_desired_now_bytes l) (inst_desired_now_bytes i),
       ent_floor_now_bytes := max (ent_floor_now_bytes l) (inst_floor_now_bytes i)\<rparr>"

definition new_entry :: "target_sample \<Rightarrow> instantaneous_target \<Rightarrow> candidate_history_entry" where
  "new_entry s i =
     \<lparr>ent_monotonic_millis = smp_monotonic_millis s,
      ent_desired_now_bytes = inst_desired_now_bytes i, ent_floor_now_bytes = inst_floor_now_bytes i\<rparr>"

text \<open>Lines 235 to 255: the sample joins the last bucket, or opens a new one.\<close>

definition push_candidate ::
    "target_policy_config \<Rightarrow> candidate_history_entry list \<Rightarrow> target_sample \<Rightarrow> instantaneous_target \<Rightarrow>
     candidate_history_entry list" where
  "push_candidate c h s i =
     (if h \<noteq> [] \<and> saturating_sub (smp_monotonic_millis s) (ent_monotonic_millis (last h)) < bucket_millis c
      then butlast h @ [merge_entry (last h) i]
      else h @ [new_entry s i])"

section \<open>The estimate\<close>

text \<open>Lines 191 to 203: the device share of the administrator's total RAM limits.\<close>

datatype limits_error = LimitsOverflow target_estimator_error | LimitsUnmet

definition device_limits ::
    "target_estimator \<Rightarrow> target_sample \<Rightarrow> target_geometry \<Rightarrow> instantaneous_target \<Rightarrow>
     limits_error + u64 \<times> u64" where
  "device_limits e s g i =
     (let base = physical_total_bytes (smp_memory s) - geo_current_bytes g;
          block = geo_block_size_bytes g
      in and_then (map_err LimitsOverflow (align_up (saturating_sub (min_ram e) base) block)) (\<lambda>minimum.
           let maximum = min (saturating_sub (max_ram e) base div block * block)
                             (inst_effective_maximum_bytes i)
           in if maximum < minimum \<or> max_ram e < base then Inl LimitsUnmet
              else Inr (minimum, maximum)))"

definition limit_instantaneous ::
    "instantaneous_target \<Rightarrow> u64 \<Rightarrow> u64 \<Rightarrow> instantaneous_target" where
  "limit_instantaneous i minimum maximum =
     i\<lparr>inst_effective_maximum_bytes := maximum,
       inst_desired_now_bytes := clamp (inst_desired_now_bytes i) minimum maximum,
       inst_floor_now_bytes := clamp (inst_floor_now_bytes i) minimum maximum\<rparr>"

text \<open>Lines 208 to 226: a changed base discards the history, a first sample starts from the device.\<close>

definition raise_desired ::
    "target_estimator_state \<Rightarrow> u64 \<Rightarrow> u64 \<Rightarrow> instantaneous_target \<Rightarrow> target_estimator_state" where
  "raise_desired st0 base current i =
     (let st1 = (if est_last_visible_base_bytes st0 \<noteq> None \<and> est_last_visible_base_bytes st0 \<noteq> Some base
                 then invalidate_history st0 else st0);
          st2 = st1\<lparr>est_last_visible_base_bytes := Some base\<rparr>;
          st3 = (if est_session_id st2 = []
                 then st2\<lparr>est_desired_bytes := max current (inst_desired_now_bytes i),
                         est_safe_floor_bytes := current\<rparr>
                 else st2)
      in st3\<lparr>est_desired_bytes :=
               min (max (est_desired_bytes st3) (inst_desired_now_bytes i)) (inst_effective_maximum_bytes i)\<rparr>)"

text \<open>Lines 230 to 264: the history after this sample.\<close>

definition extend_history ::
    "target_policy_config \<Rightarrow> target_estimator_state \<Rightarrow> target_sample \<Rightarrow> instantaneous_target \<Rightarrow>
     target_estimator_state" where
  "extend_history c st s i =
     (let st1 = (if smp_native_pressure s \<noteq> Some High then invalidate_history st
                 else st\<lparr>est_history := push_candidate c (est_history st) s i\<rparr>);
          st2 = (if MAX_TARGET_HISTORY_ENTRIES < length (est_history st1)
                 then st1\<lparr>est_history := tl (est_history st1)\<rparr> else st1)
      in st2\<lparr>est_history :=
               prune_history (est_history st2) (smp_monotonic_millis s) (history_window_millis c)\<rparr>)"

definition max_entry :: "(candidate_history_entry \<Rightarrow> u64) \<Rightarrow> candidate_history_entry list \<Rightarrow> u64 option" where
  "max_entry f h = (case map f h of [] \<Rightarrow> None | v # vs \<Rightarrow> Some (fold max vs v))"

text \<open>Lines 265 to 299: a full window lowers the target and its floor, anything less holds the device.\<close>

definition lower_desired ::
    "target_policy_config \<Rightarrow> target_estimator_state \<Rightarrow> target_sample \<Rightarrow> u64 \<Rightarrow>
     (target_estimator_error + bool) \<times> target_estimator_state" where
  "lower_desired c st s current =
     (if history_is_ready (est_history st) (smp_monotonic_millis s) (history_window_millis c)
      then
        case max_entry ent_desired_now_bytes (est_history st) of
          None \<Rightarrow> (Inl (InvalidOrdering (lit ''empty qualified history'')), st)
        | Some window_desired \<Rightarrow>
            (case checked_add window_desired (downward_hysteresis_bytes c) of
               None \<Rightarrow> (Inl TargetArithmeticOverflow, st)
             | Some threshold \<Rightarrow>
                 let st1 = (if threshold \<le> est_desired_bytes st
                            then st\<lparr>est_desired_bytes := window_desired\<rparr> else st)
                 in case max_entry ent_floor_now_bytes (est_history st1) of
                      None \<Rightarrow> (Inl (InvalidOrdering (lit ''empty qualified history'')), st1)
                    | Some window_floor \<Rightarrow>
                        (Inr True, st1\<lparr>est_safe_floor_bytes := min window_floor (est_desired_bytes st1)\<rparr>))
      else (Inr False, st\<lparr>est_safe_floor_bytes := min current (est_desired_bytes st)\<rparr>))"

definition commit_sample :: "target_estimator_state \<Rightarrow> target_sample \<Rightarrow> target_estimator_state" where
  "commit_sample st s =
     st\<lparr>est_session_id := smp_session_id s, est_last_monotonic_millis := smp_monotonic_millis s,
       est_last_sequence := smp_sequence s\<rparr>"

definition estimate ::
    "target_estimator \<Rightarrow> target_sample \<Rightarrow> target_geometry \<Rightarrow>
     (target_estimator_error + target_estimate) \<times> target_estimator" where
  "estimate e s g =
     (let c = config e; st0 = est_state e; with_state = (\<lambda>st. e\<lparr>est_state := st\<rparr>) in
      case calculate_instantaneous c (smp_memory s) g of
        Inl err \<Rightarrow> (Inl err, with_state (invalidate_history st0))
      | Inr i0 \<Rightarrow>
          case prepare_sample c st0 s of
            (Inl err, st1) \<Rightarrow> (Inl err, with_state (invalidate_history st1))
          | (Inr _, st1) \<Rightarrow>
              case device_limits e s g i0 of
                Inl (LimitsOverflow err) \<Rightarrow> (Inl err, with_state st1)
              | Inl LimitsUnmet \<Rightarrow>
                  (Inl (InvalidGeometry
                     (lit ''configured RAM limits cannot be met by this VM's live memory geometry'')),
                   with_state (invalidate_history st1))
              | Inr (minimum, maximum) \<Rightarrow>
                  let i = limit_instantaneous i0 minimum maximum;
                      base = physical_total_bytes (smp_memory s) - geo_current_bytes g;
                      st2 = raise_desired st1 base (geo_current_bytes g) i;
                      st3 = extend_history c st2 s i
                  in case lower_desired c st3 s (geo_current_bytes g) of
                       (Inl err, st4) \<Rightarrow> (Inl err, with_state st4)
                     | (Inr ready, st4) \<Rightarrow>
                         (Inr \<lparr>desired_bytes = est_desired_bytes st4,
                               safe_floor_bytes = est_safe_floor_bytes st4,
                               desired_now_bytes = inst_desired_now_bytes i,
                               floor_now_bytes = inst_floor_now_bytes i,
                               effective_maximum_bytes = inst_effective_maximum_bytes i,
                               history_ready = ready,
                               capacity_limited = inst_capacity_limited i\<rparr>,
                          with_state (commit_sample st4 s)))"

text \<open>Code equations that avoid counting to the bound in unary.\<close>

lemma bucket_millis_code [code]: "bucket_millis c = max (div_ceil (history_window_millis c) 4094) 1"
  by (simp add: bucket_millis_def MAX_TARGET_HISTORY_ENTRIES_def)

lemma history_bound_code [code_unfold]: "MAX_TARGET_HISTORY_ENTRIES < length h \<longleftrightarrow> 4096 < int_length h"
  by (simp add: MAX_TARGET_HISTORY_ENTRIES_def int_length_eq)

section \<open>The instantaneous target is aligned and bounded\<close>

definition wf_target_policy :: "target_policy_config \<Rightarrow> bool" where
  "wf_target_policy c \<longleftrightarrow>
     0 < safe_floor_physical_reserve_bytes c \<and> safe_floor_physical_reserve_bytes c \<le> physical_reserve_bytes c
     \<and> 0 < safe_floor_commit_reserve_bytes c \<and> safe_floor_commit_reserve_bytes c \<le> commit_reserve_bytes c
     \<and> 0 < history_window_millis c \<and> 0 < maximum_gap_millis c \<and> 0 < downward_hysteresis_bytes c"

lemma validate_target_policy_ok [result_simps]: "validate_target_policy c = Inr u \<longleftrightarrow> wf_target_policy c"
  by (auto simp: validate_target_policy_def wf_target_policy_def word_nat)

lemma align_up_ok:
  assumes "align_up v a = Inr w" and "0 < unat a"
  shows "is_multiple_of w a" and "v \<le> w" and "unat w < unat v + unat a"
proof -
  have sub: "unat (a - v mod a) = unat a - unat v mod unat a"
    using assms(2) by (simp add: unat_sub unat_mod word_le_nat_alt)
  have w: "unat w = (if unat v mod unat a = 0 then unat v else unat v + (unat a - unat v mod unat a))"
    using assms(1) checked_add_Some [of v "a - v mod a" w]
    by (auto simp: align_up_def Let_def result_simps sub word_unat_eq_iff unat_mod split: if_splits)
  have m: "unat v mod unat a < unat a" "unat v mod unat a \<le> unat v" using assms(2) by simp_all
  then have "unat v + (unat a - unat v mod unat a) = (unat v - unat v mod unat a) + unat a"
    by linarith
  moreover have "unat a dvd (unat v - unat v mod unat a) + unat a"
    by (intro dvd_add dvd_minus_mod dvd_refl)
  ultimately have "unat a dvd unat v + (unat a - unat v mod unat a)" by (simp only:)
  then show "is_multiple_of w a"
    unfolding is_multiple_of_dvd w by (auto intro: mod_0_imp_dvd)
  show "v \<le> w" unfolding word_le_nat_alt w by simp
  show "unat w < unat v + unat a" unfolding w using assms(2) m by auto
qed

lemma multiple_min: "is_multiple_of a b \<Longrightarrow> is_multiple_of c b \<Longrightarrow> is_multiple_of (min a c) b"
  and multiple_max: "is_multiple_of a b \<Longrightarrow> is_multiple_of c b \<Longrightarrow> is_multiple_of (max a c) b"
  and multiple_clamp: "is_multiple_of x b \<Longrightarrow> is_multiple_of a b \<Longrightarrow> is_multiple_of c b \<Longrightarrow> is_multiple_of (clamp x a c) b"
  by (auto simp: min_def max_def clamp_def)

lemma effective_maximum_ok:
  assumes "calculate_effective_maximum c g = Inr maximum"
  shows "wf_target_policy c" and "0 < unat (geo_block_size_bytes g)"
    and "maximum = maximum_target_bytes (geo_device_size_bytes g) (geo_block_size_bytes g)"
    and "is_multiple_of maximum (geo_block_size_bytes g)" and "maximum \<le> geo_device_size_bytes g"
    and "geo_current_bytes g \<le> maximum" and "is_multiple_of (geo_current_bytes g) (geo_block_size_bytes g)"
    and "configured_minimum_bytes c \<le> maximum"
    and "is_multiple_of (downward_hysteresis_bytes c) (geo_block_size_bytes g)"
proof -
  have *: "wf_target_policy c" "is_power_of_two (geo_block_size_bytes g)"
    "maximum = maximum_target_bytes (geo_device_size_bytes g) (geo_block_size_bytes g)"
    "geo_current_bytes g \<le> maximum" "is_multiple_of (geo_current_bytes g) (geo_block_size_bytes g)"
    "configured_minimum_bytes c \<le> maximum"
    "is_multiple_of (downward_hysteresis_bytes c) (geo_block_size_bytes g)"
    using assms by (auto simp: calculate_effective_maximum_def result_simps Let_def split: if_splits)
  then have b: "0 < unat (geo_block_size_bytes g)" by (simp add: is_power_of_two_pos)
  show "is_multiple_of maximum (geo_block_size_bytes g)" "maximum \<le> geo_device_size_bytes g"
    using device_floor.floor_multiple [OF b] device_floor.floor_le [OF b] *(3) by simp_all
qed (use assms in \<open>auto simp: calculate_effective_maximum_def result_simps Let_def is_power_of_two_pos split: if_splits\<close>)

lemma instantaneous_ok:
  assumes "calculate_instantaneous c m g = Inr i"
  shows "calculate_effective_maximum c g = Inr (inst_effective_maximum_bytes i)"
    and "wf_snapshot m" and "geo_current_bytes g \<le> physical_total_bytes m"
    and "is_multiple_of (inst_desired_now_bytes i) (geo_block_size_bytes g)"
    and "is_multiple_of (inst_floor_now_bytes i) (geo_block_size_bytes g)"
    and "inst_floor_now_bytes i \<le> inst_desired_now_bytes i"
    and "inst_desired_now_bytes i \<le> inst_effective_maximum_bytes i"
proof -
  obtain base d f where eff: "calculate_effective_maximum c g = Inr (inst_effective_maximum_bytes i)"
    and wf: "wf_snapshot m" and base: "checked_sub (physical_total_bytes m) (geo_current_bytes g) = Some base"
    and d: "\<exists>v. align_up v (geo_block_size_bytes g) = Inr d"
    and f: "\<exists>v. align_up v (geo_block_size_bytes g) = Inr f"
    and i: "inst_desired_now_bytes i = min d (inst_effective_maximum_bytes i)"
      "inst_floor_now_bytes i = min f (inst_desired_now_bytes i)"
    using assms by (fastforce simp: calculate_instantaneous_def result_simps Let_def)
  note b = effective_maximum_ok(2) [OF eff]
  show "calculate_effective_maximum c g = Inr (inst_effective_maximum_bytes i)" "wf_snapshot m"
    by (rule eff, rule wf)
  show "geo_current_bytes g \<le> physical_total_bytes m"
    using base by (simp add: checked_sub_def split: if_splits)
  show dm: "is_multiple_of (inst_desired_now_bytes i) (geo_block_size_bytes g)"
    using d align_up_ok(1) [OF _ b] effective_maximum_ok(4) [OF eff] unfolding i(1)
    by (auto intro: multiple_min)
  show "is_multiple_of (inst_floor_now_bytes i) (geo_block_size_bytes g)"
    unfolding i(2) using f align_up_ok(1) [OF _ b] dm by (auto intro: multiple_min)
  show "inst_floor_now_bytes i \<le> inst_desired_now_bytes i" unfolding i(2) by simp
  show "inst_desired_now_bytes i \<le> inst_effective_maximum_bytes i" unfolding i(1) by simp
qed

section \<open>Successful estimates, step by step\<close>

lemma estimate_ok:
  assumes "estimate e s g = (Inr t, e')"
  obtains i0 st1 minimum maximum i st3 st4 where
    "calculate_instantaneous (config e) (smp_memory s) g = Inr i0"
    "prepare_sample (config e) (est_state e) s = (Inr (), st1)"
    "device_limits e s g i0 = Inr (minimum, maximum)"
    "i = limit_instantaneous i0 minimum maximum"
    "st3 = extend_history (config e)
       (raise_desired st1 (physical_total_bytes (smp_memory s) - geo_current_bytes g) (geo_current_bytes g) i) s i"
    "lower_desired (config e) st3 s (geo_current_bytes g) = (Inr (history_ready t), st4)"
    "desired_bytes t = est_desired_bytes st4" "safe_floor_bytes t = est_safe_floor_bytes st4"
    "desired_now_bytes t = inst_desired_now_bytes i" "floor_now_bytes t = inst_floor_now_bytes i"
    "effective_maximum_bytes t = maximum"
    "e' = e\<lparr>est_state := commit_sample st4 s\<rparr>"
  using assms
  by (auto simp: estimate_def Let_def limit_instantaneous_def
      split: sum.splits prod.splits limits_error.splits)

lemma device_limits_ok:
  assumes "device_limits e s g i = Inr (minimum, maximum)"
    and b: "0 < unat (geo_block_size_bytes g)"
    and i: "is_multiple_of (inst_effective_maximum_bytes i) (geo_block_size_bytes g)"
  defines "base \<equiv> physical_total_bytes (smp_memory s) - geo_current_bytes g"
  shows "is_multiple_of minimum (geo_block_size_bytes g)" and "is_multiple_of maximum (geo_block_size_bytes g)"
    and "minimum \<le> maximum" and "maximum \<le> inst_effective_maximum_bytes i"
    and "unat (min_ram e) \<le> unat base + unat minimum"
    and "unat base + unat maximum \<le> unat (max_ram e)"
proof -
  let ?b = "geo_block_size_bytes g"
  let ?cap = "saturating_sub (max_ram e) base div ?b * ?b"
  have lo: "align_up (saturating_sub (min_ram e) base) ?b = Inr minimum"
    and hi: "maximum = min ?cap (inst_effective_maximum_bytes i)"
    and le: "minimum \<le> maximum" "base \<le> max_ram e"
    using assms(1) unfolding base_def
    by (auto simp: device_limits_def Let_def result_simps not_less split: if_splits)
  have cap: "unat ?cap = unat (saturating_sub (max_ram e) base) div unat ?b * unat ?b"
    by (rule unat_div_mult)
  show "is_multiple_of minimum ?b" by (rule align_up_ok(1) [OF lo b])
  have "is_multiple_of ?cap ?b" unfolding is_multiple_of_dvd cap by simp
  then show "is_multiple_of maximum ?b" unfolding hi using i by (rule multiple_min)
  show "minimum \<le> maximum" by (rule le)
  show "maximum \<le> inst_effective_maximum_bytes i" unfolding hi by simp
  show "unat (min_ram e) \<le> unat base + unat minimum"
    using align_up_ok(2) [OF lo b] by (simp add: word_nat)
  have "unat maximum \<le> unat ?cap" unfolding hi by (simp add: word_nat)
  also have "\<dots> \<le> unat (max_ram e) - unat base" unfolding cap by (simp add: word_nat)
  finally show "unat base + unat maximum \<le> unat (max_ram e)" using le(2) by (simp add: word_nat)
qed

lemma max_entry_None [simp]: "max_entry f h = None \<longleftrightarrow> h = []"
  by (cases h) (simp_all add: max_entry_def)

lemma max_entry_Some: "max_entry f h = Some v \<longleftrightarrow> h \<noteq> [] \<and> v = Max (f ` set h)"
proof (cases h)
  case (Cons e h')
  have "fold max (map f h') (f e) = Max (f ` set h)"
    using Max.set_eq_fold [of "f e" "map f h'"] Cons by simp
  then show ?thesis by (auto simp: max_entry_def Cons)
qed (simp add: max_entry_def)

lemma max_entry_ge: "max_entry f h = Some v \<Longrightarrow> x \<in> set h \<Longrightarrow> f x \<le> v"
  by (auto simp: max_entry_Some)

lemma max_entry_in: "max_entry f h = Some v \<Longrightarrow> \<exists>x\<in>set h. v = f x"
  using Max_in [of "f ` set h"] by (fastforce simp: max_entry_Some)

lemma history_is_ready_nonempty: "history_is_ready h now window \<Longrightarrow> h \<noteq> []"
  by (auto simp: history_is_ready_def split: list.splits)

text \<open>What a successful \<open>lower_desired\<close> does: the history stays, the target falls only by evidence.\<close>

lemma lower_desired_ok:
  assumes "lower_desired c st s current = (Inr ready, st')"
  shows "ready \<longleftrightarrow> history_is_ready (est_history st) (smp_monotonic_millis s) (history_window_millis c)"
    and "est_history st' = est_history st"
    and "est_safe_floor_bytes st' \<le> est_desired_bytes st'"
    and "\<not> ready \<Longrightarrow> est_desired_bytes st' = est_desired_bytes st
           \<and> est_safe_floor_bytes st' = min current (est_desired_bytes st)"
    and "ready \<Longrightarrow> \<exists>d f. max_entry ent_desired_now_bytes (est_history st) = Some d
           \<and> max_entry ent_floor_now_bytes (est_history st) = Some f
           \<and> est_safe_floor_bytes st' = min f (est_desired_bytes st')
           \<and> (est_desired_bytes st' = est_desired_bytes st
              \<or> est_desired_bytes st' = d
                \<and> unat d + unat (downward_hysteresis_bytes c) \<le> unat (est_desired_bytes st))"
    and "est_last_monotonic_millis st' = est_last_monotonic_millis st"
    and "est_session_id st' = est_session_id st"
    and "est_last_visible_base_bytes st' = est_last_visible_base_bytes st"
  using assms
  by (auto simp: lower_desired_def Let_def word_le_nat_alt unat_min_eq
      split: if_splits option.splits dest!: checked_add_Some [THEN iffD1])

lemma prune_before_last: "h \<noteq> [] \<Longrightarrow> prune_before h b \<noteq> [] \<and> last (prune_before h b) = last h"
  by (induction h b rule: prune_before.induct) auto

lemma prune_before_set: "set (prune_before h b) \<subseteq> set h"
  by (induction h b rule: prune_before.induct) auto

lemma push_candidate_last:
  "push_candidate c h s i \<noteq> [] \<and> inst_desired_now_bytes i \<le> ent_desired_now_bytes (last (push_candidate c h s i))"
  by (simp add: push_candidate_def merge_entry_def new_entry_def)

lemma extend_history_fields:
  "est_desired_bytes (extend_history c st s i) = est_desired_bytes st"
  "est_session_id (extend_history c st s i) = est_session_id st"
  "est_last_monotonic_millis (extend_history c st s i) = est_last_monotonic_millis st"
  "est_last_visible_base_bytes (extend_history c st s i) = est_last_visible_base_bytes st"
  by (simp_all add: extend_history_def Let_def invalidate_history_def)

text \<open>After a sample, a non-empty history ends with an entry that accounts for it.\<close>

lemma extend_history_last:
  assumes "est_history (extend_history c st s i) \<noteq> []"
  shows "smp_native_pressure s = Some High"
    and "\<exists>e\<in>set (est_history (extend_history c st s i)). inst_desired_now_bytes i \<le> ent_desired_now_bytes e"
proof -
  show high: "smp_native_pressure s = Some High"
    using assms by (auto simp: extend_history_def Let_def invalidate_history_def prune_history_def split: if_splits)
  let ?h = "push_candidate c (est_history st) s i"
  let ?k = "if MAX_TARGET_HISTORY_ENTRIES < length ?h then tl ?h else ?h"
  have k: "?k \<noteq> []" "last ?k = last ?h"
    using push_candidate_last [of c "est_history st" s i]
    by (cases ?h; auto simp: MAX_TARGET_HISTORY_ENTRIES_def)+
  have eq: "est_history (extend_history c st s i) = prune_history ?k (smp_monotonic_millis s) (history_window_millis c)"
    using high by (simp add: extend_history_def Let_def)
  then have "last (est_history (extend_history c st s i)) = last ?h"
    using prune_before_last [OF k(1)] k(2) by (simp add: prune_history_def)
  then show "\<exists>e\<in>set (est_history (extend_history c st s i)). inst_desired_now_bytes i \<le> ent_desired_now_bytes e"
    using push_candidate_last [of c "est_history st" s i] last_in_set [OF assms] by (metis order.trans)
qed

lemma raise_desired_bounds:
  assumes "inst_desired_now_bytes i \<le> inst_effective_maximum_bytes i"
  shows "inst_desired_now_bytes i \<le> est_desired_bytes (raise_desired st base current i)"
    and "est_desired_bytes (raise_desired st base current i) \<le> inst_effective_maximum_bytes i"
    and "est_session_id st \<noteq> [] \<Longrightarrow>
      min (est_desired_bytes st) (inst_effective_maximum_bytes i) \<le> est_desired_bytes (raise_desired st base current i)"
  using assms by (auto simp: raise_desired_def Let_def invalidate_history_def min_le_iff_disj)

lemma limit_instantaneous_ok:
  assumes "minimum \<le> maximum" and "inst_floor_now_bytes i \<le> inst_desired_now_bytes i"
  defines "j \<equiv> limit_instantaneous i minimum maximum"
  shows "inst_floor_now_bytes j \<le> inst_desired_now_bytes j" and "inst_desired_now_bytes j \<le> maximum"
    and "minimum \<le> inst_desired_now_bytes j" and "inst_effective_maximum_bytes j = maximum"
  using assms by (auto simp: limit_instantaneous_def clamp_def)

lemma estimate_desired_at_least_now:
  assumes now: "inst_desired_now_bytes i \<le> inst_effective_maximum_bytes i"
    and low: "lower_desired c (extend_history c (raise_desired st base current i) s i) s current = (Inr ready, st')"
  shows "inst_desired_now_bytes i \<le> est_desired_bytes st'"
    and "est_desired_bytes st' \<le> inst_effective_maximum_bytes i"
proof -
  let ?st = "raise_desired st base current i"
  note up = raise_desired_bounds [OF now, of st base current]
  have cases: "est_desired_bytes st' = est_desired_bytes ?st
      \<or> (\<exists>d. max_entry ent_desired_now_bytes (est_history (extend_history c ?st s i)) = Some d
          \<and> est_desired_bytes st' = d \<and> unat d \<le> unat (est_desired_bytes ?st))"
    using lower_desired_ok(4,5) [OF low] by (cases ready) (auto simp: extend_history_fields)
  then show "est_desired_bytes st' \<le> inst_effective_maximum_bytes i"
    using up(2) by (auto simp: word_le_nat_alt)
  from cases show "inst_desired_now_bytes i \<le> est_desired_bytes st'"
  proof
    assume "\<exists>d. max_entry ent_desired_now_bytes (est_history (extend_history c ?st s i)) = Some d
          \<and> est_desired_bytes st' = d \<and> unat d \<le> unat (est_desired_bytes ?st)"
    then obtain d where d: "max_entry ent_desired_now_bytes (est_history (extend_history c ?st s i)) = Some d"
      "est_desired_bytes st' = d" by blast
    then have "est_history (extend_history c ?st s i) \<noteq> []" by (auto simp: max_entry_Some)
    from extend_history_last(2) [OF this] max_entry_ge [OF d(1)] show ?thesis
      unfolding d(2) by (meson order.trans)
  qed (use up(1) in simp)
qed

lemma estimate_bounded:
  assumes est: "estimate e s g = (Inr t, e')"
  defines "base \<equiv> unat (physical_total_bytes (smp_memory s)) - unat (geo_current_bytes g)"
  shows "safe_floor_bytes t \<le> desired_bytes t \<and> floor_now_bytes t \<le> desired_now_bytes t
    \<and> desired_now_bytes t \<le> desired_bytes t \<and> desired_bytes t \<le> effective_maximum_bytes t
    \<and> effective_maximum_bytes t \<le> geo_device_size_bytes g
    \<and> unat (min_ram e) \<le> base + unat (desired_bytes t)
    \<and> base + unat (desired_bytes t) \<le> unat (max_ram e)
    \<and> is_multiple_of (desired_now_bytes t) (geo_block_size_bytes g)
    \<and> is_multiple_of (floor_now_bytes t) (geo_block_size_bytes g)
    \<and> is_multiple_of (effective_maximum_bytes t) (geo_block_size_bytes g)"
proof -
  obtain i0 st1 minimum maximum i st3 st4 where
    inst: "calculate_instantaneous (config e) (smp_memory s) g = Inr i0"
    and lim: "device_limits e s g i0 = Inr (minimum, maximum)"
    and i: "i = limit_instantaneous i0 minimum maximum"
    and st3: "st3 = extend_history (config e)
       (raise_desired st1 (physical_total_bytes (smp_memory s) - geo_current_bytes g) (geo_current_bytes g) i) s i"
    and low: "lower_desired (config e) st3 s (geo_current_bytes g) = (Inr (history_ready t), st4)"
    and f: "desired_bytes t = est_desired_bytes st4" "safe_floor_bytes t = est_safe_floor_bytes st4"
      "desired_now_bytes t = inst_desired_now_bytes i" "floor_now_bytes t = inst_floor_now_bytes i"
      "effective_maximum_bytes t = maximum"
    by (rule estimate_ok [OF est]) (rule that)
  note io = instantaneous_ok [OF inst] and eff = effective_maximum_ok [OF instantaneous_ok(1) [OF inst]]
  note lm = device_limits_ok [OF lim eff(2,4)]
  note lo = limit_instantaneous_ok [OF lm(3) io(6)]
  have sub: "unat (physical_total_bytes (smp_memory s) - geo_current_bytes g) = base"
    using io(3) by (simp add: base_def unat_sub)
  have i_le: "inst_desired_now_bytes i \<le> inst_effective_maximum_bytes i"
    using lo by (simp add: i)
  note d = estimate_desired_at_least_now [OF i_le low [unfolded st3]]
  have m: "is_multiple_of (inst_desired_now_bytes i) (geo_block_size_bytes g)"
    "is_multiple_of (inst_floor_now_bytes i) (geo_block_size_bytes g)"
    unfolding i limit_instantaneous_def using io(4,5) lm(1,2) by (simp_all add: multiple_clamp)
  have "minimum \<le> est_desired_bytes st4" "est_desired_bytes st4 \<le> maximum"
    using d lo(3,4) by (auto simp: i)
  then have "unat (min_ram e) \<le> base + unat (est_desired_bytes st4)"
    "base + unat (est_desired_bytes st4) \<le> unat (max_ram e)"
    using lm(5,6) unfolding sub by (auto simp: word_le_nat_alt)
  then show ?thesis
    unfolding f using lower_desired_ok(3) [OF low] lo d m lm(2,4) eff(5) by (auto simp: i)
qed

lemma estimate_limit:
  assumes est: "estimate e s g = (Inr t, e')"
  shows "unat (physical_total_bytes (smp_memory s)) - unat (geo_current_bytes g) + unat (effective_maximum_bytes t)
    \<le> unat (max_ram e)"
proof -
  obtain i0 minimum maximum where
    inst: "calculate_instantaneous (config e) (smp_memory s) g = Inr i0"
    and lim: "device_limits e s g i0 = Inr (minimum, maximum)"
    and f: "effective_maximum_bytes t = maximum"
    by (rule estimate_ok [OF est]) (rule that)
  note eff = effective_maximum_ok [OF instantaneous_ok(1) [OF inst]]
  show ?thesis
    unfolding f using device_limits_ok(6) [OF lim eff(2,4)] instantaneous_ok(3) [OF inst] by (simp add: unat_sub)
qed

section \<open>Properties\<close>

text \<open>
  C25. Every estimate is ordered and bounded: the safe floor and the instantaneous need are at most the
  planned target, the target is at most the effective maximum, and that is at most the device size.
  Together with the RAM the guest sees beside the device, the target keeps the administrator's total
  limits, and the instantaneous values and the maximum are whole blocks.
\<close>

theorem estimate_bounds:
  assumes est: "estimate e s g = (Inr t, e')"
  defines "base \<equiv> unat (physical_total_bytes (smp_memory s)) - unat (geo_current_bytes g)"
  shows "safe_floor_bytes t \<le> desired_bytes t \<and> floor_now_bytes t \<le> desired_now_bytes t
    \<and> desired_now_bytes t \<le> desired_bytes t \<and> desired_bytes t \<le> effective_maximum_bytes t
    \<and> effective_maximum_bytes t \<le> geo_device_size_bytes g
    \<and> unat (min_ram e) \<le> base + unat (desired_bytes t)
    \<and> base + unat (desired_bytes t) \<le> unat (max_ram e)
    \<and> is_multiple_of (desired_now_bytes t) (geo_block_size_bytes g)
    \<and> is_multiple_of (floor_now_bytes t) (geo_block_size_bytes g)
    \<and> is_multiple_of (effective_maximum_bytes t) (geo_block_size_bytes g)"
  unfolding base_def by (rule estimate_bounded [OF est])

definition sample_policy :: target_policy_config where
  "sample_policy =
     \<lparr>configured_minimum_bytes = 0, physical_reserve_bytes = 1073741824, commit_reserve_bytes = 1073741824,
      safe_floor_physical_reserve_bytes = 536870912, safe_floor_commit_reserve_bytes = 536870912,
      history_window_millis = 60000, maximum_gap_millis = 30000, downward_hysteresis_bytes = 268435456\<rparr>"

definition sample_memory :: memory_telemetry_snapshot where
  "sample_memory =
     \<lparr>physical_total_bytes = 6442450944, physical_available_bytes = 536870912, memory_load_percent = 90,
      commit_total_bytes = 4294967296, commit_limit_bytes = 8589934592, commit_peak_bytes = 4294967296,
      system_cache_bytes = 0, kernel_paged_bytes = 0, kernel_nonpaged_bytes = 0\<rparr>"

definition sample_telemetry :: "u64 \<Rightarrow> target_sample" where
  "sample_telemetry n =
     \<lparr>smp_session_id = lit ''s1'', smp_observed_unix_millis = 1000000 + n, smp_monotonic_millis = n,
      smp_sequence = n, smp_memory = sample_memory, smp_native_pressure = Some High\<rparr>"

definition sample_geometry :: target_geometry where
  "sample_geometry =
     \<lparr>geo_device_size_bytes = 8589934592, geo_block_size_bytes = 2097152, geo_current_bytes = 2147483648\<rparr>"

definition sample_estimator :: target_estimator where
  "sample_estimator =
     \<lparr>config = sample_policy, min_ram = 4294967296, max_ram = 12884901888,
      est_state = default_estimator_state\<rparr>"

theorem estimate_bounds_witness:
  "\<exists>t e'. estimate sample_estimator (sample_telemetry 5000) sample_geometry = (Inr t, e')
     \<and> desired_bytes t = 2684354560 \<and> desired_bytes t \<le> effective_maximum_bytes t"
proof -
  let ?x = "estimate sample_estimator (sample_telemetry 5000) sample_geometry"
  have ok: "(case fst ?x of Inl _ \<Rightarrow> False | Inr t \<Rightarrow> desired_bytes t = 2684354560)" by code_simp
  then obtain t where t: "fst ?x = Inr t" "desired_bytes t = 2684354560"
    by (auto split: sum.splits)
  then have x: "?x = (Inr t, snd ?x)" by (metis prod.collapse)
  show ?thesis using estimate_bounds [OF x] x t by blast
qed

end
