(* ===== verification/Target_History.thy ===== *)
theory Target_History
  imports Target_Controller
begin

text \<open>
  The estimator over time. Its history is a bounded summary of the samples taken since the reclaim
  window was last restarted; the invariant \<open>tracks\<close> relates the two, and from it the theorems show
  that a target only falls on a full, unbroken window of native High samples, that no sample of that
  window is forgotten by bucketing and pruning, and that the history stays within its bound.
\<close>

section \<open>Histories of operations\<close>

datatype estimator_op = Estimate target_sample target_geometry | Invalidate | SetLimits u64 u64

type_synonym estimator_result = "(target_estimator_error + target_estimate) option"

fun estimator_step :: "target_estimator \<Rightarrow> estimator_op \<Rightarrow> estimator_result \<times> target_estimator" where
  "estimator_step e (Estimate s g) = (let (r, e') = estimate e s g in (Some r, e'))"
| "estimator_step e Invalidate = (None, invalidate_estimator_history e)"
| "estimator_step e (SetLimits a b) = (None, snd (set_ram_limits e a b))"

primrec run_estimator ::
    "target_estimator \<Rightarrow> estimator_op list \<Rightarrow> (estimator_op \<times> estimator_result) list \<times> target_estimator" where
  "run_estimator e [] = ([], e)"
| "run_estimator e (p # ps) =
     (let (r, e') = estimator_step e p; (log, e'') = run_estimator e' ps in ((p, r) # log, e''))"

section \<open>Observations and the entries that account for them\<close>

type_synonym observation = "target_sample \<times> target_geometry \<times> target_estimate"

definition obs_time :: "observation \<Rightarrow> nat" where
  "obs_time ob = unat (smp_monotonic_millis (fst ob))"

definition obs_entry :: "observation \<Rightarrow> estimator_op \<times> estimator_result" where
  "obs_entry ob = (case ob of (s, g, t) \<Rightarrow> (Estimate s g, Some (Inr t)))"

definition stamp :: "candidate_history_entry \<Rightarrow> nat" where
  "stamp x = unat (ent_monotonic_millis x)"

definition accounts :: "candidate_history_entry \<Rightarrow> observation \<Rightarrow> bool" where
  "accounts x ob \<longleftrightarrow>
     desired_now_bytes (snd (snd ob)) \<le> ent_desired_now_bytes x
     \<and> floor_now_bytes (snd (snd ob)) \<le> ent_floor_now_bytes x"

text \<open>Each entry accounts for the observations from its own time up to the next entry's.\<close>

fun covers :: "candidate_history_entry list \<Rightarrow> observation set \<Rightarrow> bool" where
  "covers [] obs = True"
| "covers (x # h) obs =
     ((\<forall>ob\<in>obs. stamp x \<le> obs_time ob \<longrightarrow> (h \<noteq> [] \<longrightarrow> obs_time ob < stamp (hd h)) \<longrightarrow> accounts x ob)
      \<and> covers h obs)"

definition spaced :: "nat \<Rightarrow> candidate_history_entry list \<Rightarrow> bool" where
  "spaced b = successively (\<lambda>x y. stamp x + b \<le> stamp y)"

definition recent :: "nat \<Rightarrow> nat \<Rightarrow> candidate_history_entry list \<Rightarrow> bool" where
  "recent now window h \<longleftrightarrow> (\<forall>y\<in>set (tl h). now - window < stamp y)"

lemma spaced_Cons: "spaced b (x # h) \<longleftrightarrow> (h = [] \<or> stamp x + b \<le> stamp (hd h)) \<and> spaced b h"
  by (cases h) (simp_all add: spaced_def)

lemma spaced_snoc: "spaced b (h @ [x]) \<longleftrightarrow> spaced b h \<and> (h = [] \<or> stamp (last h) + b \<le> stamp x)"
  by (auto simp: spaced_def successively_append_iff)

lemma spaced_span: "spaced b h \<Longrightarrow> h \<noteq> [] \<Longrightarrow> stamp (hd h) + (length h - 1) * b \<le> stamp (last h)"
proof (induction h)
  case (Cons x h)
  show ?case
  proof (cases h)
    case (Cons y h')
    then have "stamp y + length h' * b \<le> stamp (last h)" "stamp x + b \<le> stamp y"
      using Cons.IH Cons.prems by (auto simp: spaced_Cons)
    then show ?thesis using Cons by simp
  qed simp
qed simp

lemma spaced_hd_le: "spaced b (x # h) \<Longrightarrow> z \<in> set h \<Longrightarrow> stamp x \<le> stamp z"
proof (induction h arbitrary: x)
  case (Cons y h)
  then have "stamp x \<le> stamp y" "spaced b (y # h)" by (auto simp: spaced_Cons)
  then show ?case using Cons.IH [of y] Cons.prems(2) by (auto intro: order.trans)
qed simp

lemma spaced_le_last: "spaced b h \<Longrightarrow> x \<in> set h \<Longrightarrow> stamp x \<le> stamp (last h)"
proof (induction h)
  case (Cons y h)
  then show ?case
    using spaced_hd_le [of b y h "last h"] by (auto simp: spaced_Cons)
qed simp

lemma covers_accounts:
  "covers h obs \<Longrightarrow> ob \<in> obs \<Longrightarrow> h \<noteq> [] \<Longrightarrow> stamp (hd h) \<le> obs_time ob \<Longrightarrow> \<exists>x\<in>set h. accounts x ob"
proof (induction h)
  case (Cons x h)
  show ?case
  proof (cases "h \<noteq> [] \<and> stamp (hd h) \<le> obs_time ob")
    case True
    then show ?thesis using Cons by auto
  next
    case False
    then have "h \<noteq> [] \<longrightarrow> obs_time ob < stamp (hd h)" by auto
    then show ?thesis using Cons.prems by auto
  qed
qed simp

lemma covers_new:
  "covers h obs \<Longrightarrow> stamp n = obs_time ob \<Longrightarrow> accounts n ob \<Longrightarrow> \<forall>x\<in>set h. stamp x \<le> obs_time ob \<Longrightarrow>
   \<forall>o'\<in>obs. obs_time o' < obs_time ob \<Longrightarrow> covers (h @ [n]) (insert ob obs)"
proof (induction h)
  case (Cons x h)
  then have "stamp (hd (h @ [n])) \<le> obs_time ob" by (cases h) auto
  then show ?case using Cons by (cases h) auto
qed auto

lemma covers_merged:
  "covers (h @ [l]) obs \<Longrightarrow> stamp l' = stamp l \<Longrightarrow> accounts l' ob \<Longrightarrow> \<forall>o'. accounts l o' \<longrightarrow> accounts l' o' \<Longrightarrow>
   \<forall>x\<in>set (h @ [l]). stamp x \<le> obs_time ob \<Longrightarrow> covers (h @ [l']) (insert ob obs)"
proof (induction h)
  case (Cons x h)
  then have "stamp (hd (h @ [l'])) \<le> obs_time ob" by (cases h) auto
  moreover have "hd (h @ [l']) = hd (h @ [l]) \<or> stamp (hd (h @ [l'])) = stamp (hd (h @ [l]))"
    using Cons.prems(2) by (cases h) auto
  ultimately show ?case using Cons by auto
qed auto

lemma covers_prune: "covers h obs \<Longrightarrow> covers (prune_before h b) obs"
  by (induction h b rule: prune_before.induct) auto

lemma spaced_prune: "spaced k h \<Longrightarrow> spaced k (prune_before h b)"
  by (induction h b rule: prune_before.induct) (auto simp: spaced_Cons)

lemma recent_prune: "spaced k h \<Longrightarrow> recent now window (prune_before h (saturating_sub now' window'))"
  if "unat now' = now" "unat window' = window"
proof (induction h "saturating_sub now' window'" rule: prune_before.induct)
  case (1 x y h)
  show ?case
  proof (cases "ent_monotonic_millis y \<le> saturating_sub now' window'")
    case True
    then show ?thesis using 1 by (simp add: spaced_Cons)
  next
    case False
    then have y: "now - window < stamp y"
      using that by (simp add: stamp_def word_nat not_le)
    have "stamp y \<le> stamp z" if "z \<in> set (y # h)" for z
      using spaced_hd_le [of k y h z] 1(2) that by (auto simp: spaced_Cons)
    then show ?thesis using False y by (auto simp: recent_def intro: less_le_trans)
  qed
qed (auto simp: recent_def)

section \<open>The invariant\<close>

definition unbroken :: "nat \<Rightarrow> observation list \<Rightarrow> bool" where
  "unbroken gap = successively (\<lambda>a b. obs_time a < obs_time b \<and> obs_time b \<le> obs_time a + gap)"

text \<open>
  \<open>tracks\<close> relates a history to the observations since the window was restarted. All of them are
  High samples of one session without a gap, every entry carries the time of one of them, and the
  entries account for all of them from the first entry on.
\<close>

definition tracks ::
    "target_policy_config \<Rightarrow> rust_str \<Rightarrow> nat \<Rightarrow> candidate_history_entry list \<Rightarrow> observation list \<Rightarrow> bool" where
  "tracks c session now h obs \<longleftrightarrow>
     (h = [] \<longleftrightarrow> obs = []) \<and> (obs \<noteq> [] \<longrightarrow> obs_time (last obs) = now)
     \<and> stamp ` set h \<subseteq> obs_time ` set obs
     \<and> (\<forall>ob\<in>set obs. smp_native_pressure (fst ob) = Some High \<and> smp_session_id (fst ob) = session)
     \<and> unbroken (unat (maximum_gap_millis c)) obs
     \<and> covers h (set obs) \<and> spaced (unat (bucket_millis c)) h"

lemma tracks_empty [simp]: "tracks c session now [] []"
  by (simp add: tracks_def unbroken_def spaced_def)

lemma unbroken_snoc:
  "unbroken gap (obs @ [ob]) \<longleftrightarrow>
     unbroken gap obs \<and> (obs = [] \<or> obs_time (last obs) < obs_time ob \<and> obs_time ob \<le> obs_time (last obs) + gap)"
  by (auto simp: unbroken_def successively_append_iff)

lemma unbroken_Cons:
  "unbroken gap (a # obs) \<longleftrightarrow>
     (obs = [] \<or> obs_time a < obs_time (hd obs) \<and> obs_time (hd obs) \<le> obs_time a + gap) \<and> unbroken gap obs"
  by (cases obs) (auto simp: unbroken_def)

lemma unbroken_hd_le: "unbroken gap obs \<Longrightarrow> ob \<in> set obs \<Longrightarrow> obs_time (hd obs) \<le> obs_time ob"
proof (induction obs)
  case (Cons a obs)
  show ?case
  proof (cases "ob = a \<or> obs = []")
    case False
    then have "ob \<in> set obs" "obs_time a < obs_time (hd obs)" "unbroken gap obs"
      using Cons.prems by (auto simp: unbroken_Cons)
    then show ?thesis using Cons.IH by simp
  qed (use Cons in auto)
qed simp

lemma unbroken_le_last: "unbroken gap obs \<Longrightarrow> ob \<in> set obs \<Longrightarrow> obs_time ob \<le> obs_time (last obs)"
proof (induction obs rule: rev_induct)
  case (snoc a obs)
  then show ?case by (fastforce simp: unbroken_snoc)
qed simp

lemma bucket_window: "unat (history_window_millis c) \<le> 4094 * unat (bucket_millis c)"
  and bucket_pos: "0 < unat (bucket_millis c)"
proof -
  have "unat (of_nat (MAX_TARGET_HISTORY_ENTRIES - 2) :: u64) = 4094"
    by (simp add: MAX_TARGET_HISTORY_ENTRIES_def)
  then have b: "unat (bucket_millis c) = max ((unat (history_window_millis c) + 4094 - 1) div 4094) 1"
    by (simp add: bucket_millis_def word_nat)
  have "unat (history_window_millis c) \<le> (unat (history_window_millis c) + 4094 - 1) div 4094 * 4094"
    by (rule div_ceil_mult_ge) simp
  then show "unat (history_window_millis c) \<le> 4094 * unat (bucket_millis c)"
    unfolding b by linarith
  show "0 < unat (bucket_millis c)" unfolding b by linarith
qed

lemma recent_length:
  assumes "spaced (unat (bucket_millis c)) h" and "recent now (unat (history_window_millis c)) h"
    and "h \<noteq> [] \<longrightarrow> stamp (last h) \<le> now"
  shows "length h \<le> 4095"
proof (cases "tl h = []")
  case True
  then show ?thesis by (cases h) auto
next
  case False
  let ?w = "unat (history_window_millis c)" and ?b = "unat (bucket_millis c)"
  have h: "h = hd h # tl h" using False by (cases h) auto
  then have sp: "spaced ?b (tl h)" using assms(1) by (metis spaced_Cons)
  have "now - ?w < stamp (hd (tl h))" using assms(2) False by (simp add: recent_def)
  moreover have "stamp (last (tl h)) \<le> now" using assms(3) False by (cases h) (auto simp: last_tl)
  ultimately have "(length (tl h) - 1) * ?b < ?w"
    using spaced_span [OF sp False] by linarith
  then have "(length (tl h) - 1) * ?b < 4094 * ?b" using bucket_window [of c] by linarith
  then have "length (tl h) - 1 < 4094" by simp
  then show ?thesis by (subst h) simp
qed

lemma tracks_stamps: "tracks c session now h obs \<Longrightarrow> x \<in> set h \<Longrightarrow> stamp x \<le> now"
proof -
  assume t: "tracks c session now h obs" and x: "x \<in> set h"
  then obtain ob where "ob \<in> set obs" "stamp x = obs_time ob" by (auto simp: tracks_def)
  moreover from this have "obs \<noteq> []" by auto
  ultimately show "stamp x \<le> now"
    using t unbroken_le_last [of _ obs ob] by (auto simp: tracks_def)
qed

text \<open>Adding a High sample that continues the session keeps the relation.\<close>

lemma tracks_push:
  assumes t: "tracks c session now h obs"
    and s: "smp_native_pressure s = Some High" "smp_session_id s = session"
    and adv: "obs \<noteq> [] \<longrightarrow> now < unat (smp_monotonic_millis s)
        \<and> unat (smp_monotonic_millis s) \<le> now + unat (maximum_gap_millis c)"
    and i: "desired_now_bytes r = inst_desired_now_bytes i" "floor_now_bytes r = inst_floor_now_bytes i"
  shows "tracks c session (unat (smp_monotonic_millis s)) (push_candidate c h s i) (obs @ [(s, g, r)])"
proof -
  let ?now = "unat (smp_monotonic_millis s)" and ?ob = "(s, g, r)"
  have time: "obs_time ?ob = ?now" by (simp add: obs_time_def)
  have old: "stamp x < ?now" if "x \<in> set h" for x
    using tracks_stamps [OF t that] that t adv by (fastforce simp: tracks_def)
  have obs: "obs_time ob < ?now" if "ob \<in> set obs" for ob
  proof -
    have "obs \<noteq> []" using that by auto
    then show ?thesis
      using unbroken_le_last [OF _ that] t adv by (fastforce simp: tracks_def)
  qed
  have br: "unbroken (unat (maximum_gap_millis c)) (obs @ [?ob])"
    using t adv by (auto simp: unbroken_snoc tracks_def time)
  have hi: "\<forall>ob\<in>set (obs @ [?ob]). smp_native_pressure (fst ob) = Some High \<and> smp_session_id (fst ob) = session"
    using t s by (auto simp: tracks_def)
  show ?thesis
  proof (cases "h \<noteq> [] \<and> saturating_sub (smp_monotonic_millis s) (ent_monotonic_millis (last h)) < bucket_millis c")
    case True
    then obtain h0 l where h: "h = h0 @ [l]" by (metis append_butlast_last_id)
    let ?l = "merge_entry l i"
    have push: "push_candidate c h s i = h0 @ [?l]"
      using True by (simp add: push_candidate_def h)
    have st: "stamp ?l = stamp l" by (simp add: stamp_def merge_entry_def)
    have acc: "accounts ?l ?ob" "\<forall>ob. accounts l ob \<longrightarrow> accounts ?l ob"
      by (auto simp: accounts_def merge_entry_def i max.coboundedI1)
    have "covers (h0 @ [?l]) (insert ?ob (set obs))"
      using t old by (intro covers_merged [OF _ st acc]) (auto simp: tracks_def h time less_imp_le)
    moreover have "stamp ` set (h0 @ [?l]) \<subseteq> obs_time ` set (obs @ [?ob])"
      using t st by (auto simp: tracks_def h)
    moreover have "spaced (unat (bucket_millis c)) (h0 @ [?l])"
      using t st by (simp add: tracks_def h spaced_snoc)
    ultimately show ?thesis using br hi unfolding tracks_def push by (simp add: time)
  next
    case False
    let ?n = "new_entry s i"
    have push: "push_candidate c h s i = h @ [?n]"
      using False by (auto simp: push_candidate_def)
    have st: "stamp ?n = ?now" by (simp add: stamp_def new_entry_def)
    have acc: "accounts ?n ?ob" by (simp add: accounts_def new_entry_def i)
    have "covers (h @ [?n]) (insert ?ob (set obs))"
      using t old obs acc by (intro covers_new) (auto simp: tracks_def st time less_imp_le)
    moreover have "h \<noteq> [] \<longrightarrow> stamp (last h) + unat (bucket_millis c) \<le> ?now"
      using False old [of "last h"] by (auto simp: stamp_def word_nat)
    then have "spaced (unat (bucket_millis c)) (h @ [?n])"
      using t by (auto simp: tracks_def spaced_snoc st)
    moreover have "stamp ` set (h @ [?n]) \<subseteq> obs_time ` set (obs @ [?ob])"
      using t st time by (auto simp: tracks_def)
    ultimately show ?thesis using br hi unfolding tracks_def push by (simp add: time)
  qed
qed

lemma tracks_prune:
  "tracks c session now h obs \<Longrightarrow> tracks c session now (prune_before h b) obs"
  using prune_before_set [of h b] prune_before_last [of h b]
  by (cases "h = []") (auto simp: tracks_def covers_prune spaced_prune)

text \<open>
  One sample. \<open>valid_window\<close> is the state part of the invariant: the history follows some
  observations up to the last committed sample and holds no entry that pruning would drop.
\<close>

definition valid_window :: "target_policy_config \<Rightarrow> target_estimator_state \<Rightarrow> observation list \<Rightarrow> bool" where
  "valid_window c st obs \<longleftrightarrow>
     tracks c (est_session_id st) (unat (est_last_monotonic_millis st)) (est_history st) obs
     \<and> recent (unat (est_last_monotonic_millis st)) (unat (history_window_millis c)) (est_history st)
     \<and> (obs \<noteq> [] \<longrightarrow> est_session_id st \<noteq> [])"

lemma valid_window_empty [simp]: "est_history st = [] \<Longrightarrow> valid_window c st []"
  by (simp add: valid_window_def recent_def)

lemma valid_window_length: "valid_window c st obs \<Longrightarrow> length (est_history st) \<le> 4095"
  using tracks_stamps [of c "est_session_id st" "unat (est_last_monotonic_millis st)" "est_history st" obs]
  by (intro recent_length [of c _ "unat (est_last_monotonic_millis st)"])
    (auto simp: valid_window_def tracks_def)

lemma push_candidate_length: "length (push_candidate c h s i) \<le> Suc (length h)"
  by (simp add: push_candidate_def)

text \<open>With at most 4095 entries the front of the history is never cut away by the length limit.\<close>

lemma extend_history_high:
  assumes "smp_native_pressure s = Some High" and "length (est_history st) \<le> 4095"
  shows "est_history (extend_history c st s i) =
    prune_before (push_candidate c (est_history st) s i)
      (saturating_sub (smp_monotonic_millis s) (history_window_millis c))"
  using assms push_candidate_length [of c "est_history st" s i]
  by (simp add: extend_history_def Let_def prune_history_def MAX_TARGET_HISTORY_ENTRIES_def)

lemma extend_history_restart:
  "smp_native_pressure s \<noteq> Some High \<Longrightarrow> est_history (extend_history c st s i) = []"
  by (simp add: extend_history_def Let_def prune_history_def invalidate_history_def)

lemma prepare_sample_ok:
  assumes "prepare_sample c st s = (Inr (), st1)"
  shows "smp_session_id s \<noteq> []"
    and "est_history st1 = [] \<or> est_history st1 = est_history st \<and>
      (est_session_id st \<noteq> [] \<longrightarrow> smp_session_id s = est_session_id st
        \<and> est_last_monotonic_millis st < smp_monotonic_millis s
        \<and> unat (smp_monotonic_millis s) \<le> unat (est_last_monotonic_millis st) + unat (maximum_gap_millis c))"
    and "est_desired_bytes st1 = est_desired_bytes st" and "est_session_id st1 = est_session_id st"
  using assms trim_nonempty [of "smp_session_id s"]
  by (auto simp: prepare_sample_def word_nat split: if_splits)

lemma raise_desired_history:
  "est_history (raise_desired st base current i) = [] \<or> est_history (raise_desired st base current i) = est_history st"
  by (simp add: raise_desired_def Let_def invalidate_history_def)

text \<open>
  The observations after a successful estimate: none after a sample that is not High, otherwise the
  earlier ones, if the window continues, and this one.
\<close>

lemma estimate_keeps_window:
  assumes est: "estimate e s g = (Inr t, e')" and w: "valid_window (config e) (est_state e) obs"
  shows "\<exists>obs'. (obs' = [] \<or> obs' = [(s, g, t)] \<or> obs' = obs @ [(s, g, t)])
    \<and> (obs' = [] \<longleftrightarrow> smp_native_pressure s \<noteq> Some High)
    \<and> valid_window (config e) (est_state e') obs'"
proof -
  let ?c = "config e"
  obtain i0 st1 minimum maximum i st3 st4 where
    prep: "prepare_sample ?c (est_state e) s = (Inr (), st1)"
    and st3: "st3 = extend_history ?c
       (raise_desired st1 (physical_total_bytes (smp_memory s) - geo_current_bytes g) (geo_current_bytes g) i) s i"
    and low: "lower_desired ?c st3 s (geo_current_bytes g) = (Inr (history_ready t), st4)"
    and f: "desired_bytes t = est_desired_bytes st4" "safe_floor_bytes t = est_safe_floor_bytes st4"
      "desired_now_bytes t = inst_desired_now_bytes i" "floor_now_bytes t = inst_floor_now_bytes i"
      "effective_maximum_bytes t = maximum"
    and e': "e' = e\<lparr>est_state := commit_sample st4 s\<rparr>"
    by (rule estimate_ok [OF est]) (rule that)
  have hist: "est_history (est_state e') = est_history st3"
    and ses: "est_session_id (est_state e') = smp_session_id s"
    and mono: "est_last_monotonic_millis (est_state e') = smp_monotonic_millis s"
    using lower_desired_ok(2) [OF low] by (simp_all add: e' commit_sample_def)
  show ?thesis
  proof (cases "smp_native_pressure s = Some High")
    case False
    then have "est_history (est_state e') = []"
      unfolding hist st3 by (rule extend_history_restart)
    then show ?thesis using False by (intro exI [of _ "[]"]) simp
  next
    case True
    define st2 where "st2 = raise_desired st1
      (physical_total_bytes (smp_memory s) - geo_current_bytes g) (geo_current_bytes g) i"
    have len: "length (est_history (est_state e)) \<le> 4095" by (rule valid_window_length [OF w])
    have st2: "est_history st2 = [] \<or> est_history st2 = est_history (est_state e) \<and> est_history st1 = est_history st2"
      using raise_desired_history [of st1] prepare_sample_ok(2) [OF prep] unfolding st2_def by metis
    define obs2 where "obs2 = (if est_history st2 = [] then [] else obs)"
    define now where "now = unat (est_last_monotonic_millis (est_state e))"
    have tr: "tracks ?c (smp_session_id s) now (est_history st2) obs2
        \<and> (obs2 \<noteq> [] \<longrightarrow> now < unat (smp_monotonic_millis s)
            \<and> unat (smp_monotonic_millis s) \<le> now + unat (maximum_gap_millis ?c))"
    proof (cases "est_history st2 = []")
      case False
      then have "obs \<noteq> []" "est_session_id (est_state e) \<noteq> []"
        using st2 w by (auto simp: valid_window_def tracks_def)
      then show ?thesis
        using False st2 prepare_sample_ok(2) [OF prep] w
        by (auto simp: obs2_def now_def valid_window_def word_less_nat_alt)
    qed (simp add: obs2_def)
    from tr have push: "tracks ?c (smp_session_id s) (unat (smp_monotonic_millis s))
        (push_candidate ?c (est_history st2) s i) (obs2 @ [(s, g, t)])"
      by (intro tracks_push [of _ _ now] True f) auto
    have h: "est_history st3 = prune_before (push_candidate ?c (est_history st2) s i)
        (saturating_sub (smp_monotonic_millis s) (history_window_millis ?c))"
      unfolding st3 st2_def [symmetric] using st2 len by (intro extend_history_high True) auto
    have "recent (unat (smp_monotonic_millis s)) (unat (history_window_millis ?c)) (est_history st3)"
      unfolding h using push by (intro recent_prune) (auto simp: tracks_def)
    then have "valid_window ?c (est_state e') (obs2 @ [(s, g, t)])"
      unfolding valid_window_def hist ses mono using tracks_prune [OF push] prepare_sample_ok(1) [OF prep]
      by (simp add: h)
    then show ?thesis using True
      by (intro exI [of _ "obs2 @ [(s, g, t)]"]) (auto simp: obs2_def)
  qed
qed

text \<open>An error other than arithmetic overflow restarts the window.\<close>

lemma device_limits_overflow: "device_limits e s g i = Inl (LimitsOverflow err) \<Longrightarrow> err = TargetArithmeticOverflow"
  by (auto simp: device_limits_def Let_def result_simps align_up_def split: if_splits)

lemma lower_desired_error: "lower_desired c st s current = (Inl err, st') \<Longrightarrow> err = TargetArithmeticOverflow"
  by (auto simp: lower_desired_def Let_def dest: history_is_ready_nonempty split: if_splits option.splits)

lemma estimate_error:
  assumes "estimate e s g = (Inl err, e')" and "err \<noteq> TargetArithmeticOverflow"
  shows "est_history (est_state e') = [] \<and> config e' = config e"
  using assms
  by (auto simp: estimate_def Let_def invalidate_history_def
      dest: device_limits_overflow lower_desired_error
      split: sum.splits prod.splits limits_error.splits)

lemma estimate_config: "config (snd (estimate e s g)) = config e"
  by (auto simp: estimate_def Let_def split: sum.splits prod.splits limits_error.splits)

lemma step_config: "config (snd (estimator_step e p)) = config e"
  using estimate_config [of e]
  by (cases p) (auto simp: invalidate_estimator_history_def set_ram_limits_def split: prod.splits,
      metis snd_conv)

text \<open>
  Along any history of operations without an overflow, the window follows the tail of the log, where
  only refused changes of the limits are passed over.
\<close>

fun effective_op :: "estimator_op \<times> estimator_result \<Rightarrow> bool" where
  "effective_op (SetLimits a b, r) \<longleftrightarrow> a \<le> b"
| "effective_op (p, r) \<longleftrightarrow> True"

definition log_tail :: "(estimator_op \<times> estimator_result) list \<Rightarrow> observation list \<Rightarrow> bool" where
  "log_tail log obs \<longleftrightarrow> (\<exists>earlier. filter effective_op log = earlier @ map obs_entry obs)"

lemma effective_obs_entry [simp]: "effective_op (obs_entry ob)"
  by (cases ob) (simp add: obs_entry_def)

lemma log_tail_empty [simp]: "log_tail log []"
  by (simp add: log_tail_def)

lemma log_tail_snoc: "log_tail log obs \<Longrightarrow> log_tail (log @ [obs_entry ob]) (obs @ [ob])"
  by (auto simp: log_tail_def)

lemma log_tail_one: "log_tail (log @ [obs_entry ob]) [ob]"
  by (auto simp: log_tail_def)

lemma step_keeps_window:
  assumes step: "estimator_step e p = (r, e')" and ok: "r \<noteq> Some (Inl TargetArithmeticOverflow)"
    and w: "valid_window (config e) (est_state e) obs" "log_tail log obs"
  shows "\<exists>obs'. valid_window (config e') (est_state e') obs' \<and> log_tail (log @ [(p, r)]) obs'"
proof (cases p)
  case (Estimate s g)
  show ?thesis
  proof (cases r)
    case None
    then show ?thesis using step Estimate by (auto split: prod.splits)
  next
    case (Some q)
    then have est: "estimate e s g = (q, e')" using step Estimate by (auto split: prod.splits)
    have c: "config e' = config e" using estimate_config [of e s g] est by simp
    show ?thesis
    proof (cases q)
      case (Inl err)
      then show ?thesis
        using est ok Some estimate_error [of e s g err e'] by (intro exI [of _ "[]"]) auto
    next
      case (Inr t)
      have entry: "obs_entry (s, g, t) = (p, r)" by (simp add: obs_entry_def Estimate Some Inr)
      from estimate_keeps_window [OF est [unfolded Inr] w(1)] obtain obs' where
        obs': "obs' = [] \<or> obs' = [(s, g, t)] \<or> obs' = obs @ [(s, g, t)]"
        "valid_window (config e) (est_state e') obs'" by blast
      then have "log_tail (log @ [(p, r)]) obs'"
        using log_tail_snoc [OF w(2), of "(s, g, t)"] log_tail_one [of log "(s, g, t)"] entry by auto
      then show ?thesis using obs' c by auto
    qed
  qed
next
  case Invalidate
  then show ?thesis
    using step by (intro exI [of _ "[]"]) (auto simp: invalidate_estimator_history_def invalidate_history_def)
next
  case (SetLimits a b)
  show ?thesis
  proof (cases "b < a")
    case False
    then show ?thesis
      using step SetLimits by (intro exI [of _ "[]"]) (auto simp: set_ram_limits_def invalidate_history_def)
  next
    case True
    then have "e' = e" using step SetLimits by (auto simp: set_ram_limits_def)
    then show ?thesis
      using True SetLimits w by (intro exI [of _ obs]) (auto simp: log_tail_def dest: leD)
  qed
qed

lemma run_keeps_window:
  "run_estimator e ops = (log', e') \<Longrightarrow> valid_window (config e) (est_state e) obs \<Longrightarrow> log_tail log obs \<Longrightarrow>
   \<forall>(p, r)\<in>set log'. r \<noteq> Some (Inl TargetArithmeticOverflow) \<Longrightarrow>
   \<exists>obs'. valid_window (config e') (est_state e') obs' \<and> log_tail (log @ log') obs'"
proof (induction ops arbitrary: e log log' obs)
  case (Cons p ps)
  obtain r e1 where step: "estimator_step e p = (r, e1)" by (cases "estimator_step e p")
  obtain log1 where run: "run_estimator e1 ps = (log1, e')" "log' = (p, r) # log1"
    using Cons.prems(1) step by (auto split: prod.splits)
  have "r \<noteq> Some (Inl TargetArithmeticOverflow)" using Cons.prems(4) run(2) by auto
  from step_keeps_window [OF step this Cons.prems(2,3)] obtain obs1 where
    "valid_window (config e1) (est_state e1) obs1" "log_tail (log @ [(p, r)]) obs1" by blast
  from Cons.IH [OF run(1) this] Cons.prems(4) run(2) show ?case by auto
qed auto

text \<open>What a qualified estimate takes from its history.\<close>

lemma estimate_ready:
  assumes est: "estimate e s g = (Inr t, e')" and ready: "history_ready t"
  obtains d f where "max_entry ent_desired_now_bytes (est_history (est_state e')) = Some d"
    "max_entry ent_floor_now_bytes (est_history (est_state e')) = Some f"
    "safe_floor_bytes t = min f (desired_bytes t)"
    "est_session_id (est_state e) \<noteq> [] \<Longrightarrow>
       desired_bytes t < min (est_desired_bytes (est_state e)) (effective_maximum_bytes t) \<Longrightarrow> desired_bytes t = d"
    "stamp (hd (est_history (est_state e'))) + unat (history_window_millis (config e)) \<le> unat (smp_monotonic_millis s)"
    "0 < unat (history_window_millis (config e))"
proof -
  obtain i0 st1 minimum maximum i st3 st4 where
    inst: "calculate_instantaneous (config e) (smp_memory s) g = Inr i0"
    and prep: "prepare_sample (config e) (est_state e) s = (Inr (), st1)"
    and lim: "device_limits e s g i0 = Inr (minimum, maximum)"
    and i: "i = limit_instantaneous i0 minimum maximum"
    and st3: "st3 = extend_history (config e)
       (raise_desired st1 (physical_total_bytes (smp_memory s) - geo_current_bytes g) (geo_current_bytes g) i) s i"
    and low: "lower_desired (config e) st3 s (geo_current_bytes g) = (Inr (history_ready t), st4)"
    and f: "desired_bytes t = est_desired_bytes st4" "safe_floor_bytes t = est_safe_floor_bytes st4"
      "desired_now_bytes t = inst_desired_now_bytes i" "floor_now_bytes t = inst_floor_now_bytes i"
      "effective_maximum_bytes t = maximum"
    and e': "e' = e\<lparr>est_state := commit_sample st4 s\<rparr>"
    by (rule estimate_ok [OF est]) (rule that)
  have hist: "est_history (est_state e') = est_history st3"
    using lower_desired_ok(2) [OF low] by (simp add: e' commit_sample_def)
  note eff = effective_maximum_ok [OF instantaneous_ok(1) [OF inst]]
  note lo = limit_instantaneous_ok [OF device_limits_ok(3) [OF lim eff(2,4)] instantaneous_ok(6) [OF inst]]
  have i_le: "inst_desired_now_bytes i \<le> inst_effective_maximum_bytes i" and i_max: "inst_effective_maximum_bytes i = maximum"
    using lo by (simp_all add: i)
  obtain d fl where m: "max_entry ent_desired_now_bytes (est_history st3) = Some d"
    "max_entry ent_floor_now_bytes (est_history st3) = Some fl"
    "est_safe_floor_bytes st4 = min fl (est_desired_bytes st4)"
    and d: "est_desired_bytes st4 = est_desired_bytes st3 \<or> est_desired_bytes st4 = d"
    using lower_desired_ok(5) [OF low ready] by blast
  have r: "history_is_ready (est_history st3) (smp_monotonic_millis s) (history_window_millis (config e))"
    using lower_desired_ok(1) [OF low] ready by simp
  show thesis
  proof (rule that [of d fl])
    assume "est_session_id (est_state e) \<noteq> []"
      and less: "desired_bytes t < min (est_desired_bytes (est_state e)) (effective_maximum_bytes t)"
    then have "min (est_desired_bytes (est_state e)) maximum \<le> est_desired_bytes st3"
      using raise_desired_bounds(3) [OF i_le, of st1] prepare_sample_ok(3,4) [OF prep]
      by (simp add: st3 extend_history_fields i_max)
    then have "est_desired_bytes st4 \<noteq> est_desired_bytes st3" using less unfolding f by (metis leD)
    then show "desired_bytes t = d" using d f by simp
  next
    have w: "0 < history_window_millis (config e)" using eff(1) by (simp add: wf_target_policy_def)
    then show "0 < unat (history_window_millis (config e))" by (simp add: word_less_nat_alt)
    show "stamp (hd (est_history (est_state e'))) + unat (history_window_millis (config e)) \<le> unat (smp_monotonic_millis s)"
      using r w unfolding hist by (cases "est_history st3") (auto simp: history_is_ready_def stamp_def word_nat)
  qed (use m f hist in simp_all)
qed

section \<open>Properties\<close>

text \<open>
  C12. Reclaim needs evidence. Start from an estimator without history and run any operations, none of
  which overflowed. If the next estimate reports a qualified history, the log ends with an unbroken
  series of successful estimates: all under native High, all of one session, each within the maximum
  gap of the one before, reaching back at least the whole window. If the target was lowered, it is at
  least the need of every sample within the window, and the safe floor is at least the smaller of the
  target and every such sample's floor.
\<close>

theorem reclaim_needs_full_window:
  assumes fresh: "est_history (est_state e0) = []"
    and run: "run_estimator e0 ops = (log, e)"
    and sound: "\<forall>(p, r)\<in>set log. r \<noteq> Some (Inl TargetArithmeticOverflow)"
    and est: "estimate e s g = (Inr t, e')" and ready: "history_ready t"
  shows "\<exists>obs. obs \<noteq> [] \<and> log_tail (log @ [(Estimate s g, Some (Inr t))]) obs \<and> last obs = (s, g, t)
    \<and> (\<forall>ob\<in>set obs. smp_native_pressure (fst ob) = Some High \<and> smp_session_id (fst ob) = smp_session_id s)
    \<and> unbroken (unat (maximum_gap_millis (config e))) obs
    \<and> obs_time (hd obs) + unat (history_window_millis (config e)) \<le> unat (smp_monotonic_millis s)
    \<and> (\<forall>ob\<in>set obs. unat (smp_monotonic_millis s) \<le> obs_time ob + unat (history_window_millis (config e)) \<longrightarrow>
         (desired_bytes t < min (est_desired_bytes (est_state e)) (effective_maximum_bytes t) \<longrightarrow>
            desired_now_bytes (snd (snd ob)) \<le> desired_bytes t)
         \<and> min (floor_now_bytes (snd (snd ob))) (desired_bytes t) \<le> safe_floor_bytes t)"
proof -
  have "valid_window (config e0) (est_state e0) []" using fresh by simp
  from run_keeps_window [OF run this _ sound, of "[]"] obtain obs0 where
    w0: "valid_window (config e) (est_state e) obs0" "log_tail log obs0" by auto
  from estimate_keeps_window [OF est w0(1)] obtain obs where
    obs: "obs = [] \<or> obs = [(s, g, t)] \<or> obs = obs0 @ [(s, g, t)]"
    and w: "valid_window (config e) (est_state e') obs" by blast
  let ?h = "est_history (est_state e')" and ?now = "unat (smp_monotonic_millis s)"
    and ?w = "unat (history_window_millis (config e))"
  obtain d f where d: "max_entry ent_desired_now_bytes ?h = Some d"
    and f: "max_entry ent_floor_now_bytes ?h = Some f" "safe_floor_bytes t = min f (desired_bytes t)"
    and lowered: "est_session_id (est_state e) \<noteq> [] \<Longrightarrow>
       desired_bytes t < min (est_desired_bytes (est_state e)) (effective_maximum_bytes t) \<Longrightarrow> desired_bytes t = d"
    and first: "stamp (hd ?h) + ?w \<le> ?now" and pos: "0 < ?w"
    by (rule estimate_ready [OF est ready]) (rule that)
  have h: "?h \<noteq> []" using d by (auto simp: max_entry_Some)
  have tr: "tracks (config e) (est_session_id (est_state e')) (unat (est_last_monotonic_millis (est_state e'))) ?h obs"
    using w by (simp add: valid_window_def)
  have ne: "obs \<noteq> []" and br: "unbroken (unat (maximum_gap_millis (config e))) obs" and cov: "covers ?h (set obs)"
    using tr h by (auto simp: tracks_def)
  have last: "last obs = (s, g, t)" using obs ne by auto
  have hd: "obs_time (hd obs) + ?w \<le> ?now"
  proof -
    obtain ob where "ob \<in> set obs" "stamp (hd ?h) = obs_time ob"
      using tr h by (force simp: tracks_def)
    then show ?thesis using unbroken_hd_le [OF br] first by fastforce
  qed
  have "obs \<noteq> [(s, g, t)]" using hd pos by (auto simp: obs_time_def)
  then have "obs0 \<noteq> []" using obs ne by auto
  then have ses: "est_session_id (est_state e) \<noteq> []" using w0(1) by (simp add: valid_window_def)
  have acc: "desired_now_bytes (snd (snd ob)) \<le> d \<and> floor_now_bytes (snd (snd ob)) \<le> f"
    if "ob \<in> set obs" "?now \<le> obs_time ob + ?w" for ob
  proof -
    have "stamp (hd ?h) \<le> obs_time ob" using first that(2) by linarith
    from covers_accounts [OF cov that(1) h this] show ?thesis
      using max_entry_ge [OF d] max_entry_ge [OF f(1)] by (fastforce simp: accounts_def)
  qed
  show ?thesis
  proof (intro exI [of _ obs] conjI ballI impI)
    show "log_tail (log @ [(Estimate s g, Some (Inr t))]) obs"
      using obs log_tail_snoc [OF w0(2), of "(s, g, t)"] log_tail_one [of log "(s, g, t)"]
      by (auto simp: obs_entry_def)
    fix ob assume ob: "ob \<in> set obs"
    have "last obs \<in> set obs" using ne by simp
    then show "smp_native_pressure (fst ob) = Some High" "smp_session_id (fst ob) = smp_session_id s"
      using tr ob last by (auto simp: tracks_def)
    assume near: "?now \<le> obs_time ob + ?w"
    show "min (floor_now_bytes (snd (snd ob))) (desired_bytes t) \<le> safe_floor_bytes t"
      using acc [OF ob near] unfolding f(2) by (auto simp: min_le_iff_disj)
    assume "desired_bytes t < min (est_desired_bytes (est_state e)) (effective_maximum_bytes t)"
    then show "desired_now_bytes (snd (snd ob)) \<le> desired_bytes t"
      using acc [OF ob near] lowered [OF ses] by simp
  qed (use ne last br hd in auto)
qed

definition relaxed_telemetry :: "u64 \<Rightarrow> target_sample" where
  "relaxed_telemetry n =
     (sample_telemetry n)\<lparr>smp_memory := sample_memory\<lparr>physical_available_bytes := 3221225472\<rparr>\<rparr>"

definition wide_estimator :: target_estimator where
  "wide_estimator = sample_estimator\<lparr>config := sample_policy\<lparr>maximum_gap_millis := 60000\<rparr>\<rparr>"

definition sample_ops :: "estimator_op list" where
  "sample_ops =
     [Estimate (sample_telemetry 5000) sample_geometry, Estimate (relaxed_telemetry 10000) sample_geometry]"

definition no_overflow :: "(estimator_op \<times> estimator_result) list \<Rightarrow> bool" where
  "no_overflow log \<longleftrightarrow> list_all (\<lambda>(p, r). r \<noteq> Some (Inl TargetArithmeticOverflow)) log"

text \<open>A demand of 2.5 GiB falls to 1 GiB once the relaxed samples fill the window of a minute.\<close>

theorem reclaim_needs_full_window_witness:
  "\<exists>t e' obs. estimate (snd (run_estimator wide_estimator sample_ops)) (relaxed_telemetry 70000) sample_geometry
      = (Inr t, e')
    \<and> est_desired_bytes (est_state (snd (run_estimator wide_estimator sample_ops))) = 2684354560
    \<and> desired_bytes t = 0 \<and> history_ready t
    \<and> obs \<noteq> [] \<and> obs_time (hd obs) + 60000 \<le> 70000"
proof -
  let ?e = "snd (run_estimator wide_estimator sample_ops)" and ?log = "fst (run_estimator wide_estimator sample_ops)"
  let ?x = "estimate ?e (relaxed_telemetry 70000) sample_geometry"
  have "case run_estimator wide_estimator sample_ops of (log, e) \<Rightarrow>
      (case fst (estimate e (relaxed_telemetry 70000) sample_geometry) of
         Inl _ \<Rightarrow> False | Inr t \<Rightarrow> desired_bytes t = 0 \<and> history_ready t)
      \<and> est_desired_bytes (est_state e) = 2684354560 \<and> no_overflow log \<and> history_window_millis (config e) = 60000" by code_simp
  then have ok: "(case fst ?x of Inl _ \<Rightarrow> False | Inr t \<Rightarrow> desired_bytes t = 0 \<and> history_ready t)
      \<and> est_desired_bytes (est_state ?e) = 2684354560 \<and> no_overflow ?log \<and> history_window_millis (config ?e) = 60000"
    by (simp add: case_prod_unfold)
  then obtain t where t: "fst ?x = Inr t" "desired_bytes t = 0" "history_ready t"
    by (auto split: sum.splits)
  then have x: "?x = (Inr t, snd ?x)" by (metis prod.collapse)
  have fresh: "est_history (est_state wide_estimator) = []" by code_simp
  have run: "run_estimator wide_estimator sample_ops = (?log, ?e)" by simp
  have sound: "\<forall>(p, r)\<in>set ?log. r \<noteq> Some (Inl TargetArithmeticOverflow)"
    using ok by (auto simp: no_overflow_def list_all_iff)
  have "unat (history_window_millis (config ?e)) = 60000" "unat (smp_monotonic_millis (relaxed_telemetry 70000)) = 70000"
    using ok by (simp_all add: relaxed_telemetry_def sample_telemetry_def)
  then obtain obs :: "observation list" where "obs \<noteq> []" "obs_time (hd obs) + 60000 \<le> 70000"
    using reclaim_needs_full_window [OF fresh run sound x t(3)] by (elim exE conjE) (rule that, simp_all)
  then show ?thesis using x t ok by blast
qed

text \<open>
  Without a qualified history an estimate never lowers the target on its own: it stays at least
  the previous target as far as the effective maximum allows, the safe floor holds what the device
  has, and a sample that is not under native High never qualifies.
\<close>

theorem no_reclaim_without_window:
  assumes est: "estimate e s g = (Inr t, e')"
  shows "(\<not> history_ready t \<and> est_session_id (est_state e) \<noteq> [] \<longrightarrow>
      min (est_desired_bytes (est_state e)) (effective_maximum_bytes t) \<le> desired_bytes t)
    \<and> (\<not> history_ready t \<longrightarrow> safe_floor_bytes t = min (geo_current_bytes g) (desired_bytes t))
    \<and> (smp_native_pressure s \<noteq> Some High \<longrightarrow> \<not> history_ready t)"
proof -
  obtain i0 st1 minimum maximum i st3 st4 where
    inst: "calculate_instantaneous (config e) (smp_memory s) g = Inr i0"
    and prep: "prepare_sample (config e) (est_state e) s = (Inr (), st1)"
    and lim: "device_limits e s g i0 = Inr (minimum, maximum)"
    and i: "i = limit_instantaneous i0 minimum maximum"
    and st3: "st3 = extend_history (config e)
       (raise_desired st1 (physical_total_bytes (smp_memory s) - geo_current_bytes g) (geo_current_bytes g) i) s i"
    and low: "lower_desired (config e) st3 s (geo_current_bytes g) = (Inr (history_ready t), st4)"
    and f: "desired_bytes t = est_desired_bytes st4" "safe_floor_bytes t = est_safe_floor_bytes st4"
      "desired_now_bytes t = inst_desired_now_bytes i" "floor_now_bytes t = inst_floor_now_bytes i"
      "effective_maximum_bytes t = maximum"
    by (rule estimate_ok [OF est]) (rule that)
  note eff = effective_maximum_ok [OF instantaneous_ok(1) [OF inst]]
  note lo = limit_instantaneous_ok [OF device_limits_ok(3) [OF lim eff(2,4)] instantaneous_ok(6) [OF inst]]
  have i_le: "inst_desired_now_bytes i \<le> inst_effective_maximum_bytes i" and i_max: "inst_effective_maximum_bytes i = maximum"
    using lo by (simp_all add: i)
  show ?thesis
  proof (intro conjI impI)
    assume "\<not> history_ready t \<and> est_session_id (est_state e) \<noteq> []"
    then show "min (est_desired_bytes (est_state e)) (effective_maximum_bytes t) \<le> desired_bytes t"
      using lower_desired_ok(4) [OF low] raise_desired_bounds(3) [OF i_le, of st1] prepare_sample_ok(3,4) [OF prep]
      unfolding f by (simp add: st3 extend_history_fields i_max)
  next
    assume "\<not> history_ready t"
    then show "safe_floor_bytes t = min (geo_current_bytes g) (desired_bytes t)"
      using lower_desired_ok(4) [OF low] unfolding f by simp
  next
    assume "smp_native_pressure s \<noteq> Some High"
    then have "est_history st3 = []" unfolding st3 by (rule extend_history_restart)
    then show "\<not> history_ready t"
      using lower_desired_ok(1) [OF low] by (simp add: history_is_ready_def)
  qed
qed

theorem no_reclaim_without_window_witness:
  "\<exists>t e'. estimate sample_estimator (sample_telemetry 5000) sample_geometry = (Inr t, e')
     \<and> \<not> history_ready t \<and> safe_floor_bytes t = min 2147483648 (desired_bytes t)"
proof -
  let ?x = "estimate sample_estimator (sample_telemetry 5000) sample_geometry"
  have "(case fst ?x of Inl _ \<Rightarrow> False | Inr t \<Rightarrow> \<not> history_ready t)" by code_simp
  then obtain t where t: "fst ?x = Inr t" "\<not> history_ready t" by (auto split: sum.splits)
  then have x: "?x = (Inr t, snd ?x)" by (metis prod.collapse)
  have "geo_current_bytes sample_geometry = 2147483648" by (simp add: sample_geometry_def)
  then show ?thesis using no_reclaim_without_window [OF x] x t by metis
qed

text \<open>
  However long the estimator runs and however often it is polled, its history holds at most 4095
  entries, so the length limit of 4096 is never what discards an entry.
\<close>

theorem history_stays_bounded:
  assumes "est_history (est_state e0) = []" and "run_estimator e0 ops = (log, e)"
    and "\<forall>(p, r)\<in>set log. r \<noteq> Some (Inl TargetArithmeticOverflow)"
  shows "length (est_history (est_state e)) < MAX_TARGET_HISTORY_ENTRIES"
proof -
  have "valid_window (config e0) (est_state e0) []" using assms(1) by simp
  from run_keeps_window [OF assms(2) this _ assms(3), of "[]"] obtain obs where
    "valid_window (config e) (est_state e) obs" by auto
  from valid_window_length [OF this] show ?thesis by (simp add: MAX_TARGET_HISTORY_ENTRIES_def)
qed

theorem history_stays_bounded_witness:
  "length (est_history (est_state (snd (run_estimator sample_estimator
     [Estimate (sample_telemetry 5000) sample_geometry])))) < MAX_TARGET_HISTORY_ENTRIES"
proof -
  let ?r = "run_estimator sample_estimator [Estimate (sample_telemetry 5000) sample_geometry]"
  have fresh: "est_history (est_state sample_estimator) = []" by code_simp
  have run: "?r = (fst ?r, snd ?r)" by simp
  have "no_overflow (fst ?r)" by code_simp
  then have "\<forall>(p, r)\<in>set (fst ?r). r \<noteq> Some (Inl TargetArithmeticOverflow)"
    by (auto simp: no_overflow_def list_all_iff)
  then show ?thesis by (rule history_stays_bounded [OF fresh run])
qed

end
