(* ===== verification/Guest_Policy.thy ===== *)
theory Guest_Policy
  imports Memory_Request Target_History
begin

text \<open>
  The guest's policy, \<open>guest_policy.rs\<close>: it turns a telemetry sample and the host's published status
  into at most one outstanding add or remove request. \<open>poll\<close> returns the requester beside its result,
  on the error paths too. The theorems show what a plan may ask for and when, that a request stays
  open and unchanged until its terminal result arrives, and that over any history of polls and service
  restarts requests are issued one at a time with strictly increasing issuance times.
\<close>

section \<open>Policy and plan\<close>

record guest_memory_policy =
  target :: target_policy_config
  grow_step_bytes :: u64
  shrink_step_bytes :: u64
  host_status_max_age_millis :: u64
  request_lifetime_millis :: u64

definition validate_guest_policy :: "guest_memory_policy \<Rightarrow> rust_str + unit" where
  "validate_guest_policy p =
     and_then (map_err display_target_estimator_error (validate_target_policy (target p))) (\<lambda>_.
       if grow_step_bytes p = 0 \<or> shrink_step_bytes p = 0 \<or> host_status_max_age_millis p = 0
         then Inl (lit ''guest policy steps and status age must be positive'')
       else if request_lifetime_millis p = 0 \<or> MAX_REQUEST_LIFETIME_MILLIS < request_lifetime_millis p
         then Inl (lit ''request lifetime must be 1..='' @ show_u64 MAX_REQUEST_LIFETIME_MILLIS
                   @ lit '' milliseconds'')
       else Inr ())"

definition plan_request ::
    "target_estimate \<Rightarrow> virtio_mem_state \<Rightarrow> guest_memory_policy \<Rightarrow>
     rust_str + (memory_operation \<times> u64) option" where
  "plan_request t d p =
     and_then (map_err display_virtio_mem_error (validate_device d)) (\<lambda>_.
       if \<not> is_multiple_of (grow_step_bytes p) (block_size_bytes d)
          \<or> \<not> is_multiple_of (shrink_step_bytes p) (block_size_bytes d)
         then Inl (lit ''guest policy steps must be multiples of the device block size'')
       else if requested_bytes d \<noteq> current_bytes d then Inr None
       else
         let current = current_bytes d in
         if current < desired_bytes t then Inr (Some (Add, desired_bytes t - current))
         else if desired_bytes t < current \<and> history_ready t
           then
             let goal = max (max (saturating_sub current (shrink_step_bytes p)) (desired_bytes t))
                            (safe_floor_bytes t)
             in if goal < current then Inr (Some (Remove, current - goal)) else Inr None
         else Inr None)"

section \<open>State\<close>

record guest_request_state =
  pending :: "memory_request option"
  last_issued_unix_millis :: u64

record guest_decision =
  dec_request :: "memory_request option"
  persist :: bool
  dec_resolved :: "memory_result option"

datatype guest_policy_reason =
    WaitingForStatus
  | AwaitingResult
  | ResultConsumed
  | WaitingForHistory
  | NativeNotHigh
  | NoChange
  | CapacityLimit
  | RetryBackoff
  | ClockWatermark
  | PhysicalReserve
  | CommitReserve
  | NativeLow
  | ReclaimSurplus

record guest_policy_diagnostics =
  diag_reason :: guest_policy_reason
  diag_desired_bytes :: "u64 option"
  diag_safe_floor_bytes :: "u64 option"
  diag_history_ready :: bool
  retry_remaining_millis :: u64
  physical_deficit_bytes :: u64
  commit_deficit_bytes :: u64

definition default_diagnostics :: guest_policy_diagnostics where
  "default_diagnostics =
     \<lparr>diag_reason = WaitingForStatus, diag_desired_bytes = None, diag_safe_floor_bytes = None,
      diag_history_ready = False, retry_remaining_millis = 0, physical_deficit_bytes = 0,
      commit_deficit_bytes = 0\<rparr>"

record guest_requester =
  policy :: guest_memory_policy
  estimator :: target_estimator
  rq_state :: guest_request_state
  rq_vm_name :: rust_str
  rq_service_name :: rust_str
  rq_session_id :: rust_str
  next_sequence :: u64
  retry :: "(memory_operation \<times> u64 \<times> u64) option"
  retry_delay_millis :: u64
  native_low :: bool
  numeric_critical :: bool
  diagnostics :: guest_policy_diagnostics

definition new_requester ::
    "guest_memory_policy \<Rightarrow> rust_str \<Rightarrow> rust_str \<Rightarrow> rust_str \<Rightarrow> guest_request_state \<Rightarrow>
     rust_str + guest_requester" where
  "new_requester p vm service session st =
     and_then (validate_guest_policy p) (\<lambda>_.
       if \<not> list_all valid_identity [vm, service, session]
         then Inl (lit ''guest VM, service and session identity must be printable ASCII of at most 128 bytes'')
       else
         and_then
           (case pending st of
              None \<Rightarrow> Inr ()
            | Some r \<Rightarrow>
                and_then (validate_request r) (\<lambda>_.
                  if id_vm_name (identity r) \<noteq> vm \<or> id_service_name (identity r) \<noteq> service
                    then Inl (lit ''retained memory request belongs to another VM or service'')
                  else if last_issued_unix_millis st < issued_unix_millis r
                    then Inl (lit ''retained memory request is newer than its watermark'')
                  else Inr ()))
           (\<lambda>_. and_then (map_err display_target_estimator_error (new_estimator (target p))) (\<lambda>est.
             Inr \<lparr>policy = p, estimator = est, rq_state = st, rq_vm_name = vm, rq_service_name = service,
                  rq_session_id = session, next_sequence = 0, retry = None, retry_delay_millis = 0,
                  native_low = False, numeric_critical = False, diagnostics = default_diagnostics\<rparr>)))"

definition requester_set_ram_limits ::
    "guest_requester \<Rightarrow> u64 \<Rightarrow> u64 \<Rightarrow> (rust_str + unit) \<times> guest_requester" where
  "requester_set_ram_limits q minimum maximum =
     (let (r, est) = set_ram_limits (estimator q) minimum maximum in (r, q\<lparr>estimator := est\<rparr>))"

definition requester_invalidate_history :: "guest_requester \<Rightarrow> guest_requester" where
  "requester_invalidate_history q = q\<lparr>estimator := invalidate_estimator_history (estimator q)\<rparr>"

section \<open>One poll\<close>

definition is_critical :: "guest_requester \<Rightarrow> target_sample \<Rightarrow> bool" where
  "is_critical q s \<longleftrightarrow>
     physical_available_bytes (smp_memory s) < safe_floor_physical_reserve_bytes (target (policy q))
     \<or> saturating_sub (commit_limit_bytes (smp_memory s)) (commit_total_bytes (smp_memory s))
         < safe_floor_commit_reserve_bytes (target (policy q))"

text \<open>Lines 239 to 270: the pressure edges and a fresh diagnostic record.\<close>

definition observe_sample :: "guest_requester \<Rightarrow> target_sample \<Rightarrow> guest_requester" where
  "observe_sample q s =
     q\<lparr>native_low := (smp_native_pressure s = Some Low),
       numeric_critical := is_critical q s,
       diagnostics := default_diagnostics
         \<lparr>physical_deficit_bytes :=
            saturating_sub (physical_reserve_bytes (target (policy q))) (physical_available_bytes (smp_memory s)),
          commit_deficit_bytes :=
            saturating_sub (commit_reserve_bytes (target (policy q)))
              (saturating_sub (commit_limit_bytes (smp_memory s)) (commit_total_bytes (smp_memory s))),
          retry_remaining_millis :=
            (case retry q of
               None \<Rightarrow> 0
             | Some (_, since, delay) \<Rightarrow>
                 saturating_sub delay (saturating_sub (smp_monotonic_millis s) since))\<rparr>\<rparr>"

definition filter_option :: "('a \<Rightarrow> bool) \<Rightarrow> 'a option \<Rightarrow> 'a option" where
  "filter_option f v = (case v of None \<Rightarrow> None | Some x \<Rightarrow> if f x then Some x else None)"

definition valid_status :: "guest_requester \<Rightarrow> host_memory_status option \<Rightarrow> host_memory_status option" where
  "valid_status q = filter_option (\<lambda>st. is_ok (validate_status_for st (rq_vm_name q) (rq_service_name q)))"

definition fresh_status ::
    "guest_requester \<Rightarrow> target_sample \<Rightarrow> host_memory_status option \<Rightarrow> host_memory_status option" where
  "fresh_status q s =
     filter_option (\<lambda>st. fresh_at st (smp_observed_unix_millis s) (host_status_max_age_millis (policy q)))"

definition converged_status :: "host_memory_status option \<Rightarrow> host_memory_status option" where
  "converged_status = filter_option (\<lambda>st. st_requested_bytes st = st_current_bytes st)"

definition status_geometry :: "host_memory_status \<Rightarrow> target_geometry" where
  "status_geometry st =
     \<lparr>geo_device_size_bytes = st_device_size_bytes st, geo_block_size_bytes = st_block_size_bytes st,
      geo_current_bytes = st_current_bytes st\<rparr>"

text \<open>Lines 284 to 309: the estimator sees every fresh, converged status.\<close>

definition poll_estimate ::
    "guest_requester \<Rightarrow> target_sample \<Rightarrow> host_memory_status option \<Rightarrow>
     (rust_str + target_estimate option) \<times> guest_requester" where
  "poll_estimate q0 s fresh =
     (let q = (if fresh = None \<or> converged_status fresh = None \<and> smp_native_pressure s \<noteq> Some High
               then requester_invalidate_history q0 else q0)
      in case converged_status fresh of
           None \<Rightarrow> (Inr None, q)
         | Some st \<Rightarrow>
             (case estimate (estimator q) s (status_geometry st) of
                (Inl err, est) \<Rightarrow> (Inl (display_target_estimator_error err), q\<lparr>estimator := est\<rparr>)
              | (Inr t, est) \<Rightarrow>
                  (Inr (Some t),
                   q\<lparr>estimator := est,
                     diagnostics := (diagnostics q)\<lparr>diag_desired_bytes := Some (desired_bytes t),
                       diag_safe_floor_bytes := Some (safe_floor_bytes t),
                       diag_history_ready := history_ready t\<rparr>\<rparr>)))"

definition hold :: guest_decision where
  "hold = \<lparr>dec_request = None, persist = False, dec_resolved = None\<rparr>"

definition set_reason :: "guest_policy_reason \<Rightarrow> guest_requester \<Rightarrow> guest_requester" where
  "set_reason r q = q\<lparr>diagnostics := (diagnostics q)\<lparr>diag_reason := r\<rparr>\<rparr>"

text \<open>Lines 310 to 347: a pending request is resolved by its own terminal result or sent again.\<close>

definition matching_result :: "memory_request \<Rightarrow> host_memory_status option \<Rightarrow> memory_result option" where
  "matching_result r status =
     (case status of
        None \<Rightarrow> None
      | Some st \<Rightarrow> filter_option (\<lambda>x. request x = r \<and> terminal x) (st_result st))"

definition resolve_pending ::
    "guest_requester \<Rightarrow> memory_request \<Rightarrow> host_memory_status option \<Rightarrow> u64 \<Rightarrow>
     guest_decision \<times> guest_requester" where
  "resolve_pending q r status monotonic =
     (case matching_result r status of
        None \<Rightarrow> (\<lparr>dec_request = Some r, persist = False, dec_resolved = None\<rparr>, set_reason AwaitingResult q)
      | Some x \<Rightarrow>
          let q1 = set_reason ResultConsumed (q\<lparr>rq_state := (rq_state q)\<lparr>pending := None\<rparr>\<rparr>);
              delay = clamp (saturating_mul (retry_delay_millis q) 2) 1000 30000;
              q2 = (if outcome x \<noteq> Completed
                    then q1\<lparr>retry_delay_millis := delay,
                            retry := Some (operation (request x), monotonic, delay)\<rparr>
                    else q1\<lparr>retry := None, retry_delay_millis := 0\<rparr>);
              q3 = q2\<lparr>diagnostics := (diagnostics q2)\<lparr>retry_remaining_millis :=
                     (case retry q2 of None \<Rightarrow> 0 | Some (_, _, delay) \<Rightarrow> delay)\<rparr>\<rparr>
          in (\<lparr>dec_request = None, persist = True, dec_resolved = Some x\<rparr>, q3))"

text \<open>Lines 354 to 361: native Low asks for at least one growth step.\<close>

definition native_low_floor :: "guest_requester \<Rightarrow> host_memory_status \<Rightarrow> target_estimate \<Rightarrow> target_estimate" where
  "native_low_floor q st t =
     (if native_low q
      then t\<lparr>desired_bytes := max (desired_bytes t)
               (min (saturating_add (st_current_bytes st) (grow_step_bytes (policy q))) (effective_maximum_bytes t))\<rparr>
      else t)"

definition hold_reason ::
    "guest_requester \<Rightarrow> target_sample \<Rightarrow> host_memory_status \<Rightarrow> target_estimate \<Rightarrow> guest_policy_reason" where
  "hold_reason q s st t =
     (if capacity_limited t \<or> native_low q \<and> effective_maximum_bytes t \<le> st_current_bytes st then CapacityLimit
      else if st_current_bytes st \<le> desired_bytes t then NoChange
      else if smp_native_pressure s \<noteq> Some High then NativeNotHigh
      else if \<not> history_ready t then WaitingForHistory
      else NoChange)"

definition in_backoff :: "guest_requester \<Rightarrow> memory_operation \<Rightarrow> u64 \<Rightarrow> bool \<Rightarrow> bool" where
  "in_backoff q oper monotonic urgent =
     (case retry q of
        None \<Rightarrow> False
      | Some (previous, since, delay) \<Rightarrow>
          previous = oper \<and> since \<le> monotonic \<and> monotonic - since < delay \<and> \<not> (oper = Add \<and> urgent))"

definition issue_reason :: "guest_requester \<Rightarrow> memory_operation \<Rightarrow> guest_policy_reason" where
  "issue_reason q oper =
     (if oper = Remove then ReclaimSurplus
      else if native_low q then NativeLow
      else if 0 < physical_deficit_bytes (diagnostics q) then PhysicalReserve
      else CommitReserve)"

text \<open>Lines 380 to 431: the watermark, the backoff and the new request.\<close>

definition issue_request ::
    "guest_requester \<Rightarrow> target_sample \<Rightarrow> memory_operation \<Rightarrow> u64 \<Rightarrow> bool \<Rightarrow>
     (rust_str + guest_decision) \<times> guest_requester" where
  "issue_request q s oper bytes urgent =
     (let now = smp_observed_unix_millis s in
      if now \<le> last_issued_unix_millis (rq_state q) then (Inr hold, set_reason ClockWatermark q)
      else if in_backoff q oper (smp_monotonic_millis s) urgent then (Inr hold, set_reason RetryBackoff q)
      else
        let q1 = set_reason (issue_reason q oper) q in
        case checked_add now (request_lifetime_millis (policy q)) of
          None \<Rightarrow> (Inl (lit ''memory request expiry overflowed''), q1)
        | Some expires \<Rightarrow>
            let r = \<lparr>req_version = MEMORY_REQUEST_VERSION,
                     identity = \<lparr>id_vm_name = rq_vm_name q, id_service_name = rq_service_name q,
                                 id_session_id = rq_session_id q, id_sequence = next_sequence q\<rparr>,
                     operation = oper, req_bytes = bytes,
                     issued_unix_millis = now, expires_unix_millis = expires\<rparr>
            in case validate_request r of
                 Inl err \<Rightarrow> (Inl err, q1)
               | Inr _ \<Rightarrow>
                   (case checked_add (next_sequence q) 1 of
                      None \<Rightarrow> (Inl (lit ''memory request sequence exhausted''), q1)
                    | Some n \<Rightarrow>
                        (Inr \<lparr>dec_request = Some r, persist = True, dec_resolved = None\<rparr>,
                         q1\<lparr>next_sequence := n,
                            rq_state := \<lparr>pending = Some r, last_issued_unix_millis = now\<rparr>\<rparr>)))"

definition poll ::
    "guest_requester \<Rightarrow> target_sample \<Rightarrow> host_memory_status option \<Rightarrow>
     (rust_str + guest_decision) \<times> guest_requester" where
  "poll q0 s status0 =
     (let newly_low = (smp_native_pressure s = Some Low \<and> \<not> native_low q0);
          newly_critical = (is_critical q0 s \<and> \<not> numeric_critical q0);
          q1 = observe_sample q0 s;
          status = valid_status q1 status0;
          fresh = fresh_status q1 s status
      in case poll_estimate q1 s fresh of
           (Inl err, q2) \<Rightarrow> (Inl err, q2)
         | (Inr estimated, q2) \<Rightarrow>
             (case pending (rq_state q2) of
                Some r \<Rightarrow>
                  (let (d, q3) = resolve_pending q2 r status (smp_monotonic_millis s) in (Inr d, q3))
              | None \<Rightarrow>
                  (case (fresh, estimated) of
                     (Some st, Some t0) \<Rightarrow>
                       let t = native_low_floor q2 st t0;
                           q3 = q2\<lparr>diagnostics := (diagnostics q2)\<lparr>diag_desired_bytes := Some (desired_bytes t)\<rparr>\<rparr>
                       in (case plan_request t (status_device st) (policy q2) of
                             Inl err \<Rightarrow> (Inl err, q3)
                           | Inr None \<Rightarrow> (Inr hold, set_reason (hold_reason q3 s st t) q3)
                           | Inr (Some (oper, bytes)) \<Rightarrow>
                               issue_request q3 s oper bytes (newly_low \<or> newly_critical))
                   | _ \<Rightarrow> (Inr hold, q2))))"

section \<open>Plans\<close>

lemma wf_guest_policy_lifetime:
  "validate_guest_policy p = Inr () \<Longrightarrow> 0 < request_lifetime_millis p \<and> unat (request_lifetime_millis p) \<le> 60000"
  by (auto simp: validate_guest_policy_def result_simps MAX_REQUEST_LIFETIME_MILLIS_def word_nat split: if_splits)

lemma plan_request_add:
  assumes "plan_request t d p = Inr (Some (Add, bytes))"
  shows "wf_device d" "requested_bytes d = current_bytes d" "current_bytes d < desired_bytes t"
    "bytes = desired_bytes t - current_bytes d"
  using assms by (auto simp: plan_request_def result_simps Let_def split: if_splits)

lemma plan_request_remove:
  assumes "plan_request t d p = Inr (Some (Remove, bytes))"
  shows "wf_device d" "requested_bytes d = current_bytes d" "desired_bytes t < current_bytes d"
    "history_ready t" "0 < bytes" "bytes \<le> shrink_step_bytes p"
    "unat (desired_bytes t) + unat bytes \<le> unat (current_bytes d)"
    "unat (safe_floor_bytes t) + unat bytes \<le> unat (current_bytes d)"
proof -
  define goal where
    "goal = max (max (saturating_sub (current_bytes d) (shrink_step_bytes p)) (desired_bytes t)) (safe_floor_bytes t)"
  have *: "wf_device d" "requested_bytes d = current_bytes d" "desired_bytes t < current_bytes d"
    "history_ready t" "goal < current_bytes d" "bytes = current_bytes d - goal"
    using assms by (auto simp: plan_request_def result_simps Let_def goal_def split: if_splits)
  show "wf_device d" "requested_bytes d = current_bytes d" "desired_bytes t < current_bytes d"
    "history_ready t" by (rule *)+
  have b: "unat bytes = unat (current_bytes d) - unat goal"
    using *(5,6) by (simp add: unat_sub)
  have goal: "unat (current_bytes d) - unat (shrink_step_bytes p) \<le> unat goal"
    "unat (desired_bytes t) \<le> unat goal" "unat (safe_floor_bytes t) \<le> unat goal"
    by (simp_all add: goal_def word_nat)
  have less: "unat goal < unat (current_bytes d)" using *(5) by (simp add: word_less_nat_alt)
  show "0 < bytes" unfolding word_less_nat_alt using b less by simp
  show "bytes \<le> shrink_step_bytes p" unfolding word_le_nat_alt using b goal(1) by linarith
  show "unat (desired_bytes t) + unat bytes \<le> unat (current_bytes d)" using b goal(2) less by linarith
  show "unat (safe_floor_bytes t) + unat bytes \<le> unat (current_bytes d)" using b goal(3) less by linarith
qed

section \<open>What a poll changes\<close>

lemma poll_estimate_fields:
  assumes "poll_estimate q s fresh = (r, q')"
  shows "rq_state q' = rq_state q" "policy q' = policy q" "rq_vm_name q' = rq_vm_name q"
    "rq_service_name q' = rq_service_name q" "rq_session_id q' = rq_session_id q"
    "next_sequence q' = next_sequence q" "retry q' = retry q" "native_low q' = native_low q"
  using assms
  by (auto simp: poll_estimate_def Let_def requester_invalidate_history_def
      split: option.splits prod.splits sum.splits if_splits)

lemma poll_estimate_Some:
  assumes "poll_estimate q s fresh = (Inr (Some t), q')"
  shows "\<exists>st est'. fresh = Some st \<and> st_requested_bytes st = st_current_bytes st
    \<and> estimate (estimator q) s (status_geometry st) = (Inr t, est') \<and> estimator q' = est'"
  using assms
  by (auto simp: poll_estimate_def Let_def converged_status_def filter_option_def
      split: option.splits prod.splits sum.splits if_splits)

lemma observe_sample_fields [simp]:
  "rq_state (observe_sample q s) = rq_state q" "policy (observe_sample q s) = policy q"
  "rq_vm_name (observe_sample q s) = rq_vm_name q" "rq_service_name (observe_sample q s) = rq_service_name q"
  "rq_session_id (observe_sample q s) = rq_session_id q" "next_sequence (observe_sample q s) = next_sequence q"
  "retry (observe_sample q s) = retry q" "estimator (observe_sample q s) = estimator q"
  "native_low (observe_sample q s) = (smp_native_pressure s = Some Low)"
  by (simp_all add: observe_sample_def)

lemma set_reason_fields [simp]:
  "rq_state (set_reason r q) = rq_state q" "policy (set_reason r q) = policy q"
  "retry (set_reason r q) = retry q" "estimator (set_reason r q) = estimator q"
  "next_sequence (set_reason r q) = next_sequence q"
  by (simp_all add: set_reason_def)

text \<open>An issued request advances the watermark and is well formed; anything else changes no request state.\<close>

lemma issue_request_outcomes:
  assumes "issue_request q s oper bytes urgent = (r, q')"
  obtains (Unchanged) "rq_state q' = rq_state q" "r = Inr hold \<or> (\<exists>err. r = Inl err)"
  | (Issued) req where
      "r = Inr \<lparr>dec_request = Some req, persist = True, dec_resolved = None\<rparr>"
      "rq_state q' = \<lparr>pending = Some req, last_issued_unix_millis = smp_observed_unix_millis s\<rparr>"
      "last_issued_unix_millis (rq_state q) < smp_observed_unix_millis s"
      "wf_request req" "issued_unix_millis req = smp_observed_unix_millis s"
      "operation req = oper" "req_bytes req = bytes"
      "id_vm_name (identity req) = rq_vm_name q" "id_service_name (identity req) = rq_service_name q"
      "id_session_id (identity req) = rq_session_id q" "id_sequence (identity req) = next_sequence q"
      "unat (next_sequence q') = unat (next_sequence q) + 1"
      "\<not> in_backoff q oper (smp_monotonic_millis s) urgent"
proof -
  have "(rq_state q' = rq_state q \<and> (r = Inr hold \<or> (\<exists>err. r = Inl err))) \<or>
    (\<exists>req. r = Inr \<lparr>dec_request = Some req, persist = True, dec_resolved = None\<rparr> \<and>
      rq_state q' = \<lparr>pending = Some req, last_issued_unix_millis = smp_observed_unix_millis s\<rparr> \<and>
      last_issued_unix_millis (rq_state q) < smp_observed_unix_millis s \<and>
      validate_request req = Inr () \<and> issued_unix_millis req = smp_observed_unix_millis s \<and>
      operation req = oper \<and> req_bytes req = bytes \<and>
      id_vm_name (identity req) = rq_vm_name q \<and> id_service_name (identity req) = rq_service_name q \<and>
      id_session_id (identity req) = rq_session_id q \<and> id_sequence (identity req) = next_sequence q \<and>
      checked_add (next_sequence q) 1 = Some (next_sequence q') \<and>
      \<not> in_backoff q oper (smp_monotonic_millis s) urgent)"
    using assms by (auto simp: issue_request_def Let_def not_le split: if_splits option.splits sum.splits)
  then show thesis
    using Unchanged Issued checked_add_Some [of "next_sequence q" 1 "next_sequence q'"]
    unfolding validate_request_ok by auto
qed

lemma filter_option_Some: "filter_option f v = Some x \<longleftrightarrow> v = Some x \<and> f x"
  by (auto simp: filter_option_def split: option.splits)

lemma native_low_floor_observed:
  "native_low q' = (smp_native_pressure s = Some Low) \<Longrightarrow> policy q' = policy q \<Longrightarrow>
   native_low_floor q' st t = native_low_floor (observe_sample q s) st t"
  by (simp add: native_low_floor_def)

lemma resolve_pending_outcomes:
  assumes "resolve_pending q p status monotonic = (d, q')"
  shows "(matching_result p status = None \<and> d = \<lparr>dec_request = Some p, persist = False, dec_resolved = None\<rparr>
      \<and> rq_state q' = rq_state q)
    \<or> (\<exists>x. matching_result p status = Some x \<and> d = \<lparr>dec_request = None, persist = True, dec_resolved = Some x\<rparr>
      \<and> rq_state q' = (rq_state q)\<lparr>pending := None\<rparr>)"
  using assms by (cases "matching_result p status") (auto simp: resolve_pending_def Let_def)

lemma matching_result_Some:
  "matching_result p status = Some x \<longleftrightarrow> (\<exists>st. status = Some st \<and> st_result st = Some x \<and> request x = p \<and> terminal x)"
  by (auto simp: matching_result_def filter_option_Some split: option.splits)

lemma valid_status_Some:
  "valid_status q status = Some st \<longleftrightarrow>
     status = Some st \<and> validate_status_for st (rq_vm_name q) (rq_service_name q) = Inr ()"
  by (auto simp: valid_status_def filter_option_Some is_ok_unit)

text \<open>
  The five ways a poll ends. Only consuming a result or issuing a request changes the retained state.
\<close>

lemma poll_outcomes:
  assumes poll: "poll q s status = (r, q')"
  obtains (Error) err where "r = Inl err" "rq_state q' = rq_state q"
  | (Hold) "r = Inr hold" "rq_state q' = rq_state q" "pending (rq_state q) = None"
  | (Retransmit) p where "pending (rq_state q) = Some p" "rq_state q' = rq_state q"
      "r = Inr \<lparr>dec_request = Some p, persist = False, dec_resolved = None\<rparr>"
      "matching_result p (valid_status q status) = None"
  | (Consume) p x where "pending (rq_state q) = Some p" "matching_result p (valid_status q status) = Some x"
      "r = Inr \<lparr>dec_request = None, persist = True, dec_resolved = Some x\<rparr>"
      "rq_state q' = (rq_state q)\<lparr>pending := None\<rparr>"
  | (Issue) st t est' req where "pending (rq_state q) = None" "valid_status q status = Some st"
      "fresh_at st (smp_observed_unix_millis s) (host_status_max_age_millis (policy q))"
      "st_requested_bytes st = st_current_bytes st"
      "estimate (estimator q) s (status_geometry st) = (Inr t, est')"
      "plan_request (native_low_floor (observe_sample q s) st t) (status_device st) (policy q)
         = Inr (Some (operation req, req_bytes req))"
      "r = Inr \<lparr>dec_request = Some req, persist = True, dec_resolved = None\<rparr>"
      "rq_state q' = \<lparr>pending = Some req, last_issued_unix_millis = smp_observed_unix_millis s\<rparr>"
      "last_issued_unix_millis (rq_state q) < smp_observed_unix_millis s"
      "wf_request req" "issued_unix_millis req = smp_observed_unix_millis s"
      "id_vm_name (identity req) = rq_vm_name q" "id_service_name (identity req) = rq_service_name q"
      "id_session_id (identity req) = rq_session_id q" "id_sequence (identity req) = next_sequence q"
      "unat (next_sequence q') = unat (next_sequence q) + 1"
proof -
  define q1 where "q1 = observe_sample q s"
  define fresh where "fresh = fresh_status q1 s (valid_status q status)"
  have vs: "valid_status (observe_sample q s) status = valid_status q status"
    by (simp add: valid_status_def)
  obtain er q2 where pe: "poll_estimate q1 s fresh = (er, q2)" by (cases "poll_estimate q1 s fresh")
  note f = poll_estimate_fields [OF pe]
  show thesis
  proof (cases er)
    case (Inl err)
    then have "r = Inl err" "q' = q2" using poll pe by (simp_all add: poll_def Let_def q1_def fresh_def vs)
    then show thesis using f by (intro Error) (simp_all add: q1_def)
  next
    case er: (Inr estimated)
    show thesis
    proof (cases "pending (rq_state q)")
      case (Some p)
      then have "pending (rq_state q2) = Some p" using f(1) by (simp add: q1_def)
      then obtain d where d: "resolve_pending q2 p (valid_status q status) (smp_monotonic_millis s) = (d, q')" "r = Inr d"
        using poll er pe by (auto simp: poll_def Let_def q1_def fresh_def vs split: prod.splits)
      from resolve_pending_outcomes [OF d(1)] show thesis
        using Retransmit [OF Some] Consume [OF Some] d(2) f(1) by (auto simp: q1_def)
    next
      case None
      then have none: "pending (rq_state q2) = None" using f(1) by (simp add: q1_def)
      show thesis
      proof (cases "\<exists>st t. fresh = Some st \<and> estimated = Some t")
        case False
        then have "r = Inr hold" "q' = q2" using poll pe er none
          by (auto simp: poll_def Let_def q1_def fresh_def vs split: option.splits)
        then show thesis using Hold None f(1) by (simp add: q1_def)
      next
        case True
        then obtain st t where st: "fresh = Some st" and t: "estimated = Some t" by blast
        let ?t = "native_low_floor q2 st t"
        let ?q3 = "q2\<lparr>diagnostics := (diagnostics q2)\<lparr>diag_desired_bytes := Some (desired_bytes ?t)\<rparr>\<rparr>"
        have floor: "?t = native_low_floor (observe_sample q s) st t"
          using f(2,8) by (intro native_low_floor_observed) (simp_all add: q1_def)
        have run: "poll q s status = (case plan_request ?t (status_device st) (policy q2) of
              Inl err \<Rightarrow> (Inl err, ?q3)
            | Inr None \<Rightarrow> (Inr hold, set_reason (hold_reason ?q3 s st ?t) ?q3)
            | Inr (Some (oper, bytes)) \<Rightarrow> issue_request ?q3 s oper bytes
                ((smp_native_pressure s = Some Low \<and> \<not> native_low q) \<or> (is_critical q s \<and> \<not> numeric_critical q)))"
          using pe er none st t
          by (simp add: poll_def Let_def q1_def fresh_def vs)
        have q3: "rq_state ?q3 = rq_state q" "policy q2 = policy q" using f by (simp_all add: q1_def)
        show thesis
        proof (cases "plan_request ?t (status_device st) (policy q2)")
          case (Inl err)
          then have "r = Inl err" "q' = ?q3" using poll run by auto
          then show thesis using q3(1) by (intro Error) auto
        next
          case plan: (Inr o')
          show thesis
          proof (cases o')
            case no: None
            then have "r = Inr hold" "rq_state q' = rq_state q" using poll run plan q3(1) by auto
            then show thesis using Hold None by blast
          next
            case (Some ob)
            obtain oper bytes where ob: "ob = (oper, bytes)" by (cases ob)
            let ?urgent = "(smp_native_pressure s = Some Low \<and> \<not> native_low q) \<or> (is_critical q s \<and> \<not> numeric_critical q)"
            have iss: "issue_request ?q3 s oper bytes ?urgent = (r, q')"
              using poll run plan Some ob by simp
            have fr: "valid_status q status = Some st"
              "fresh_at st (smp_observed_unix_millis s) (host_status_max_age_millis (policy q))"
              using st unfolding fresh_def by (auto simp: fresh_status_def filter_option_Some q1_def)
            obtain est' where es: "st_requested_bytes st = st_current_bytes st"
              "estimate (estimator q) s (status_geometry st) = (Inr t, est')"
              using poll_estimate_Some [of q1 s fresh t q2] pe er t st by (auto simp: q1_def)
            from iss show thesis
            proof (cases rule: issue_request_outcomes)
              case Unchanged
              then show ?thesis using Hold [OF _ _ None] Error q3(1) by metis
            next
              case (Issued req)
              show ?thesis
                by (rule Issue [OF None fr es])
                  (use Issued plan Some ob floor f in \<open>simp_all add: q1_def\<close>)
            qed
          qed
        qed
      qed
    qed
  qed
qed

section \<open>Histories of polls and restarts\<close>

text \<open>
  A service restart builds a new requester, with a new session, from the retained state; a failed
  start leaves that state as it was.
\<close>

datatype guest_op =
    Poll target_sample "host_memory_status option"
  | Restart guest_memory_policy rust_str
  | ChangeLimits u64 u64
  | DiscardHistory

fun guest_step :: "guest_requester \<Rightarrow> guest_op \<Rightarrow> memory_request log_event \<times> guest_requester" where
  "guest_step q (Poll s status) =
     (case poll q s status of
        (Inl _, q') \<Rightarrow> (Refused, q')
      | (Inr d, q') \<Rightarrow>
          (case dec_resolved d of
             Some x \<Rightarrow> (Resolved (request x), q')
           | None \<Rightarrow>
               (case dec_request d of
                  None \<Rightarrow> (Refused, q')
                | Some r \<Rightarrow> (if persist d then Admitted r else Replayed r, q'))))"
| "guest_step q (Restart p session) =
     (case new_requester p (rq_vm_name q) (rq_service_name q) session (rq_state q) of
        Inl _ \<Rightarrow> (Refused, q)
      | Inr q' \<Rightarrow> (Refused, q'))"
| "guest_step q (ChangeLimits a b) = (Refused, snd (requester_set_ram_limits q a b))"
| "guest_step q DiscardHistory = (Refused, requester_invalidate_history q)"

lemma new_requester_state: "new_requester p vm service session st = Inr q \<Longrightarrow> rq_state q = st"
  by (auto simp: new_requester_def result_simps split: if_splits)

lemma guest_poll_events:
  assumes "guest_step q (Poll s status) = (e, q')"
  obtains (Quiet) "e = Refused \<or> (\<exists>r. e = Replayed r \<and> pending (rq_state q) = Some r)" "rq_state q' = rq_state q"
  | (Closed) x :: memory_result where "e = Resolved (request x)" "pending (rq_state q) = Some (request x)"
      "rq_state q' = (rq_state q)\<lparr>pending := None\<rparr>"
  | (Opened) r where "e = Admitted r" "pending (rq_state q) = None"
      "rq_state q' = \<lparr>pending = Some r, last_issued_unix_millis = issued_unix_millis r\<rparr>"
      "last_issued_unix_millis (rq_state q) < issued_unix_millis r"
proof -
  obtain r q1 where poll: "poll q s status = (r, q1)" by (cases "poll q s status")
  from poll show thesis
  proof (cases rule: poll_outcomes)
    case (Error err)
    then show ?thesis using Quiet assms poll by simp
  next
    case Hold
    then show ?thesis using Quiet assms poll by (simp add: hold_def)
  next
    case (Retransmit p)
    then show ?thesis using Quiet assms poll by simp
  next
    case (Consume p x)
    then show ?thesis using Closed [of x] assms poll by (auto simp: matching_result_Some)
  next
    case (Issue st t est' req)
    then show ?thesis using Opened [of req] assms poll by simp
  qed
qed

lemma guest_other_events:
  assumes "guest_step q p = (e, q')" and "\<And>s status. p \<noteq> Poll s status"
  shows "e = Refused \<and> rq_state q' = rq_state q"
  using assms
  by (cases p)
    (auto simp: requester_set_ram_limits_def requester_invalidate_history_def
      split: sum.splits prod.splits dest: new_requester_state)

text \<open>The guest meets the same contract as the host's journal.\<close>

interpretation guest: admission_log guest_step "\<lambda>q. pending (rq_state q)"
    "\<lambda>q. unat (last_issued_unix_millis (rq_state q))" "\<lambda>r. unat (issued_unix_millis r)"
proof (unfold_locales, goal_cases)
  case (1 q p r q')
  then obtain s status where p: "p = Poll s status" using guest_other_events by (cases p) fastforce+
  from 1 [unfolded p] show ?case
    by (cases rule: guest_poll_events) (auto simp: word_less_nat_alt)
next
  case (2 q p r q')
  then obtain s status where p: "p = Poll s status" using guest_other_events by (cases p) fastforce+
  from 2 [unfolded p] show ?case by (cases rule: guest_poll_events) auto
next
  case (3 q p e q')
  show ?case
  proof (cases "\<exists>s status. p = Poll s status")
    case True
    then obtain s status where p: "p = Poll s status" by blast
    from 3(1) [unfolded p] show ?thesis using 3(2) by (cases rule: guest_poll_events) auto
  next
    case False
    then show ?thesis using guest_other_events [OF 3(1)] by auto
  qed
qed

lemma native_low_floor_bounds:
  "desired_bytes t \<le> effective_maximum_bytes t \<Longrightarrow>
     desired_bytes t \<le> desired_bytes (native_low_floor q st t)
     \<and> desired_bytes (native_low_floor q st t) \<le> effective_maximum_bytes t"
  "history_ready (native_low_floor q st t) = history_ready t"
  "safe_floor_bytes (native_low_floor q st t) = safe_floor_bytes t"
  by (auto simp: native_low_floor_def)

lemma status_device_fields [simp]:
  "size_bytes (status_device st) = st_device_size_bytes st"
  "block_size_bytes (status_device st) = st_block_size_bytes st"
  "current_bytes (status_device st) = st_current_bytes st"
  "requested_bytes (status_device st) = st_requested_bytes st"
  by (simp_all add: status_device_def)

lemma status_geometry_fields [simp]:
  "geo_device_size_bytes (status_geometry st) = st_device_size_bytes st"
  "geo_current_bytes (status_geometry st) = st_current_bytes st"
  by (simp_all add: status_geometry_def)

text \<open>What a planned delta does to the device and the guest's total memory.\<close>

definition visible_base :: "target_sample \<Rightarrow> host_memory_status \<Rightarrow> nat" where
  "visible_base s st = unat (physical_total_bytes (smp_memory s)) - unat (st_current_bytes st)"

lemma planned_add_bounds:
  assumes est: "estimate e s (status_geometry st) = (Inr t, e')"
    and plan: "plan_request (native_low_floor q st t) (status_device st) p = Inr (Some (Add, bytes))"
  shows "0 < bytes \<and> unat (st_current_bytes st) + unat bytes \<le> unat (st_device_size_bytes st)
    \<and> visible_base s st + unat (st_current_bytes st) + unat bytes \<le> unat (max_ram e)"
proof -
  let ?d = "desired_bytes (native_low_floor q st t)"
  note b = estimate_bounded [OF est]
  note a = plan_request_add [OF plan]
  have eff: "?d \<le> effective_maximum_bytes t" using b native_low_floor_bounds(1) by blast
  have bytes: "unat bytes = unat ?d - unat (st_current_bytes st)" "unat (st_current_bytes st) < unat ?d"
    using a(3,4) by (simp_all add: unat_sub less_imp_le) (simp add: word_less_nat_alt)
  have "visible_base s st + unat (effective_maximum_bytes t) \<le> unat (max_ram e)"
    using estimate_limit [OF est] by (simp add: visible_base_def)
  moreover have "unat (effective_maximum_bytes t) \<le> unat (st_device_size_bytes st)"
    using b by (simp add: word_le_nat_alt)
  ultimately show ?thesis
    using bytes eff by (auto simp: word_le_nat_alt word_less_nat_alt)
qed

lemma planned_remove_bounds:
  assumes est: "estimate e s (status_geometry st) = (Inr t, e')"
    and plan: "plan_request (native_low_floor q st t) (status_device st) p = Inr (Some (Remove, bytes))"
  shows "history_ready t \<and> 0 < bytes \<and> bytes \<le> shrink_step_bytes p
    \<and> unat (desired_bytes t) + unat bytes \<le> unat (st_current_bytes st)
    \<and> unat (safe_floor_bytes t) + unat bytes \<le> unat (st_current_bytes st)
    \<and> unat (min_ram e) + unat bytes \<le> visible_base s st + unat (st_current_bytes st)"
proof -
  note b = estimate_bounded [OF est]
  note r = plan_request_remove [OF plan]
  have "unat (desired_bytes t) \<le> unat (desired_bytes (native_low_floor q st t))"
    using b native_low_floor_bounds(1) by (simp add: word_le_nat_alt)
  then have d: "unat (desired_bytes t) + unat bytes \<le> unat (st_current_bytes st)" using r(7) by simp
  have "unat (min_ram e) \<le> visible_base s st + unat (desired_bytes t)"
    using b by (simp add: visible_base_def)
  then have "unat (min_ram e) + unat bytes \<le> visible_base s st + unat (st_current_bytes st)"
    using d by linarith
  then show ?thesis using r d by (simp add: native_low_floor_bounds)
qed

section \<open>Properties\<close>

text \<open>
  C9. Over every history of polls, limit changes, discarded histories and service restarts the guest
  issues requests with strictly increasing issuance times, none twice, and between issuing one and
  the next it has consumed the terminal result of the first.
\<close>

theorem guest_issues_in_order:
  assumes "run_log guest_step ops q = (events, q')"
  shows "sorted_wrt (\<lambda>r r'. issued_unix_millis r < issued_unix_millis r') (admissions events)
    \<and> distinct (admissions events)
    \<and> (\<forall>xs p ys r zs. events = xs @ Admitted p # ys @ Admitted r # zs \<longrightarrow> Resolved p \<in> set ys)"
proof (intro conjI allI impI)
  have sorted: "sorted_wrt (\<lambda>r r'. unat (issued_unix_millis r) < unat (issued_unix_millis r')) (admissions events)"
    by (rule guest.admissions_increasing [OF assms])
  then show "sorted_wrt (\<lambda>r r'. issued_unix_millis r < issued_unix_millis r') (admissions events)"
    by (simp add: word_less_nat_alt)
  show "distinct (admissions events)" by (rule increasing_distinct [OF sorted])
next
  fix xs p ys r zs
  assume "events = xs @ Admitted p # ys @ Admitted r # zs"
  then show "Resolved p \<in> set ys" by (rule guest.resolved_between [OF assms])
qed


text \<open>
  C13. A new request is issued only when none is pending and the host published a valid, fresh status
  of a converged device. It is well formed, newer than every request before it, and its delta is
  safe: an addition keeps the device within its size and the guest within \<open>max_ram\<close>; a removal has a
  qualified history behind it, is at most one shrink step, and keeps the device above the estimated
  need and the safe floor and the guest above \<open>min_ram\<close>.
\<close>

theorem new_request_is_safe:
  assumes "poll q s status = (Inr d, q')" and "dec_request d = Some r" and "persist d"
  shows "pending (rq_state q) = None \<and> wf_request r
    \<and> last_issued_unix_millis (rq_state q) < issued_unix_millis r
    \<and> rq_state q' = \<lparr>pending = Some r, last_issued_unix_millis = issued_unix_millis r\<rparr>
    \<and> (\<exists>st t. status = Some st \<and> validate_status_for st (rq_vm_name q) (rq_service_name q) = Inr ()
        \<and> fresh_at st (smp_observed_unix_millis s) (host_status_max_age_millis (policy q))
        \<and> st_requested_bytes st = st_current_bytes st
        \<and> fst (estimate (estimator q) s (status_geometry st)) = Inr t
        \<and> (case operation r of
             Add \<Rightarrow>
               unat (st_current_bytes st) + unat (req_bytes r) \<le> unat (st_device_size_bytes st)
               \<and> visible_base s st + unat (st_current_bytes st) + unat (req_bytes r) \<le> unat (max_ram (estimator q))
           | Remove \<Rightarrow>
               history_ready t \<and> req_bytes r \<le> shrink_step_bytes (policy q)
               \<and> unat (desired_bytes t) + unat (req_bytes r) \<le> unat (st_current_bytes st)
               \<and> unat (safe_floor_bytes t) + unat (req_bytes r) \<le> unat (st_current_bytes st)
               \<and> unat (min_ram (estimator q)) + unat (req_bytes r) \<le> visible_base s st + unat (st_current_bytes st)))"
  using assms(1)
proof (cases rule: poll_outcomes)
  case (Issue st t est' req)
  then have r: "r = req" using assms(2) by simp
  have bounds: "case operation r of
             Add \<Rightarrow>
               unat (st_current_bytes st) + unat (req_bytes r) \<le> unat (st_device_size_bytes st)
               \<and> visible_base s st + unat (st_current_bytes st) + unat (req_bytes r) \<le> unat (max_ram (estimator q))
           | Remove \<Rightarrow>
               history_ready t \<and> req_bytes r \<le> shrink_step_bytes (policy q)
               \<and> unat (desired_bytes t) + unat (req_bytes r) \<le> unat (st_current_bytes st)
               \<and> unat (safe_floor_bytes t) + unat (req_bytes r) \<le> unat (st_current_bytes st)
               \<and> unat (min_ram (estimator q)) + unat (req_bytes r) \<le> visible_base s st + unat (st_current_bytes st)"
    using planned_add_bounds [OF Issue(5)] planned_remove_bounds [OF Issue(5)] Issue(6) r
    by (cases "operation req") auto
  show ?thesis
    using Issue bounds by (auto simp: r valid_status_Some intro!: exI [of _ st] exI [of _ t])
qed (use assms(2,3) in \<open>auto simp: hold_def\<close>)

section \<open>A concrete guest\<close>

definition sample_guest_policy :: guest_memory_policy where
  "sample_guest_policy =
     \<lparr>target = sample_policy, grow_step_bytes = 268435456, shrink_step_bytes = 268435456,
      host_status_max_age_millis = 30000, request_lifetime_millis = 30000\<rparr>"

definition sample_requester :: guest_requester where
  "sample_requester =
     \<lparr>policy = sample_guest_policy, estimator = sample_estimator,
      rq_state = \<lparr>pending = None, last_issued_unix_millis = 0\<rparr>,
      rq_vm_name = lit ''win11'', rq_service_name = lit ''VirtioMem'', rq_session_id = lit ''s1'',
      next_sequence = 0, retry = None, retry_delay_millis = 0, native_low = False,
      numeric_critical = False, diagnostics = default_diagnostics\<rparr>"

definition sample_status :: "u64 \<Rightarrow> memory_result option \<Rightarrow> host_memory_status" where
  "sample_status now x =
     \<lparr>st_version = 1, st_vm_name = lit ''win11'', st_service_name = lit ''VirtioMem'',
      st_device_alias = lit ''virtiomem0'', st_observed_unix_millis = now,
      st_device_size_bytes = 8589934592, st_block_size_bytes = 2097152,
      st_requested_bytes = 2147483648, st_current_bytes = 2147483648, st_result = x\<rparr>"

definition sample_issued :: memory_request where
  "sample_issued =
     \<lparr>req_version = 1,
      identity = \<lparr>id_vm_name = lit ''win11'', id_service_name = lit ''VirtioMem'',
                  id_session_id = lit ''s1'', id_sequence = 0\<rparr>,
      operation = Add, req_bytes = 536870912,
      issued_unix_millis = 1005000, expires_unix_millis = 1035000\<rparr>"

definition sample_completed :: memory_result where
  "sample_completed =
     \<lparr>request = sample_issued, outcome = Completed, actual_bytes = 536870912,
      result_observed_unix_millis = 1010000, reason = None\<rparr>"

lemma sample_poll_issues:
  "fst (poll sample_requester (sample_telemetry 5000) (Some (sample_status 1004000 None)))
    = Inr \<lparr>dec_request = Some sample_issued, persist = True, dec_resolved = None\<rparr>"
  by code_simp

theorem new_request_is_safe_witness:
  "\<exists>d q'. poll sample_requester (sample_telemetry 5000) (Some (sample_status 1004000 None)) = (Inr d, q')
     \<and> dec_request d = Some sample_issued \<and> rq_state q' = \<lparr>pending = Some sample_issued, last_issued_unix_millis = 1005000\<rparr>"
proof -
  let ?x = "poll sample_requester (sample_telemetry 5000) (Some (sample_status 1004000 None))"
  let ?d = "\<lparr>dec_request = Some sample_issued, persist = True, dec_resolved = None\<rparr>"
  have x: "?x = (Inr ?d, snd ?x)" using sample_poll_issues by (metis prod.collapse)
  have "rq_state (snd ?x) = \<lparr>pending = Some sample_issued, last_issued_unix_millis = issued_unix_millis sample_issued\<rparr>"
    using new_request_is_safe [OF x, of sample_issued] by simp
  moreover have "issued_unix_millis sample_issued = 1005000" by (simp add: sample_issued_def)
  ultimately show ?thesis using x by (intro exI [of _ ?d] exI [of _ "snd ?x"]) simp
qed


text \<open>Two polls with the result of the first between them.\<close>

theorem guest_issues_in_order_witness:
  "fst (run_log guest_step
      [Poll (sample_telemetry 5000) (Some (sample_status 1004000 None)),
       Poll (sample_telemetry 15000) (Some (sample_status 1014000 (Some sample_completed)))] sample_requester)
    = [Admitted sample_issued, Resolved sample_issued] \<and> distinct [sample_issued]"
proof -
  let ?ops = "[Poll (sample_telemetry 5000) (Some (sample_status 1004000 None)),
       Poll (sample_telemetry 15000) (Some (sample_status 1014000 (Some sample_completed)))]"
  have es: "fst (run_log guest_step ?ops sample_requester)
    = [Admitted sample_issued, Resolved sample_issued]" by code_simp
  have run: "run_log guest_step ?ops sample_requester
      = (fst (run_log guest_step ?ops sample_requester), snd (run_log guest_step ?ops sample_requester))" by simp
  show ?thesis using guest_issues_in_order [OF run] es by simp
qed

end
