(* ===== verification/Windows_Service_Config.thy ===== *)
theory Windows_Service_Config
  imports Guest_Policy
begin

text \<open>
  The Windows service's configuration file, \<open>windows_service_config.rs\<close>, with its normal form for
  Windows paths. Lower-casing a path component uses the Unicode case tables of the standard library;
  it is a parameter \<open>lower\<close> of the definitions, and no theorem assumes more of it than it states.
\<close>

section \<open>Windows paths\<close>

definition is_separator :: "rust_char \<Rightarrow> bool" where
  "is_separator c \<longleftrightarrow> c = 92"

definition reserved_names :: "rust_str list" where
  "reserved_names =
     map lit [''CON'', ''PRN'', ''AUX'', ''NUL'',
       ''COM1'', ''COM2'', ''COM3'', ''COM4'', ''COM5'', ''COM6'', ''COM7'', ''COM8'', ''COM9'',
       ''LPT1'', ''LPT2'', ''LPT3'', ''LPT4'', ''LPT5'', ''LPT6'', ''LPT7'', ''LPT8'', ''LPT9'']"

definition ambiguous_part :: "rust_str \<Rightarrow> bool" where
  "ambiguous_part part \<longleftrightarrow>
     part = lit ''..''
     \<or> part \<noteq> [] \<and> (last part = 46 \<or> last part = 32)
     \<or> list_ex (\<lambda>c. c \<in> set (lit '':\"<>|?*'')) part
     \<or> to_ascii_uppercase (hd (split_on (\<lambda>c. c = 46) part)) \<in> set reserved_names"

fun normalize_parts :: "(rust_str \<Rightarrow> rust_str) \<Rightarrow> rust_str list \<Rightarrow> rust_str + rust_str list" where
  "normalize_parts lower [] = Inr []"
| "normalize_parts lower (part # parts) =
     (if part = lit ''.'' \<or> part = [] then normalize_parts lower parts
      else if ambiguous_part part
        then Inl (lit ''path contains an ambiguous or reserved Windows component'')
      else and_then (normalize_parts lower parts) (\<lambda>ps. Inr (lower part # ps)))"

definition normalize_windows_path :: "(rust_str \<Rightarrow> rust_str) \<Rightarrow> rust_str \<Rightarrow> rust_str + rust_str" where
  "normalize_windows_path lower value =
     (let path = map (\<lambda>c. if c = 47 then 92 else c) value in
      case path of
        c0 # c1 # c2 # rest \<Rightarrow>
          if list_ex is_control value \<or> str_len path < 4 \<or> \<not> is_ascii_alphabetic c0
             \<or> c1 \<noteq> 58 \<or> c2 \<noteq> 92
          then Inl (lit ''path must be an absolute Windows drive path without control characters'')
          else
            and_then (normalize_parts lower (split_on is_separator rest)) (\<lambda>parts.
              if parts = [] then Inl (lit ''path must name a file'')
              else Inr ([char_to_ascii_lowercase c0, 58, 92] @ join [92] parts))
      | _ \<Rightarrow> Inl (lit ''path must be an absolute Windows drive path without control characters''))"

section \<open>The configuration file\<close>

definition WINDOWS_SERVICE_CONFIG_SCHEMA_VERSION :: u32 where
  "WINDOWS_SERVICE_CONFIG_SCHEMA_VERSION = 8"

record windows_service_config_file =
  schema_version :: u32
  wsc_vm_name :: rust_str
  wsc_service_name :: rust_str
  display_name :: rust_str
  description :: rust_str
  demand_report_path :: rust_str
  wsc_service_account :: rust_str
  poll_interval_millis :: u64
  shutdown_timeout_millis :: u64
  wsc_policy :: guest_memory_policy
  wsc_min_ram :: u64
  wsc_max_ram :: u64
  wsc_telemetry_path :: "rust_str option"

definition validate_ram_limits :: "u64 \<Rightarrow> u64 \<Rightarrow> rust_str + unit" where
  "validate_ram_limits minimum maximum =
     (if minimum = 0 \<or> maximum < minimum
        then Inl (lit ''min_ram must be positive and no greater than max_ram (total guest RAM)'')
      else if \<not> is_multiple_of minimum MIN_BLOCK_SIZE_BYTES \<or> \<not> is_multiple_of maximum MIN_BLOCK_SIZE_BYTES
        then Inl (lit ''min_ram and max_ram must be multiples of '' @ show_u64 MIN_BLOCK_SIZE_BYTES
                  @ lit '' bytes; live device limits are aligned to its block size'')
      else Inr ())"

definition U32_MAX :: u64 where
  "U32_MAX = 4294967295"

definition validate_service_config ::
    "(rust_str \<Rightarrow> rust_str) \<Rightarrow> windows_service_config_file \<Rightarrow> rust_str + unit" where
  "validate_service_config lower f =
     (if schema_version f \<noteq> WINDOWS_SERVICE_CONFIG_SCHEMA_VERSION
        then Inl (lit ''unsupported configuration schema version: '' @ show_word (schema_version f))
      else if list_ex (\<lambda>v. trim v = [] \<or> list_ex is_control v)
          [wsc_vm_name f, wsc_service_name f, display_name f, description f, wsc_service_account f]
        then Inl (lit ''configuration strings must be nonempty and contain no control characters'')
      else if \<not> valid_identity (wsc_vm_name f) \<or> \<not> valid_identity (wsc_service_name f)
          \<or> list_ex (\<lambda>c. c = 47 \<or> c = 92) (wsc_service_name f)
        then Inl (lit ''VM/service identity must be ASCII of at most 128 bytes; service names cannot contain slashes'')
      else
        and_then (normalize_windows_path lower (demand_report_path f)) (\<lambda>_.
          if list_ex (\<lambda>m. m = 0 \<or> U32_MAX \<le> m) [poll_interval_millis f, shutdown_timeout_millis f]
            then Inl (lit ''configuration timing is zero or too large'')
          else
            and_then (validate_ram_limits (wsc_min_ram f) (wsc_max_ram f)) (\<lambda>_.
              validate_guest_policy (wsc_policy f))))"

definition validate_paths ::
    "(rust_str \<Rightarrow> rust_str) \<Rightarrow> windows_service_config_file \<Rightarrow> rust_str \<Rightarrow> rust_str + unit" where
  "validate_paths lower f config_path =
     and_then (normalize_windows_path lower config_path) (\<lambda>config.
     and_then
       (case wsc_telemetry_path f of
          None \<Rightarrow> Inr ()
        | Some path \<Rightarrow>
            and_then (normalize_windows_path lower path) (\<lambda>telemetry.
            and_then (normalize_windows_path lower (demand_report_path f)) (\<lambda>control.
              if telemetry = config \<or> telemetry = control \<or> starts_with telemetry (control @ lit ''.'')
              then Inl (lit ''optional telemetry collides with configuration or control files'')
              else Inr ())))
       (\<lambda>_. and_then (normalize_windows_path lower (demand_report_path f)) (\<lambda>report.
         if config = report \<or> starts_with config (report @ lit ''.'')
         then Inl (lit ''configuration path collides with the telemetry publication or its derived files'')
         else Inr ())))"

section \<open>Normal forms\<close>

lemma split_join:
  assumes "ws \<noteq> []" and "\<forall>w\<in>set ws. \<not> list_ex p w" and "p c"
  shows "split_on p (join [c] ws) = ws"
proof -
  have append: "split_on p (w @ c # s) = w # split_on p s" if "\<not> list_ex p w" for w s
    using that assms(3) by (induction w) auto
  show ?thesis
    using assms(1,2)
  proof (induction ws rule: induct_list012)
    case (2 w)
    then show ?case by (simp add: split_on_none)
  next
    case (3 w v ws)
    then show ?case using append [of w "join [c] (v # ws)"] by simp
  qed simp
qed

lemma normalize_parts_ok:
  "normalize_parts lower parts = Inr ps \<longleftrightarrow>
     ps = map lower (filter (\<lambda>p. p \<noteq> lit ''.'' \<and> p \<noteq> []) parts)
     \<and> (\<forall>p\<in>set parts. p \<noteq> lit ''.'' \<and> p \<noteq> [] \<longrightarrow> \<not> ambiguous_part p)"
  by (induction lower parts arbitrary: ps rule: normalize_parts.induct) (auto simp: result_simps)

text \<open>
  A lower-casing is \<open>stable\<close> when it repeats itself and keeps an unambiguous component unambiguous
  and without separators, which is what the Unicode tables give for the components a path may have.
\<close>

definition stable_lower :: "(rust_str \<Rightarrow> rust_str) \<Rightarrow> bool" where
  "stable_lower lower \<longleftrightarrow>
     (\<forall>p. lower (lower p) = lower p)
     \<and> (\<forall>p. p \<noteq> [] \<and> p \<noteq> lit ''.'' \<and> \<not> ambiguous_part p \<and> \<not> list_ex is_separator p
            \<and> \<not> list_ex is_control p \<and> 47 \<notin> set p \<longrightarrow>
          lower p \<noteq> [] \<and> lower p \<noteq> lit ''.'' \<and> \<not> ambiguous_part (lower p)
          \<and> \<not> list_ex is_separator (lower p) \<and> \<not> list_ex is_control (lower p) \<and> 47 \<notin> set (lower p))"

lemma normalize_ok:
  assumes "normalize_windows_path lower value = Inr n"
  obtains c0 rest parts where
    "map (\<lambda>c. if c = 47 then 92 else c) value = c0 # 58 # 92 # rest" "is_ascii_alphabetic c0"
    "\<not> list_ex is_control value" "normalize_parts lower (split_on is_separator rest) = Inr parts" "parts \<noteq> []"
    "n = [char_to_ascii_lowercase c0, 58, 92] @ join [92] parts"
  using assms
  by (auto simp: normalize_windows_path_def Let_def result_simps split: list.splits if_splits)

lemma normal_form_parts:
  assumes norm: "normalize_windows_path lower value = Inr n" and stable: "stable_lower lower"
  obtains c ps where "n = [c, 58, 92] @ join [92] ps" "is_ascii_alphabetic c" "char_to_ascii_lowercase c = c"
    "ps \<noteq> []" "\<forall>p\<in>set ps. lower p = p \<and> p \<noteq> [] \<and> p \<noteq> lit ''.'' \<and> \<not> ambiguous_part p
        \<and> \<not> list_ex is_separator p \<and> \<not> list_ex is_control p \<and> 47 \<notin> set p"
proof -
  obtain c0 rest parts where path: "map (\<lambda>c. if c = 47 then 92 else c) value = c0 # 58 # 92 # rest"
    and c0: "is_ascii_alphabetic c0" and ctl: "\<not> list_ex is_control value"
    and parts: "normalize_parts lower (split_on is_separator rest) = Inr parts" "parts \<noteq> []"
    and n: "n = [char_to_ascii_lowercase c0, 58, 92] @ join [92] parts"
    by (rule normalize_ok [OF norm]) (rule that)
  have chars: "\<not> is_control c \<and> c \<noteq> 47" if "c \<in> set rest" for c
  proof -
    have "c \<in> set (map (\<lambda>c. if c = 47 then 92 else c) value)" unfolding path using that by simp
    then show ?thesis using ctl by (auto simp: list_ex_iff is_control_def split: if_splits)
  qed
  have "lower p = p \<and> p \<noteq> [] \<and> p \<noteq> lit ''.'' \<and> \<not> ambiguous_part p
      \<and> \<not> list_ex is_separator p \<and> \<not> list_ex is_control p \<and> 47 \<notin> set p" if "p \<in> set parts" for p
  proof -
    obtain q where q: "q \<in> set (split_on is_separator rest)" "q \<noteq> lit ''.''" "q \<noteq> []" "\<not> ambiguous_part q" "p = lower q"
      using parts(1) \<open>p \<in> set parts\<close> by (auto simp: normalize_parts_ok)
    have "\<not> list_ex is_separator q" "\<not> list_ex is_control q" "47 \<notin> set q"
      using split_on_pieces [OF q(1)] chars by (auto simp: list_ex_iff)
    then have "lower q \<noteq> [] \<and> lower q \<noteq> lit ''.'' \<and> \<not> ambiguous_part (lower q)
          \<and> \<not> list_ex is_separator (lower q) \<and> \<not> list_ex is_control (lower q) \<and> 47 \<notin> set (lower q)"
      using stable [unfolded stable_lower_def, THEN conjunct2, THEN spec, of q] q(2-4) by simp
    moreover have "lower (lower q) = lower q"
      using stable by (simp add: stable_lower_def)
    ultimately show ?thesis unfolding q(5) by simp
  qed
  moreover have "is_ascii_alphabetic (char_to_ascii_lowercase c0)"
    "char_to_ascii_lowercase (char_to_ascii_lowercase c0) = char_to_ascii_lowercase c0"
    using c0 by (auto simp: is_ascii_alphabetic_def char_to_ascii_lowercase_def is_ascii_lowercase_def is_ascii_uppercase_def)
  ultimately show thesis using n parts(2) that by blast
qed

section \<open>Properties\<close>

lemma set_join_chars: "c \<in> set (join sep ws) \<Longrightarrow> c \<in> set sep \<or> (\<exists>w\<in>set ws. c \<in> set w)"
  using set_join [of sep ws] by blast

text \<open>
  The normal form of a Windows path is final: normalising it again returns it unchanged, so
  comparing normal forms is comparing paths. The lower-casing of components is assumed only to repeat
  itself and to keep an acceptable component acceptable.
\<close>

theorem normalize_idempotent:
  assumes "normalize_windows_path lower value = Inr n" and "stable_lower lower"
  shows "normalize_windows_path lower n = Inr n"
proof -
  obtain c ps where n: "n = [c, 58, 92] @ join [92] ps" and c: "is_ascii_alphabetic c" "char_to_ascii_lowercase c = c"
    and ps: "ps \<noteq> []" and all: "\<forall>p\<in>set ps. lower p = p \<and> p \<noteq> [] \<and> p \<noteq> lit ''.'' \<and> \<not> ambiguous_part p
        \<and> \<not> list_ex is_separator p \<and> \<not> list_ex is_control p \<and> 47 \<notin> set p"
    by (rule normal_form_parts [OF assms]) (rule that)
  have j: "d \<noteq> 47 \<and> \<not> is_control d" if "d \<in> set (join [92] ps)" for d
    using set_join_chars [OF that] all by (auto simp: list_ex_iff is_control_def)
  have "map (\<lambda>c. if c = 47 then 92 else c) (join [92] ps) = join [92] ps"
    using j by (intro map_idI) auto
  moreover have "c \<noteq> 47" "\<not> is_control c"
    using c by (auto simp: is_ascii_alphabetic_def is_ascii_lowercase_def is_ascii_uppercase_def is_control_def)
  ultimately have path: "map (\<lambda>c. if c = 47 then 92 else c) n = c # 58 # 92 # join [92] ps"
    and ctl: "\<not> list_ex is_control n"
    using j by (auto simp: n list_ex_iff is_control_def)
  have "split_on is_separator (join [92] ps) = ps"
    using ps all by (intro split_join) (auto simp: is_separator_def)
  moreover have "normalize_parts lower ps = Inr ps"
    using all unfolding normalize_parts_ok by (auto simp: map_idI)
  moreover have "4 \<le> str_len (c # 58 # 92 # join [92] ps)"
  proof -
    obtain p ps' where "ps = p # ps'" "p \<noteq> []" using ps all by (cases ps) auto
    then have "join [92] ps \<noteq> []" using join_empty_iff [of "[92]" ps p] by auto
    then have "1 \<le> str_len (join [92] ps)"
      using length_le_str_len [of "join [92] ps"] by (cases "join [92] ps") auto
    then show ?thesis
      using len_utf8_pos [of c] by (simp add: len_utf8_def)
  qed
  ultimately show ?thesis
    using path ctl c ps unfolding normalize_windows_path_def Let_def path by (simp add: n)
qed

lemma lowercase_fixes:
  "\<not> (65 \<le> v \<and> v \<le> 90) \<Longrightarrow> \<not> (97 \<le> v \<and> v \<le> 122) \<Longrightarrow> char_to_ascii_lowercase c = v \<longleftrightarrow> c = v"
  by (auto simp: char_to_ascii_lowercase_def is_ascii_uppercase_def)

lemma lowercase_control: "is_control (char_to_ascii_lowercase c) = is_control c"
  by (auto simp: char_to_ascii_lowercase_def is_ascii_uppercase_def is_control_def)

lemma upper_lower: "to_ascii_uppercase (to_ascii_lowercase s) = to_ascii_uppercase s"
  by (auto simp: to_ascii_uppercase_def to_ascii_lowercase_def char_to_ascii_uppercase_def
      char_to_ascii_lowercase_def is_ascii_uppercase_def is_ascii_lowercase_def)

lemma split_on_map: "split_on p (map f s) = map (map f) (split_on (\<lambda>c. p (f c)) s)"
  by (induction s) (auto split: list.splits)

lemma lowercase_lit: "to_ascii_lowercase s = lit ''.'' \<longleftrightarrow> s = lit ''.''"
    "to_ascii_lowercase s = lit ''..'' \<longleftrightarrow> s = lit ''..''"
  by (auto simp: to_ascii_lowercase_def lit_def map_eq_Cons_conv lowercase_fixes)

lemma ambiguous_lowercase: "ambiguous_part (to_ascii_lowercase p) = ambiguous_part p"
proof -
  have chars: "char_to_ascii_lowercase c \<in> set (lit '':\"<>|?*'') \<longleftrightarrow> c \<in> set (lit '':\"<>|?*'')" for c
    by (simp add: lit_def lowercase_fixes)
  have "hd (split_on (\<lambda>c. c = 46) (to_ascii_lowercase p)) = to_ascii_lowercase (hd (split_on (\<lambda>c. c = 46) p))"
    by (simp add: to_ascii_lowercase_def split_on_map lowercase_fixes hd_map)
  then have "to_ascii_uppercase (hd (split_on (\<lambda>c. c = 46) (to_ascii_lowercase p)))
      = to_ascii_uppercase (hd (split_on (\<lambda>c. c = 46) p))" by (simp add: upper_lower)
  moreover have "list_ex (\<lambda>c. c \<in> set (lit '':\"<>|?*'')) (to_ascii_lowercase p)
      = list_ex (\<lambda>c. c \<in> set (lit '':\"<>|?*'')) p"
    unfolding list_ex_iff to_ascii_lowercase_def using chars by simp
  moreover have "to_ascii_lowercase p \<noteq> [] \<and> (last (to_ascii_lowercase p) = 46 \<or> last (to_ascii_lowercase p) = 32)
      \<longleftrightarrow> p \<noteq> [] \<and> (last p = 46 \<or> last p = 32)"
    by (auto simp: to_ascii_lowercase_def last_map lowercase_fixes)
  ultimately show ?thesis by (simp add: ambiguous_part_def lowercase_lit)
qed

text \<open>Lower-casing the ASCII letters is stable.\<close>

lemma stable_ascii_lowercase: "stable_lower to_ascii_lowercase"
proof -
  have "to_ascii_lowercase (to_ascii_lowercase p) = to_ascii_lowercase p" for p
    by (auto simp: to_ascii_lowercase_def char_to_ascii_lowercase_def is_ascii_uppercase_def)
  moreover have "list_ex is_separator (to_ascii_lowercase p) = list_ex is_separator p"
    "list_ex is_control (to_ascii_lowercase p) = list_ex is_control p"
    "47 \<in> set (to_ascii_lowercase p) \<longleftrightarrow> 47 \<in> set p" for p
    by (auto simp: to_ascii_lowercase_def list_ex_iff lowercase_control is_separator_def lowercase_fixes)
  moreover have "to_ascii_lowercase p = [] \<longleftrightarrow> p = []" for p by (simp add: to_ascii_lowercase_def)
  ultimately show ?thesis by (simp add: stable_lower_def ambiguous_lowercase lowercase_lit)
qed

definition windows_path :: "string list \<Rightarrow> rust_str" where
  "windows_path parts = join [92] (map lit parts)"

end
