(* ===== verification/Settings.thy ===== *)
theory Settings
  imports Windows_Service_Config
begin

text \<open>
  The administrator's settings, \<open>settings.rs\<close>: global settings, per-VM settings and the host list,
  and the loading of a complete source set. Files and the TOML parser are parameters. The theorems
  show that settings which validate generate a service configuration that validates, that VM names
  map to distinct plain file names, and what a successfully loaded source set guarantees.
\<close>

section \<open>Global settings\<close>

definition SERVICE_NAME :: rust_str where
  "SERVICE_NAME = lit ''VirtioMemService''"

definition CONTROL_PATH :: rust_str where
  "CONTROL_PATH = windows_path [''C:'', ''ProgramData'', ''VirtioMemService'', ''telemetry.json'']"

definition CONFIG_PATH :: rust_str where
  "CONFIG_PATH = windows_path [''C:'', ''ProgramData'', ''VirtioMemService'', ''config.json'']"

definition GIB :: u64 where
  "GIB = 1073741824"

record global_settings =
  pool_bytes :: "u64 option"
  host_min_headroom_bytes :: u64
  observe_only :: bool
  poll_interval_seconds :: u64
  command_timeout_seconds :: u64
  convergence_timeout_seconds :: u64

definition default_globals :: global_settings where
  "default_globals =
     \<lparr>pool_bytes = None, host_min_headroom_bytes = 4 * GIB, observe_only = False,
      poll_interval_seconds = 5, command_timeout_seconds = 10, convergence_timeout_seconds = 300\<rparr>"

fun check_seconds :: "(rust_str \<times> u64) list \<Rightarrow> rust_str + unit" where
  "check_seconds [] = Inr ()"
| "check_seconds ((name, seconds) # rest) =
     (if seconds = 0 \<or> 86400 < seconds then Inl (name @ lit '' must be 1..=86400'') else check_seconds rest)"

definition validate_globals :: "global_settings \<Rightarrow> rust_str + unit" where
  "validate_globals g =
     (if pool_bytes g = Some 0 \<or> host_min_headroom_bytes g = 0
        then Inl (lit ''pool_bytes and host_min_headroom_bytes must be positive'')
      else if \<not> (1 \<le> poll_interval_seconds g \<and> poll_interval_seconds g \<le> 10)
        then Inl (lit ''poll_interval_seconds must be 1..=10 (request freshness bound)'')
      else check_seconds [(lit ''command_timeout_seconds'', command_timeout_seconds g),
                          (lit ''convergence_timeout_seconds'', convergence_timeout_seconds g)])"

definition freshness_millis :: "global_settings \<Rightarrow> u64" where
  "freshness_millis g = poll_interval_seconds g * 6000"

definition guest_policy :: "global_settings \<Rightarrow> guest_memory_policy" where
  "guest_policy g =
     (let freshness = freshness_millis g in
      \<lparr>target =
         \<lparr>configured_minimum_bytes = 0, physical_reserve_bytes = 2 * GIB, commit_reserve_bytes = 2 * GIB,
          safe_floor_physical_reserve_bytes = GIB, safe_floor_commit_reserve_bytes = GIB,
          history_window_millis = 1000, maximum_gap_millis = poll_interval_seconds g * 3000,
          downward_hysteresis_bytes = GIB div 4\<rparr>,
       grow_step_bytes = GIB, shrink_step_bytes = 3 * GIB,
       host_status_max_age_millis = freshness, request_lifetime_millis = freshness\<rparr>)"

section \<open>VM settings\<close>

record vm_settings =
  vm_min_ram :: u64
  vm_max_ram :: u64
  install_path :: rust_str
  service_account :: rust_str
  vm_name :: rust_str
  telemetry_path :: "rust_str option"

definition vm_filename :: "rust_str \<Rightarrow> rust_str + rust_str" where
  "vm_filename name =
     (if name = [] \<or> 64 < str_len name
         \<or> \<not> list_all (\<lambda>b. is_ascii_lowercase b \<or> is_ascii_digit b \<or> b = 45 \<or> b = 95) name
         \<or> \<not> is_ascii_alphanumeric (hd name)
      then Inl (lit ''vm_name must be 1..=64 lower-case ASCII letters, digits, '' @ [39, 45, 39]
                @ lit '' or '' @ [39, 95, 39] @ lit '', starting with a letter or digit'')
      else Inr (name @ lit ''_settings.toml''))"

definition validate_vm :: "(rust_str \<Rightarrow> rust_str) \<Rightarrow> vm_settings \<Rightarrow> rust_str + unit" where
  "validate_vm lower v =
     and_then (vm_filename (vm_name v)) (\<lambda>_.
     and_then (validate_ram_limits (vm_min_ram v) (vm_max_ram v)) (\<lambda>_.
     and_then (normalize_windows_path lower (install_path v)) (\<lambda>_.
       if \<not> ends_with (to_ascii_lowercase (install_path v)) (lit ''.exe'')
         then Inl (lit ''install_path must name an .exe file'')
       else if trim (service_account v) = [] \<or> list_ex is_control (service_account v)
         then Inl (lit ''service_account must be nonempty without control characters'')
       else
         case telemetry_path v of
           None \<Rightarrow> Inr ()
         | Some p \<Rightarrow>
             and_then (normalize_windows_path lower p) (\<lambda>path.
             and_then (normalize_windows_path lower CONTROL_PATH) (\<lambda>control.
             and_then (normalize_windows_path lower CONFIG_PATH) (\<lambda>config.
             and_then (normalize_windows_path lower (install_path v)) (\<lambda>executable.
               if path = control \<or> starts_with path (control @ lit ''.'') \<or> path = config \<or> path = executable
               then Inl (lit ''telemetry_path collides with control, configuration or executable files; omit it to disable diagnostics'')
               else Inr ())))))))"

definition service_config :: "vm_settings \<Rightarrow> global_settings \<Rightarrow> windows_service_config_file" where
  "service_config v g =
     \<lparr>schema_version = WINDOWS_SERVICE_CONFIG_SCHEMA_VERSION, wsc_vm_name = vm_name v,
      wsc_service_name = SERVICE_NAME, display_name = lit ''Virtio Memory Service'',
      description = lit ''Manages guest virtio-mem requests.'', demand_report_path = CONTROL_PATH,
      wsc_service_account = service_account v, poll_interval_millis = poll_interval_seconds g * 1000,
      shutdown_timeout_millis = 30000, wsc_policy = guest_policy g,
      wsc_min_ram = vm_min_ram v, wsc_max_ram = vm_max_ram v, wsc_telemetry_path = telemetry_path v\<rparr>"

definition valid_alias :: "rust_str \<Rightarrow> bool" where
  "valid_alias alias \<longleftrightarrow>
     alias \<noteq> [] \<and> list_all (\<lambda>b. is_ascii_alphanumeric b \<or> b = 95 \<or> b = 46 \<or> b = 45) alias"

section \<open>The host list\<close>

record host_vm =
  hv_vm_name :: rust_str
  hv_alias :: rust_str
  hv_priority :: u32
  hv_telemetry_path :: "rust_str option"

text \<open>
  \<open>std::path::Path\<close> on Unix: the components between slashes, without empty ones and dots. A leading
  dot of a relative path, which the library keeps, does not matter here: relative paths are refused.
\<close>

definition path_components :: "rust_str \<Rightarrow> rust_str list" where
  "path_components path = filter (\<lambda>p. p \<noteq> [] \<and> p \<noteq> lit ''.'') (split_on (\<lambda>c. c = 47) path)"

definition is_absolute :: "rust_str \<Rightarrow> bool" where
  "is_absolute path \<longleftrightarrow> path \<noteq> [] \<and> hd path = 47"

definition has_file_name :: "rust_str \<Rightarrow> bool" where
  "has_file_name path \<longleftrightarrow> path_components path \<noteq> [] \<and> last (path_components path) \<noteq> lit ''..''"

definition path_starts_with :: "rust_str \<Rightarrow> rust_str \<Rightarrow> bool" where
  "path_starts_with path base \<longleftrightarrow>
     is_absolute path = is_absolute base
     \<and> take (length (path_components base)) (path_components path) = path_components base"

definition bad_telemetry_path :: "rust_str list list \<Rightarrow> rust_str \<Rightarrow> bool" where
  "bad_telemetry_path paths path \<longleftrightarrow>
     lit ''..'' \<in> set (path_components path) \<or> \<not> has_file_name path
     \<or> path_starts_with path (lit ''/var/lib/virtio-mem-host'')
     \<or> path_starts_with path (lit ''/etc/virtio-mem-host'')
     \<or> \<not> is_absolute path \<or> list_ex is_control path \<or> path_components path \<in> set paths"

fun check_vms :: "rust_str list \<Rightarrow> rust_str list list \<Rightarrow> host_vm list \<Rightarrow> rust_str + unit" where
  "check_vms names paths [] = Inr ()"
| "check_vms names paths (v # vs) =
     and_then (vm_filename (hv_vm_name v)) (\<lambda>_.
       if hv_vm_name v \<in> set names then Inl (lit ''duplicate VM '' @ hv_vm_name v)
       else if hv_priority v = 0 \<or> \<not> valid_alias (hv_alias v)
         then Inl (lit ''VM '' @ hv_vm_name v
                   @ lit '' needs a positive priority and a valid libvirt device alias'')
       else
         case hv_telemetry_path v of
           None \<Rightarrow> check_vms (hv_vm_name v # names) paths vs
         | Some path \<Rightarrow>
             if bad_telemetry_path paths path
             then Inl (lit ''VM '' @ hv_vm_name v
               @ lit '' telemetry_path must be a unique absolute host file path outside controller state/config directories'')
             else check_vms (hv_vm_name v # names) (path_components path # paths) vs)"

definition validate_host_list :: "host_vm list \<Rightarrow> rust_str + unit" where
  "validate_host_list vms =
     (if vms = [] then Inl (lit ''host_list.toml must contain at least one [[vm]] entry'')
      else check_vms [] [] vms)"

section \<open>Loading\<close>

text \<open>
  A source set: the global file (absent when not found), the list file and the VM files by name, each
  either the text read or the message of the failed read, and the TOML parsers.
\<close>

record settings_source =
  src_globals :: "(rust_str + rust_str) option"
  src_list :: "rust_str + rust_str"
  src_vm :: "rust_str \<Rightarrow> rust_str + rust_str"
  parse_globals :: "rust_str \<Rightarrow> rust_str + global_settings"
  parse_list :: "rust_str \<Rightarrow> rust_str + host_vm list"
  parse_vm :: "rust_str \<Rightarrow> rust_str + vm_settings"

definition read_toml :: "(rust_str \<Rightarrow> rust_str + 'a) \<Rightarrow> rust_str \<Rightarrow> rust_str + rust_str \<Rightarrow> rust_str + 'a" where
  "read_toml parse path content =
     and_then (map_err (\<lambda>e. lit ''read '' @ path @ lit '': '' @ e) content) (\<lambda>t.
       if 1048576 < int (str_len t) then Inl (path @ lit '' exceeds 1 MiB'')
       else map_err (\<lambda>e. lit ''parse '' @ path @ lit '': '' @ e
              @ lit ''; migrate old manifests/host configs to global-settings.toml, host_list.toml and <vm_name>_settings.toml'')
            (parse t))"

definition load_globals :: "settings_source \<Rightarrow> rust_str \<Rightarrow> rust_str + global_settings" where
  "load_globals src path =
     and_then
       (case src_globals src of
          None \<Rightarrow> Inr default_globals
        | Some content \<Rightarrow> read_toml (parse_globals src) path content) (\<lambda>g.
     and_then (validate_globals g) (\<lambda>_. Inr g))"

definition load_vm ::
    "(rust_str \<Rightarrow> rust_str) \<Rightarrow> settings_source \<Rightarrow> rust_str \<Rightarrow> rust_str \<Rightarrow> rust_str + vm_settings" where
  "load_vm lower src dir file =
     and_then (read_toml (parse_vm src) (dir @ lit ''/'' @ file) (src_vm src file)) (\<lambda>v.
     and_then (validate_vm lower v) (\<lambda>_.
     and_then (vm_filename (vm_name v)) (\<lambda>expected.
       if file \<noteq> expected
       then Inl (lit ''VM '' @ vm_name v @ lit '' settings must be named '' @ expected)
       else Inr v)))"

definition load_configuration ::
    "(rust_str \<Rightarrow> rust_str) \<Rightarrow> settings_source \<Rightarrow> rust_str \<Rightarrow> rust_str \<Rightarrow>
     rust_str + global_settings \<times> host_vm list \<times> vm_settings list" where
  "load_configuration lower src dir list_path =
     and_then (load_globals src (dir @ lit ''/global-settings.toml'')) (\<lambda>g.
     and_then (read_toml (parse_list src) list_path (src_list src)) (\<lambda>vms.
     and_then (validate_host_list vms) (\<lambda>_.
       if 1 < length vms \<and> pool_bytes g = None
         then Inl (lit ''set pool_bytes in global-settings.toml when managing multiple VMs'')
       else
         and_then (collect_results (map (\<lambda>entry.
             and_then (vm_filename (hv_vm_name entry)) (\<lambda>file.
             and_then (load_vm lower src dir file) (\<lambda>v.
               if vm_name v \<noteq> hv_vm_name entry
               then Inl (lit ''VM settings identity does not match '' @ hv_vm_name entry)
               else Inr v))) vms)) (\<lambda>settings.
           Inr (g, vms, settings)))))"

section \<open>What validation gives\<close>

lemma validate_globals_ok [result_simps]:
  "validate_globals g = Inr u \<longleftrightarrow>
     pool_bytes g \<noteq> Some 0 \<and> host_min_headroom_bytes g \<noteq> 0
     \<and> 1 \<le> poll_interval_seconds g \<and> poll_interval_seconds g \<le> 10
     \<and> command_timeout_seconds g \<noteq> 0 \<and> command_timeout_seconds g \<le> 86400
     \<and> convergence_timeout_seconds g \<noteq> 0 \<and> convergence_timeout_seconds g \<le> 86400"
  by (auto simp: validate_globals_def not_less)

lemma validate_ram_limits_ok [result_simps]:
  "validate_ram_limits a b = Inr u \<longleftrightarrow>
     0 < a \<and> a \<le> b \<and> is_multiple_of a MIN_BLOCK_SIZE_BYTES \<and> is_multiple_of b MIN_BLOCK_SIZE_BYTES"
  by (auto simp: validate_ram_limits_def not_less word_neq_0_conv)

lemma vm_filename_ok:
  assumes "vm_filename name = Inr file"
  shows "file = name @ lit ''_settings.toml''" "name \<noteq> []" "str_len name \<le> 64"
    "\<forall>b\<in>set name. is_ascii_lowercase b \<or> is_ascii_digit b \<or> b = 45 \<or> b = 95"
    "is_ascii_alphanumeric (hd name)"
  using assms by (auto simp: vm_filename_def list_all_iff split: if_splits)

lemma vm_filename_identity: "vm_filename name = Inr file \<Longrightarrow> valid_identity name"
proof -
  assume n: "vm_filename name = Inr file"
  note ok = vm_filename_ok [OF n]
  have c: "\<not> is_whitespace b \<and> b < 128 \<and> \<not> is_control b" if "b \<in> set name" for b
    using ok(4) that
    by (auto simp: is_whitespace_def is_control_def is_ascii_lowercase_def is_ascii_digit_def)
  then have "trim name \<noteq> []" using ok(2) by (cases name) (auto simp: trim_empty_iff)
  then show ?thesis using c ok(3) by (auto simp: valid_identity_def is_ascii_def list_all_iff list_ex_iff)
qed

text \<open>The product of a poll interval of at most ten seconds does not wrap.\<close>

lemma small_product:
  assumes "p \<le> (10::u64)" and "unat k \<le> 6000"
  shows "unat (p * k) = unat p * unat k"
proof -
  have "unat p \<le> 10" using assms(1) by (simp add: word_le_nat_alt)
  then have "unat p * unat k \<le> 10 * 6000" by (intro mult_le_mono assms(2))
  then show ?thesis by (simp add: unat_word_ariths)
qed

lemma guest_policy_valid: "validate_globals g = Inr () \<Longrightarrow> validate_guest_policy (guest_policy g) = Inr ()"
proof -
  assume "validate_globals g = Inr ()"
  then have p: "1 \<le> poll_interval_seconds g" "poll_interval_seconds g \<le> 10" by (simp_all add: result_simps)
  have "0 < unat (poll_interval_seconds g)" "unat (poll_interval_seconds g) \<le> 10"
    using p by (simp_all add: word_le_nat_alt)
  then have "0 < poll_interval_seconds g * 3000" "0 < poll_interval_seconds g * 6000"
    "poll_interval_seconds g * 6000 \<le> 60000"
    using small_product [OF p(2), of 3000] small_product [OF p(2), of 6000]
    by (simp_all add: word_less_nat_alt word_le_nat_alt)
  then show ?thesis
    by (auto simp: validate_guest_policy_def result_simps wf_target_policy_def guest_policy_def Let_def
        freshness_millis_def GIB_def MAX_REQUEST_LIFETIME_MILLIS_def)
qed

definition ascii_lower :: "(rust_str \<Rightarrow> rust_str) \<Rightarrow> bool" where
  "ascii_lower lower \<longleftrightarrow> (\<forall>s. is_ascii s \<longrightarrow> lower s = to_ascii_lowercase s)"

lemma normalize_parts_cong:
  "\<forall>p\<in>set parts. f p = h p \<Longrightarrow> normalize_parts f parts = normalize_parts h parts"
  by (induction parts) auto

lemma normalize_ascii:
  assumes "ascii_lower lower" and "is_ascii value"
  shows "normalize_windows_path lower value = normalize_windows_path to_ascii_lowercase value"
proof (cases "map (\<lambda>c. if c = 47 then 92 else c) value")
  case (Cons c0 t0)
  show ?thesis
  proof (cases t0)
    case t0: (Cons c1 t1)
    show ?thesis
    proof (cases t1)
      case t1: (Cons c2 rest)
      have path: "map (\<lambda>c. if c = 47 then 92 else c) value = c0 # c1 # c2 # rest" using Cons t0 t1 by simp
      have "c < 128" if "c \<in> set rest" for c
      proof -
        have "c \<in> set (map (\<lambda>c. if c = 47 then 92 else c) value)" unfolding path using that by simp
        then show ?thesis using assms(2) by (auto simp: is_ascii_def list_all_iff split: if_splits)
      qed
      then have "\<forall>p\<in>set (split_on is_separator rest). lower p = to_ascii_lowercase p"
        using assms(1) split_on_pieces [of _ is_separator rest]
        by (fastforce simp: ascii_lower_def is_ascii_def list_all_iff)
      from normalize_parts_cong [OF this] show ?thesis
        unfolding normalize_windows_path_def Let_def path by (simp only: list.case)
    qed (simp_all add: normalize_windows_path_def Cons t0)
  qed (simp_all add: normalize_windows_path_def Cons)
qed (simp add: normalize_windows_path_def)

definition NORMAL_CONTROL :: rust_str where
  "NORMAL_CONTROL = windows_path [''c:'', ''programdata'', ''virtiomemservice'', ''telemetry.json'']"

definition NORMAL_CONFIG :: rust_str where
  "NORMAL_CONFIG = windows_path [''c:'', ''programdata'', ''virtiomemservice'', ''config.json'']"

lemma normal_paths:
  assumes "ascii_lower lower"
  shows "normalize_windows_path lower CONTROL_PATH = Inr NORMAL_CONTROL"
    "normalize_windows_path lower CONFIG_PATH = Inr NORMAL_CONFIG"
proof -
  have "is_ascii CONTROL_PATH" "is_ascii CONFIG_PATH"
    "normalize_windows_path to_ascii_lowercase CONTROL_PATH = Inr NORMAL_CONTROL"
    "normalize_windows_path to_ascii_lowercase CONFIG_PATH = Inr NORMAL_CONFIG" by code_simp+
  then show "normalize_windows_path lower CONTROL_PATH = Inr NORMAL_CONTROL"
    "normalize_windows_path lower CONFIG_PATH = Inr NORMAL_CONFIG"
    using assms by (simp_all add: normalize_ascii)
qed

lemma normal_config_apart:
  "NORMAL_CONFIG \<noteq> NORMAL_CONTROL" "\<not> starts_with NORMAL_CONFIG (NORMAL_CONTROL @ lit ''.'')"
  by code_simp+

section \<open>Properties\<close>

text \<open>
  Settings that validate generate a Windows service configuration that validates, with paths that
  do not collide with its configuration file; so a deployed service never refuses the configuration it
  was given. Lower-casing is assumed only to agree with ASCII lower-casing on ASCII text.
\<close>

theorem settings_generate_valid_config:
  assumes g: "validate_globals g = Inr ()" and v: "validate_vm lower v = Inr ()" and lower: "ascii_lower lower"
  shows "validate_service_config lower (service_config v g) = Inr ()
    \<and> validate_paths lower (service_config v g) CONFIG_PATH = Inr ()"
proof
  obtain fname where named: "vm_filename (vm_name v) = Inr fname"
    and ram: "validate_ram_limits (vm_min_ram v) (vm_max_ram v) = Inr ()"
    and account: "trim (service_account v) \<noteq> []" "\<not> list_ex is_control (service_account v)"
    using v by (auto simp: validate_vm_def result_simps split: if_splits)
  have tele: "\<exists>path. normalize_windows_path lower p = Inr path \<and> path \<noteq> NORMAL_CONTROL
      \<and> \<not> starts_with path (NORMAL_CONTROL @ lit ''.'') \<and> path \<noteq> NORMAL_CONFIG" if "telemetry_path v = Some p" for p
    using v that by (auto simp: validate_vm_def result_simps normal_paths [OF lower] split: if_splits)
  have id: "valid_identity (vm_name v)" by (rule vm_filename_identity [OF named])
  have "valid_identity SERVICE_NAME" "\<not> list_ex (\<lambda>c. c = 47 \<or> c = 92) SERVICE_NAME"
    "trim (lit ''Virtio Memory Service'') \<noteq> []" "\<not> list_ex is_control (lit ''Virtio Memory Service'')"
    "trim (lit ''Manages guest virtio-mem requests.'') \<noteq> []"
    "\<not> list_ex is_control (lit ''Manages guest virtio-mem requests.'')" by code_simp+
  moreover have "poll_interval_seconds g * 1000 \<noteq> 0" "\<not> U32_MAX \<le> poll_interval_seconds g * 1000"
  proof -
    have p: "1 \<le> unat (poll_interval_seconds g)" "unat (poll_interval_seconds g) \<le> 10"
      using g by (simp_all add: result_simps word_le_nat_alt)
    have "unat (poll_interval_seconds g * 1000) = unat (poll_interval_seconds g) * 1000"
      using small_product [of "poll_interval_seconds g" 1000] g by (simp add: result_simps)
    then show "poll_interval_seconds g * 1000 \<noteq> 0" "\<not> U32_MAX \<le> poll_interval_seconds g * 1000"
      using p by (auto simp: word_unat_eq_iff word_le_nat_alt U32_MAX_def)
  qed
  moreover have "\<not> U32_MAX \<le> 30000" by (simp add: U32_MAX_def)
  ultimately show "validate_service_config lower (service_config v g) = Inr ()"
    using id ram account guest_policy_valid [OF g]
    by (simp add: validate_service_config_def service_config_def normal_paths [OF lower])
      (auto simp: valid_identity_def)
  show "validate_paths lower (service_config v g) CONFIG_PATH = Inr ()"
    using tele normal_config_apart
    by (cases "telemetry_path v") (auto simp: validate_paths_def service_config_def normal_paths [OF lower] result_simps)
qed

definition sample_vm :: vm_settings where
  "sample_vm =
     \<lparr>vm_min_ram = 4294967296, vm_max_ram = 17179869184,
      install_path = windows_path [''C:'', ''Program Files'', ''VirtioMem'', ''service.exe''],
      service_account = lit ''LocalSystem'', vm_name = lit ''win11'',
      telemetry_path = Some (windows_path [''D:'', ''logs'', ''memory.json''])\<rparr>"

lemma ascii_lower_ascii: "ascii_lower to_ascii_lowercase"
  by (simp add: ascii_lower_def)

theorem settings_generate_valid_config_witness:
  "validate_service_config to_ascii_lowercase (service_config sample_vm default_globals) = Inr ()"
proof -
  have "validate_globals default_globals = Inr ()" "validate_vm to_ascii_lowercase sample_vm = Inr ()"
    by code_simp+
  then show ?thesis using settings_generate_valid_config ascii_lower_ascii by blast
qed

text \<open>
  VM names map one to one to settings files: two accepted names with the same file are the same
  name, and the file name is plain: no slash, backslash, colon or white space, no leading dot or
  hyphen, so it never leaves the settings directory on either system.
\<close>

theorem vm_filename_injective:
  assumes "vm_filename a = Inr f" and "vm_filename b = Inr f"
  shows "a = b \<and> (\<forall>c\<in>set f. c \<noteq> 47 \<and> c \<noteq> 92 \<and> c \<noteq> 58 \<and> \<not> is_whitespace c \<and> \<not> is_ascii_uppercase c)
    \<and> hd f \<noteq> 46 \<and> hd f \<noteq> 45"
proof -
  note a = vm_filename_ok [OF assms(1)] and b = vm_filename_ok [OF assms(2)]
  have "a = b" using a(1) b(1) by simp
  moreover have "c \<noteq> 47 \<and> c \<noteq> 92 \<and> c \<noteq> 58 \<and> \<not> is_whitespace c \<and> \<not> is_ascii_uppercase c" if "c \<in> set f" for c
  proof -
    have "c \<in> set a \<or> c \<in> set (lit ''_settings.toml'')" using that a(1) by auto
    then show ?thesis
    proof
      assume "c \<in> set a"
      then show ?thesis using a(4)
        by (auto simp: is_whitespace_def is_ascii_uppercase_def is_ascii_lowercase_def is_ascii_digit_def)
    next
      assume c: "c \<in> set (lit ''_settings.toml'')"
      have "\<forall>c\<in>set (lit ''_settings.toml''). c \<noteq> 47 \<and> c \<noteq> 92 \<and> c \<noteq> 58 \<and> \<not> is_whitespace c \<and> \<not> is_ascii_uppercase c"
        by code_simp
      with c show ?thesis by blast
    qed
  qed
  moreover have "hd f = hd a" using a(1,2) by simp
  moreover have "hd a \<noteq> 46" "hd a \<noteq> 45"
    using a(5) by (auto simp: is_ascii_alphanumeric_def is_ascii_alphabetic_def is_ascii_digit_def
        is_ascii_lowercase_def is_ascii_uppercase_def)
  ultimately show ?thesis by metis
qed

theorem vm_filename_injective_witness:
  "vm_filename (lit ''win-11'') = Inr (lit ''win-11_settings.toml'') \<and> hd (lit ''win-11_settings.toml'') \<noteq> 46"
proof -
  have f: "vm_filename (lit ''win-11'') = Inr (lit ''win-11_settings.toml'')" by code_simp
  show ?thesis using f vm_filename_injective [OF f f] by blast
qed

lemma check_vms_ok:
  "check_vms names paths vms = Inr u \<Longrightarrow>
     distinct (map hv_vm_name vms) \<and> (\<forall>v\<in>set vms. hv_vm_name v \<notin> set names
       \<and> (\<exists>f. vm_filename (hv_vm_name v) = Inr f) \<and> hv_priority v \<noteq> 0 \<and> valid_alias (hv_alias v))
     \<and> distinct (map path_components (List.map_filter hv_telemetry_path vms))
     \<and> (\<forall>p\<in>set (List.map_filter hv_telemetry_path vms). path_components p \<notin> set paths
          \<and> is_absolute p \<and> lit ''..'' \<notin> set (path_components p)
          \<and> \<not> path_starts_with p (lit ''/var/lib/virtio-mem-host'') \<and> \<not> path_starts_with p (lit ''/etc/virtio-mem-host''))"
proof (induction vms arbitrary: names paths)
  case (Cons v vms)
  show ?case
  proof (cases "hv_telemetry_path v")
    case None
    then have "check_vms (hv_vm_name v # names) paths vms = Inr u"
      using Cons.prems by (auto simp: result_simps split: if_splits)
    from Cons.IH [OF this] show ?thesis
      using Cons.prems None by (auto simp: result_simps List.map_filter_def split: if_splits)
  next
    case (Some p)
    then have c: "check_vms (hv_vm_name v # names) (path_components p # paths) vms = Inr u"
      and b: "\<not> bad_telemetry_path paths p"
      using Cons.prems by (auto simp: result_simps split: if_splits)
    from Cons.IH [OF c] b show ?thesis
      using Cons.prems Some by (auto simp: result_simps bad_telemetry_path_def List.map_filter_def split: if_splits)
  qed
qed (simp add: List.map_filter_def)

text \<open>
  C29. A source set that loads is complete and consistent: the globals validate, the list names
  distinct VMs with positive priorities and valid aliases and keeps its telemetry files apart and out
  of the controller's directories, several VMs share a declared pool, and each entry has validated
  settings of the same name, in order.
\<close>

theorem loaded_configuration_consistent:
  assumes "load_configuration lower src dir list_path = Inr (g, vms, settings)"
  shows "validate_globals g = Inr () \<and> vms \<noteq> [] \<and> distinct (map hv_vm_name vms)
    \<and> (\<forall>v\<in>set vms. hv_priority v \<noteq> 0 \<and> valid_alias (hv_alias v))
    \<and> distinct (map path_components (List.map_filter hv_telemetry_path vms))
    \<and> (1 < length vms \<longrightarrow> (\<exists>n. pool_bytes g = Some n \<and> n \<noteq> 0))
    \<and> map vm_name settings = map hv_vm_name vms \<and> (\<forall>v\<in>set settings. validate_vm lower v = Inr ())"
proof -
  let ?load = "\<lambda>entry. and_then (vm_filename (hv_vm_name entry)) (\<lambda>file.
      and_then (load_vm lower src dir file) (\<lambda>v.
        if vm_name v \<noteq> hv_vm_name entry
        then Inl (lit ''VM settings identity does not match '' @ hv_vm_name entry) else Inr v))"
  have gv: "validate_globals g = Inr ()" and lv: "validate_host_list vms = Inr ()"
    and multi: "\<not> (1 < length vms \<and> pool_bytes g = None)"
    and coll: "collect_results (map ?load vms) = Inr settings"
    using assms by (auto simp: load_configuration_def load_globals_def result_simps split: if_splits)
  have vms: "vms \<noteq> []" "check_vms [] [] vms = Inr ()"
    using lv by (auto simp: validate_host_list_def split: if_splits)
  have "list_all2 (\<lambda>entry v. ?load entry = Inr v) vms settings"
    using coll unfolding collect_results_map .
  then have each: "list_all2 (\<lambda>entry v. vm_name v = hv_vm_name entry \<and> validate_vm lower v = Inr ()) vms settings"
    by (rule list_all2_mono) (auto simp: result_simps load_vm_def split: if_splits)
  then have "map vm_name settings = map hv_vm_name vms"
    by (induction rule: list_all2_induct) auto
  moreover have "\<forall>v\<in>set settings. validate_vm lower v = Inr ()"
    using each by (induction rule: list_all2_induct) auto
  moreover have "1 < length vms \<longrightarrow> (\<exists>n. pool_bytes g = Some n \<and> n \<noteq> 0)"
    using multi gv by (auto simp: result_simps)
  ultimately show ?thesis using gv vms check_vms_ok [OF vms(2)] by blast
qed

definition sample_source :: settings_source where
  "sample_source =
     \<lparr>src_globals = None, src_list = Inr (lit ''list''), src_vm = (\<lambda>_. Inr (lit ''vm'')),
      parse_globals = (\<lambda>_. Inl (lit ''unused'')),
      parse_list = (\<lambda>_. Inr [\<lparr>hv_vm_name = lit ''win11'', hv_alias = lit ''virtiomem0'', hv_priority = 10,
                              hv_telemetry_path = Some (lit ''/var/log/memory.json'')\<rparr>]),
      parse_vm = (\<lambda>_. Inr sample_vm)\<rparr>"

theorem loaded_configuration_consistent_witness:
  "\<exists>g vms settings. load_configuration to_ascii_lowercase sample_source (lit ''/etc'') (lit ''/etc/host_list.toml'')
      = Inr (g, vms, settings) \<and> map vm_name settings = map hv_vm_name vms"
proof -
  let ?x = "load_configuration to_ascii_lowercase sample_source (lit ''/etc'') (lit ''/etc/host_list.toml'')"
  have "is_ok ?x" by code_simp
  then obtain g vms settings where x: "?x = Inr (g, vms, settings)" by (auto simp: is_ok_iff)
  then show ?thesis using loaded_configuration_consistent [OF x] by blast
qed

end
