(* ===== verification/Host_Config.thy ===== *)
theory Host_Config
  imports Settings
begin

text \<open>
  The resolved host configuration: \<open>config.rs\<close> of the host. Durations are integers of milliseconds.
  The theorems show that resolving the settings gives every VM its own control checkpoint, and bounds
  the durations the control loop works with.
\<close>

type_synonym duration = int

definition from_secs :: "u64 \<Rightarrow> duration" where
  "from_secs s = uint s * 1000"

definition from_millis :: "u64 \<Rightarrow> duration" where
  "from_millis m = uint m"

datatype host_config_error = ParseFailed rust_str | VmNotSelected nat | UnknownVm rust_str

record host_config =
  hc_vm_name :: rust_str
  hc_alias :: rust_str
  hc_priority :: u32
  policy_state_path :: rust_str
  poll_interval :: duration
  command_timeout :: duration
  convergence_timeout :: duration
  virsh_binary :: rust_str
  raw_telemetry_path :: rust_str
  raw_telemetry_service_name :: rust_str
  raw_telemetry_max_age :: duration
  raw_telemetry_future_tolerance :: duration
  hc_host_min_headroom_bytes :: u64
  compatibility_attestation_path :: rust_str
  hc_observe_only :: bool
  hc_min_ram :: u64
  hc_max_ram :: u64
  hc_telemetry_path :: "rust_str option"

record host_settings =
  hs_pool_bytes :: "u64 option"
  hs_vms :: "host_config list"

definition resolve_config :: "global_settings \<Rightarrow> host_vm \<Rightarrow> vm_settings \<Rightarrow> host_config" where
  "resolve_config globals entry vm =
     \<lparr>hc_vm_name = hv_vm_name entry, hc_alias = hv_alias entry, hc_priority = hv_priority entry,
      policy_state_path = lit ''/var/lib/virtio-mem-host/state/'' @ hv_vm_name entry @ lit ''-requests.json'',
      poll_interval = from_secs (poll_interval_seconds globals),
      command_timeout = from_secs (command_timeout_seconds globals),
      convergence_timeout = from_secs (convergence_timeout_seconds globals),
      virsh_binary = lit ''/usr/bin/virsh'', raw_telemetry_path = CONTROL_PATH,
      raw_telemetry_service_name = SERVICE_NAME,
      raw_telemetry_max_age = from_millis (freshness_millis globals),
      raw_telemetry_future_tolerance = from_secs (poll_interval_seconds globals),
      hc_host_min_headroom_bytes = host_min_headroom_bytes globals,
      compatibility_attestation_path = lit ''/etc/virtio-mem-host/'' @ hv_vm_name entry @ lit ''.attestation.json'',
      hc_observe_only = observe_only globals, hc_min_ram = vm_min_ram vm, hc_max_ram = vm_max_ram vm,
      hc_telemetry_path = hv_telemetry_path entry\<rparr>"

definition load_host_settings ::
    "(rust_str \<Rightarrow> rust_str) \<Rightarrow> settings_source \<Rightarrow> rust_str \<Rightarrow> rust_str \<Rightarrow> host_config_error + host_settings" where
  "load_host_settings lower src dir path =
     and_then (map_err ParseFailed (load_configuration lower src dir path)) (\<lambda>(globals, vms, settings).
       Inr \<lparr>hs_pool_bytes = pool_bytes globals,
            hs_vms = map (\<lambda>(entry, vm). resolve_config globals entry vm) (zip vms settings)\<rparr>)"

definition select_vm :: "host_config list \<Rightarrow> rust_str option \<Rightarrow> host_config_error + host_config" where
  "select_vm vms vm =
     (case vm of
        Some name \<Rightarrow> ok_or (List.find (\<lambda>c. hc_vm_name c = name) vms) (UnknownVm name)
      | None \<Rightarrow> (case vms of [c] \<Rightarrow> Inr c | _ \<Rightarrow> Inl (VmNotSelected (length vms))))"

definition load_host_vm ::
    "(rust_str \<Rightarrow> rust_str) \<Rightarrow> settings_source \<Rightarrow> rust_str \<Rightarrow> rust_str \<Rightarrow> rust_str option \<Rightarrow>
     host_config_error + host_config" where
  "load_host_vm lower src dir path vm =
     and_then (load_host_settings lower src dir path) (\<lambda>settings. select_vm (hs_vms settings) vm)"

section \<open>Properties\<close>

lemma load_configuration_ok:
  assumes "load_configuration lower src dir path = Inr (g, vms, settings)"
  shows "validate_globals g = Inr ()" and "distinct (map hv_vm_name vms)" and "length settings = length vms"
proof -
  have checks: "validate_globals g = Inr ()" "validate_host_list vms = Inr ()"
    using assms by (auto simp: load_configuration_def load_globals_def result_simps split: if_splits)
  then show "validate_globals g = Inr ()" by simp
  have "check_vms [] [] vms = Inr ()" using checks(2) by (simp add: validate_host_list_def split: if_splits)
  from check_vms_ok [OF this] show "distinct (map hv_vm_name vms)" by simp
  show "length settings = length vms"
    using assms
    by (auto simp: load_configuration_def result_simps collect_results_map split: if_splits
        dest: list_all2_lengthD)
qed

lemma one_le_word: "1 \<le> w \<longleftrightarrow> w \<noteq> 0" for w :: u64
  using word_le_nat_alt [of 1 w] by (auto simp: word_unat_eq_iff)

lemma map_zip_fst: "length ys = length xs \<Longrightarrow> map (\<lambda>p. f (fst p)) (zip xs ys) = map f xs"
  by (induction xs ys rule: list_induct2') auto

text \<open>
  The VMs of a loaded host configuration never share control state: their names, checkpoint paths
  and attestation paths are pairwise distinct. Every poll interval is one to ten seconds, equals the
  tolerance for clock skew, and the freshness limit of guest input is six poll intervals.
\<close>

theorem resolved_vms_separate:
  assumes "load_host_settings lower src dir path = Inr s"
  shows "distinct (map hc_vm_name (hs_vms s)) \<and> distinct (map policy_state_path (hs_vms s))
    \<and> distinct (map compatibility_attestation_path (hs_vms s))
    \<and> (\<forall>c\<in>set (hs_vms s). 1000 \<le> poll_interval c \<and> poll_interval c \<le> 10000
         \<and> raw_telemetry_future_tolerance c = poll_interval c \<and> raw_telemetry_max_age c = 6 * poll_interval c
         \<and> 1000 \<le> convergence_timeout c)"
proof -
  obtain g vms settings where l: "load_configuration lower src dir path = Inr (g, vms, settings)"
    and s: "hs_vms s = map (\<lambda>(entry, vm). resolve_config g entry vm) (zip vms settings)"
    using assms by (auto simp: load_host_settings_def result_simps)
  note ok = load_configuration_ok [OF l]
  have proj: "map f (hs_vms s) = map h vms" if "\<And>entry vm. f (resolve_config g entry vm) = h entry"
    for f :: "host_config \<Rightarrow> rust_str" and h
    using that map_zip_fst [OF ok(3), of h] by (simp add: s case_prod_beta comp_def)
  have names: "map hc_vm_name (hs_vms s) = map hv_vm_name vms"
    by (rule proj) (simp add: resolve_config_def)
  have states: "map policy_state_path (hs_vms s) =
      map (\<lambda>e. lit ''/var/lib/virtio-mem-host/state/'' @ hv_vm_name e @ lit ''-requests.json'') vms"
    by (rule proj) (simp add: resolve_config_def)
  have attestations: "map compatibility_attestation_path (hs_vms s) =
      map (\<lambda>e. lit ''/etc/virtio-mem-host/'' @ hv_vm_name e @ lit ''.attestation.json'') vms"
    by (rule proj) (simp add: resolve_config_def)
  have p: "1 \<le> poll_interval_seconds g" "poll_interval_seconds g \<le> 10" "1 \<le> convergence_timeout_seconds g"
    using ok(1) unfolding validate_globals_ok by (auto simp: one_le_word)
  have "unat (poll_interval_seconds g * 6000) = unat (poll_interval_seconds g) * 6000"
    using small_product [OF p(2), of 6000] by simp
  then have "uint (poll_interval_seconds g * 6000) = uint (poll_interval_seconds g) * 6000"
    unfolding uint_nat by presburger
  moreover have "1 \<le> uint (poll_interval_seconds g)" "uint (poll_interval_seconds g) \<le> 10"
    "1 \<le> uint (convergence_timeout_seconds g)"
    using p unfolding word_le_def by simp_all
  ultimately have bounds: "1000 \<le> poll_interval c \<and> poll_interval c \<le> 10000
      \<and> raw_telemetry_future_tolerance c = poll_interval c \<and> raw_telemetry_max_age c = 6 * poll_interval c
      \<and> 1000 \<le> convergence_timeout c" if "c \<in> set (hs_vms s)" for c
    using that by (auto simp: s resolve_config_def from_secs_def from_millis_def freshness_millis_def)
  show ?thesis
    using bounds ok(2) by (simp add: names states attestations distinct_map inj_on_def)
qed

theorem resolved_vms_separate_witness:
  "\<exists>s. load_host_settings to_ascii_lowercase sample_source (lit ''/etc'') (lit ''/etc/host_list.toml'') = Inr s
     \<and> distinct (map policy_state_path (hs_vms s)) \<and> hs_vms s \<noteq> []"
proof -
  let ?x = "load_host_settings to_ascii_lowercase sample_source (lit ''/etc'') (lit ''/etc/host_list.toml'')"
  have "(case ?x of Inl _ \<Rightarrow> False | Inr s \<Rightarrow> hs_vms s \<noteq> [])" by code_simp
  then obtain s where s: "?x = Inr s" "hs_vms s \<noteq> []" by (cases ?x) auto
  then show ?thesis using resolved_vms_separate [OF s(1)] by blast
qed

end
