(* ===== verification/Controller_Status.thy ===== *)
theory Controller_Status
  imports Memory_Request
begin

text \<open>
  The read-only status contract of \<open>controller_status.rs\<close>. The byte-level JSON decoder is a parameter
  of \<open>parse_controller_status\<close>.
\<close>

definition CONTROLLER_STATUS_VERSION :: u16 where
  "CONTROLLER_STATUS_VERSION = 5"

definition MAX_CONTROLLER_STATUS_BYTES :: nat where
  "MAX_CONTROLLER_STATUS_BYTES = 64 * 1024"

definition MAX_IDENTITY_BYTES :: nat where
  "MAX_IDENTITY_BYTES = 256"

datatype command_direction = Grow | Shrink | SettleShrink | SettleGrow

datatype control_health = HealthConverged | Growing | Shrinking | RecoveryRequired | Latched

datatype command_ownership_state =
    OwnershipNone
  | OwnedPending
  | OwnedConvergedUnresolved
  | UnownedPending
  | RecordedNotApplied
  | OwnershipConflict

datatype recovery_state = NotRequired | ReviewRequired

record controller_command_status =
  cs_operation_id :: rust_str
  cs_direction :: command_direction
  cs_prior_requested_bytes :: u64
  cs_prior_current_bytes :: u64
  cs_target_bytes :: u64

record guest_input_status =
  input_error :: "rust_str option"
  input_observed_unix_millis :: "u64 option"
  input_request :: "memory_request option"

record controller_status_snapshot =
  css_version :: u16
  css_observed_unix_millis :: u64
  css_vm_name :: rust_str
  css_device_alias :: rust_str
  css_device_size_bytes :: u64
  css_block_size_bytes :: u64
  css_maximum_target_bytes :: u64
  css_requested_bytes :: u64
  css_current_bytes :: u64
  css_observe_only :: bool
  css_guest_input :: guest_input_status
  css_admitted_request :: "memory_request option"
  css_result :: "memory_result option"
  css_command_ownership :: command_ownership_state
  css_command :: "controller_command_status option"
  css_control_health :: control_health
  css_actuation_latched :: bool
  css_latch_reason :: "rust_str option"
  css_recovery_state :: recovery_state
  css_recovery_reason :: "rust_str option"
  css_last_latch_clear_reason :: "rust_str option"
  css_fingerprint_sha256 :: rust_str

datatype controller_status_error =
    Oversized
  | InvalidJson rust_str
  | UnsupportedVersion u16
  | InvalidStatus rust_str

fun display_controller_status_error :: "controller_status_error \<Rightarrow> rust_str" where
  "display_controller_status_error Oversized = lit ''controller status exceeds its byte limit''"
| "display_controller_status_error (InvalidJson e) = lit ''controller status JSON is invalid: '' @ e"
| "display_controller_status_error (UnsupportedVersion v) =
     lit ''controller status version is unsupported: '' @ show_word v"
| "display_controller_status_error (InvalidStatus w) = lit ''controller status is invalid: '' @ w"

definition validate_status_identity :: "rust_str \<Rightarrow> controller_status_error + unit" where
  "validate_status_identity v =
     (if trim v = [] \<or> MAX_IDENTITY_BYTES < str_len v \<or> list_ex is_control v
      then Inl (InvalidStatus (lit ''identity is empty, oversized, or contains control characters''))
      else Inr ())"

definition validate_sha256 :: "rust_str \<Rightarrow> controller_status_error + unit" where
  "validate_sha256 v =
     (if str_len v \<noteq> 64 \<or> \<not> list_all is_ascii_hexdigit v
      then Inl (InvalidStatus (lit ''fingerprint is not hexadecimal SHA-256''))
      else Inr ())"

definition validate_optional_reason :: "rust_str option \<Rightarrow> controller_status_error + unit" where
  "validate_optional_reason v =
     (if (case v of None \<Rightarrow> False
          | Some s \<Rightarrow> trim s = [] \<or> MAX_REASON_BYTES < str_len s \<or> list_ex is_control s)
      then Inl (InvalidStatus (lit ''reason is empty, oversized, or contains control characters''))
      else Inr ())"

definition status_live :: "controller_status_snapshot \<Rightarrow> virtio_mem_state" where
  "status_live s =
     \<lparr>size_bytes = css_device_size_bytes s, block_size_bytes = css_block_size_bytes s,
      requested_bytes = css_requested_bytes s, current_bytes = css_current_bytes s\<rparr>"

text \<open>Lines 146 to 163.\<close>

definition validate_admission ::
    "memory_request option \<Rightarrow> memory_result option \<Rightarrow> controller_status_error + unit" where
  "validate_admission admitted result =
     (case (admitted, result) of
        (None, Some _) \<Rightarrow> Inl (InvalidStatus (lit ''result has no admitted request''))
      | (Some r, Some x) \<Rightarrow>
          if \<not> is_ok (validate_result_for x r)
            then Inl (InvalidStatus (lit ''result does not match the admitted request''))
          else if \<not> is_ok (validate_request r) then Inl (InvalidStatus (lit ''admitted request is invalid''))
          else Inr ()
      | (Some r, None) \<Rightarrow>
          if \<not> is_ok (validate_request r) then Inl (InvalidStatus (lit ''admitted request is invalid''))
          else Inr ()
      | (None, None) \<Rightarrow> Inr ())"

fun command_required :: "command_ownership_state \<Rightarrow> bool" where
  "command_required OwnershipNone = False"
| "command_required UnownedPending = False"
| "command_required _ = True"

text \<open>Lines 164 to 195.\<close>

definition validate_command :: "controller_status_snapshot \<Rightarrow> controller_status_error + unit" where
  "validate_command s =
     (if command_required (css_command_ownership s) \<noteq> (css_command s \<noteq> None)
        then Inl (InvalidStatus (lit ''command ownership and command detail disagree''))
      else if css_command_ownership s = OwnershipNone \<and> css_requested_bytes s \<noteq> css_current_bytes s
        then Inl (InvalidStatus (lit ''converged ownership contains divergent live state''))
      else if css_command_ownership s = UnownedPending \<and> css_requested_bytes s = css_current_bytes s
        then Inl (InvalidStatus (lit ''unowned pending status is already converged''))
      else
        case css_command s of
          None \<Rightarrow> Inr ()
        | Some c \<Rightarrow>
            and_then (validate_status_identity (cs_operation_id c)) (\<lambda>_.
              if \<not> is_multiple_of (cs_target_bytes c) (css_block_size_bytes s)
              then Inl (InvalidStatus (lit ''command target is invalid''))
              else Inr ()))"

definition validate_status_snapshot :: "controller_status_snapshot \<Rightarrow> controller_status_error + unit" where
  "validate_status_snapshot s =
     (if css_version s \<noteq> CONTROLLER_STATUS_VERSION then Inl (UnsupportedVersion (css_version s))
      else
        and_then (validate_status_identity (css_vm_name s)) (\<lambda>_.
        and_then (validate_status_identity (css_device_alias s)) (\<lambda>_.
        and_then (validate_sha256 (css_fingerprint_sha256 s)) (\<lambda>_.
        and_then (map_err (\<lambda>_. InvalidStatus (lit ''live device state is invalid''))
            (validate_device (status_live s))) (\<lambda>_.
          if css_maximum_target_bytes s \<noteq> device_maximum_target (status_live s)
            then Inl (InvalidStatus (lit ''maximum target contradicts the device geometry''))
          else
            and_then (validate_optional_reason (input_error (css_guest_input s))) (\<lambda>_.
              if (input_error (css_guest_input s) \<noteq> None)
                   = (input_observed_unix_millis (css_guest_input s) \<noteq> None)
                 \<or> input_request (css_guest_input s) \<noteq> None
                   \<and> input_observed_unix_millis (css_guest_input s) = None
                then Inl (InvalidStatus (lit ''guest input must be either observed or explained''))
              else
                and_then (validate_admission (css_admitted_request s) (css_result s)) (\<lambda>_.
                and_then (validate_command s) (\<lambda>_.
                and_then (validate_optional_reason (css_latch_reason s)) (\<lambda>_.
                and_then (validate_optional_reason (css_recovery_reason s)) (\<lambda>_.
                and_then (validate_optional_reason (css_last_latch_clear_reason s)) (\<lambda>_.
                  if css_actuation_latched s \<noteq> (css_latch_reason s \<noteq> None)
                    then Inl (InvalidStatus (lit ''latch state and reason disagree''))
                  else if (css_recovery_state s = ReviewRequired) \<noteq> (css_recovery_reason s \<noteq> None)
                    then Inl (InvalidStatus (lit ''recovery state and reason disagree''))
                  else Inr ())))))))))))"

definition parse_controller_status ::
    "('b list \<Rightarrow> rust_str + controller_status_snapshot) \<Rightarrow> 'b list \<Rightarrow>
     controller_status_error + controller_status_snapshot" where
  "parse_controller_status from_slice bytes =
     (if MAX_CONTROLLER_STATUS_BYTES < length bytes then Inl Oversized
      else
        and_then (map_err InvalidJson (from_slice bytes)) (\<lambda>s.
        and_then (validate_status_snapshot s) (\<lambda>_. Inr s)))"

section \<open>Accepted reasons and admissions\<close>

definition wf_reason :: "rust_str option \<Rightarrow> bool" where
  "wf_reason v \<longleftrightarrow> (case v of None \<Rightarrow> True
     | Some s \<Rightarrow> trim s \<noteq> [] \<and> str_len s \<le> 1024 \<and> \<not> list_ex is_control s)"

lemma validate_optional_reason_ok [result_simps]: "validate_optional_reason v = Inr u \<longleftrightarrow> wf_reason v"
  by (auto simp: validate_optional_reason_def wf_reason_def MAX_REASON_BYTES_def split: option.splits)

lemma validate_admission_journal:
  "validate_admission (j_request j) (j_result j) = Inr u \<longleftrightarrow> wf_journal j"
  by (auto simp: validate_admission_def wf_journal_def is_ok_unit result_simps split: option.splits)

end
