(* ===== verification/Checkpoint.thy ===== *)
theory Checkpoint
  imports Host_Config Controller_Status
begin

text \<open>
  The durable control state of one VM: \<open>checkpoint.rs\<close> of the host. The JSON codec and the answers of
  the file system are parameters: \<open>to_vec\<close>/\<open>from_slice\<close> and the results of the calls in order. The
  file on disk is the bytes last renamed into place; a failed write or rename leaves it as it was.
\<close>

section \<open>Control state\<close>

definition CHECKPOINT_VERSION :: u16 where
  "CHECKPOINT_VERSION = 2"

definition MAX_CHECKPOINT_BYTES :: int where
  "MAX_CHECKPOINT_BYTES = 1024 * 1024"

record command_intent =
  operation_id :: rust_str
  started_unix_millis :: u64
  direction :: command_direction
  prior_requested_bytes :: u64
  prior_current_bytes :: u64
  target_bytes :: u64

record durable_control_state =
  latch_reason :: "rust_str option"
  intent :: "command_intent option"
  journal :: memory_request_journal

definition default_control :: durable_control_state where
  "default_control = \<lparr>latch_reason = None, intent = None, journal = empty_journal\<rparr>"

definition latched :: "durable_control_state \<Rightarrow> bool" where
  "latched control \<longleftrightarrow> latch_reason control \<noteq> None"

definition unresolved :: "memory_request_journal \<Rightarrow> bool" where
  "unresolved j \<longleftrightarrow> (case j_result j of None \<Rightarrow> True | Some result \<Rightarrow> \<not> terminal result)"

definition control_pending :: "durable_control_state \<Rightarrow> bool" where
  "control_pending control \<longleftrightarrow>
     latched control \<or> intent control \<noteq> None
     \<or> j_request (journal control) \<noteq> None \<and> unresolved (journal control)"

record checkpoint_file =
  cf_version :: u16
  cf_vm_name :: rust_str
  cf_device_alias :: rust_str
  cf_fingerprint_sha256 :: rust_str
  cf_control :: durable_control_state
  cf_last_latch_clear_reason :: "rust_str option"

record checkpoint =
  cp_path :: rust_str
  cp_vm_name :: rust_str
  cp_device_alias :: rust_str
  cp_fingerprint :: rust_str
  cp_last_latch_clear_reason :: "rust_str option"

section \<open>Reading and writing the file\<close>

datatype 'b file_stat = NotFound | StatError rust_str | FileLen int "rust_str + 'b list"

text \<open>\<open>FileLen\<close> carries the length of the metadata and what reading the file then gives.\<close>

definition load ::
    "('b list \<Rightarrow> rust_str + checkpoint_file) \<Rightarrow> 'b file_stat \<Rightarrow> rust_str \<Rightarrow> rust_str \<Rightarrow>
     rust_str + checkpoint_file option" where
  "load from_slice stat vm device_alias =
     (case stat of
        NotFound \<Rightarrow> Inr None
      | StatError e \<Rightarrow> Inl (lit ''inspect control checkpoint: '' @ e)
      | FileLen len content \<Rightarrow>
          if MAX_CHECKPOINT_BYTES < len
          then Inl (lit ''control checkpoint is oversized; refusing to discard it'')
          else
            and_then (map_err (\<lambda>e. lit ''read control checkpoint: '' @ e) content) (\<lambda>bytes.
            and_then (map_err (\<lambda>e. lit ''control checkpoint is invalid; refusing to discard it: '' @ e)
                (from_slice bytes)) (\<lambda>f.
              if cf_version f \<noteq> CHECKPOINT_VERSION \<or> cf_vm_name f \<noteq> vm \<or> cf_device_alias f \<noteq> device_alias
              then Inl (lit ''control checkpoint belongs to another VM, alias or version'')
              else
                and_then (validate_journal (journal (cf_control f))) (\<lambda>_.
                  if (case intent (cf_control f) of None \<Rightarrow> False | Some i \<Rightarrow> trim (operation_id i) = [])
                  then Inl (lit ''control checkpoint command intent is invalid'')
                  else Inr (Some f)))))"

record fs_answers =
  fs_create_dir :: "rust_str + unit"
  fs_write_temporary :: "rust_str + unit"
  fs_rename :: "rust_str + unit"
  fs_sync_dir :: "rust_str + unit"

definition has_parent :: "rust_str \<Rightarrow> bool" where
  "has_parent path \<longleftrightarrow> (let cs = path_components path in cs \<noteq> [] \<and> (is_absolute path \<or> 1 < length cs))"

definition persist ::
    "(checkpoint_file \<Rightarrow> rust_str + 'b list) \<Rightarrow> fs_answers \<Rightarrow> rust_str \<Rightarrow> checkpoint_file \<Rightarrow>
     'b list option \<Rightarrow> (rust_str + unit) \<times> 'b list option" where
  "persist to_vec fs path f disk =
     (case to_vec f of
        Inl e \<Rightarrow> (Inl (lit ''encode control checkpoint: '' @ e), disk)
      | Inr bytes \<Rightarrow>
          if MAX_CHECKPOINT_BYTES < int_length bytes
            then (Inl (lit ''control checkpoint exceeds its size limit''), disk)
          else if \<not> has_parent path
            then (Inl (lit ''control checkpoint path has no parent directory''), disk)
          else
            case fs_create_dir fs of
              Inl e \<Rightarrow> (Inl (lit ''create control checkpoint directory: '' @ e), disk)
            | Inr _ \<Rightarrow>
                case and_then (fs_write_temporary fs) (\<lambda>_. fs_rename fs) of
                  Inl e \<Rightarrow> (Inl (lit ''persist control checkpoint: '' @ e), disk)
                | Inr _ \<Rightarrow>
                    (map_err (\<lambda>e. lit ''flush control checkpoint directory: '' @ e) (fs_sync_dir fs), Some bytes))"

definition checkpoint_contents :: "checkpoint \<Rightarrow> durable_control_state \<Rightarrow> checkpoint_file" where
  "checkpoint_contents cp control =
     \<lparr>cf_version = CHECKPOINT_VERSION, cf_vm_name = cp_vm_name cp, cf_device_alias = cp_device_alias cp,
      cf_fingerprint_sha256 = cp_fingerprint cp, cf_control = control,
      cf_last_latch_clear_reason = cp_last_latch_clear_reason cp\<rparr>"

definition save_checkpoint ::
    "(checkpoint_file \<Rightarrow> rust_str + 'b list) \<Rightarrow> fs_answers \<Rightarrow> checkpoint \<Rightarrow> durable_control_state \<Rightarrow>
     'b list option \<Rightarrow> (rust_str + unit) \<times> 'b list option" where
  "save_checkpoint to_vec fs cp control disk =
     persist to_vec fs (cp_path cp) (checkpoint_contents cp control) disk"

section \<open>Opening\<close>

text \<open>The result of taking the lock (\<open>CheckpointOwner::acquire\<close>) and of \<open>load\<close> are arguments.\<close>

definition open_with ::
    "host_config \<Rightarrow> rust_str \<Rightarrow> bool \<Rightarrow> rust_str + unit \<Rightarrow> rust_str + checkpoint_file option \<Rightarrow>
     rust_str + checkpoint \<times> durable_control_state" where
  "open_with hc fingerprint migrate_evidence acquired loaded =
     and_then acquired (\<lambda>_.
     and_then loaded (\<lambda>file.
       if (case file of None \<Rightarrow> False
           | Some f \<Rightarrow> cf_fingerprint_sha256 f \<noteq> fingerprint \<and> control_pending (cf_control f)
                       \<and> \<not> migrate_evidence)
       then Inl (lit ''compatibility attestation changed while control state is pending; review it and use clear-latch'')
       else
         let (control, last_clear) = (case file of None \<Rightarrow> (default_control, None)
                                      | Some f \<Rightarrow> (cf_control f, cf_last_latch_clear_reason f)) in
         Inr (\<lparr>cp_path = policy_state_path hc, cp_vm_name = hc_vm_name hc,
               cp_device_alias = hc_alias hc, cp_fingerprint = fingerprint,
               cp_last_latch_clear_reason = last_clear\<rparr>, control)))"

definition open_checkpoint ::
    "host_config \<Rightarrow> rust_str \<Rightarrow> rust_str + unit \<Rightarrow> rust_str + checkpoint_file option \<Rightarrow>
     rust_str + checkpoint \<times> durable_control_state" where
  "open_checkpoint hc fingerprint acquired loaded = open_with hc fingerprint False acquired loaded"

section \<open>Ownership and movement\<close>

definition command_ownership :: "command_intent option \<Rightarrow> virtio_mem_state \<Rightarrow> command_ownership_state" where
  "command_ownership i live =
     (case i of
        None \<Rightarrow> if requested_bytes live = current_bytes live then OwnershipNone else UnownedPending
      | Some i \<Rightarrow>
          if requested_bytes live = target_bytes i then
            if current_bytes live = target_bytes i then OwnedConvergedUnresolved else OwnedPending
          else if requested_bytes live = prior_requested_bytes i \<and> current_bytes live = prior_current_bytes i
            then RecordedNotApplied
          else OwnershipConflict)"

definition movement_result ::
    "memory_request_journal \<Rightarrow> command_intent \<Rightarrow> virtio_mem_state \<Rightarrow> u64 \<Rightarrow> rust_str option \<Rightarrow>
     memory_result option" where
  "movement_result j i live observed why =
     (case j_request j of
        None \<Rightarrow> None
      | Some r \<Rightarrow>
          let moved = min (case operation r of
                Add \<Rightarrow> saturating_sub (current_bytes live) (prior_current_bytes i)
              | Remove \<Rightarrow> saturating_sub (prior_current_bytes i) (current_bytes live)) (req_bytes r)
          in Some \<lparr>request = r, outcome = (if moved = req_bytes r then Completed else Partial),
                   actual_bytes = moved, result_observed_unix_millis = observed, reason = why\<rparr>)"

section \<open>The status report\<close>

fun ownership_reason :: "command_ownership_state \<Rightarrow> rust_str option" where
  "ownership_reason OwnershipNone = None"
| "ownership_reason OwnedPending = None"
| "ownership_reason OwnedConvergedUnresolved =
     Some (lit ''recorded command has converged but its durable intent remains unresolved'')"
| "ownership_reason UnownedPending =
     Some (lit ''live requested/current divergence has no durable command owner'')"
| "ownership_reason RecordedNotApplied = Some (lit ''recorded command is not reflected in live state'')"
| "ownership_reason OwnershipConflict = Some (lit ''live state conflicts with the durable command intent'')"

definition recovery_reason :: "durable_control_state \<Rightarrow> bool \<Rightarrow> command_ownership_state \<Rightarrow> rust_str option" where
  "recovery_reason control attestation_changed ownership =
     (case latch_reason control of
        Some r \<Rightarrow> Some (lit ''actuation_latched: '' @ r)
      | None \<Rightarrow>
          if attestation_changed \<and> control_pending control
          then Some (lit ''compatibility attestation changed while control state is pending'')
          else ownership_reason ownership)"

definition health_of ::
    "durable_control_state \<Rightarrow> rust_str option \<Rightarrow> command_ownership_state \<Rightarrow> control_health" where
  "health_of control recovery ownership =
     (if latched control then Latched
      else if recovery \<noteq> None then RecoveryRequired
      else if ownership = OwnedPending then
        (if map_option direction (intent control) = Some Grow \<or> map_option direction (intent control) = Some SettleGrow
         then Growing else Shrinking)
      else HealthConverged)"

definition intent_status :: "command_intent \<Rightarrow> controller_command_status" where
  "intent_status i =
     \<lparr>cs_operation_id = operation_id i, cs_direction = direction i,
      cs_prior_requested_bytes = prior_requested_bytes i, cs_prior_current_bytes = prior_current_bytes i,
      cs_target_bytes = target_bytes i\<rparr>"

definition controller_snapshot ::
    "host_config \<Rightarrow> virtio_mem_state \<Rightarrow> guest_input_status \<Rightarrow> rust_str \<Rightarrow> u64 \<Rightarrow> checkpoint_file option \<Rightarrow>
     controller_status_snapshot" where
  "controller_snapshot hc live guest_input fingerprint observed file =
     (let changed = (case file of None \<Rightarrow> False | Some f \<Rightarrow> cf_fingerprint_sha256 f \<noteq> fingerprint);
          control = (case file of None \<Rightarrow> default_control | Some f \<Rightarrow> cf_control f);
          last_clear = (case file of None \<Rightarrow> None | Some f \<Rightarrow> cf_last_latch_clear_reason f);
          ownership = command_ownership (intent control) live;
          recovery = recovery_reason control changed ownership
      in \<lparr>css_version = CONTROLLER_STATUS_VERSION, css_observed_unix_millis = observed,
          css_vm_name = hc_vm_name hc, css_device_alias = hc_alias hc,
          css_device_size_bytes = size_bytes live, css_block_size_bytes = block_size_bytes live,
          css_maximum_target_bytes = device_maximum_target live, css_requested_bytes = requested_bytes live,
          css_current_bytes = current_bytes live, css_observe_only = hc_observe_only hc,
          css_guest_input = guest_input, css_admitted_request = j_request (journal control),
          css_result = j_result (journal control), css_command_ownership = ownership,
          css_command = map_option intent_status (intent control),
          css_control_health = health_of control recovery ownership,
          css_actuation_latched = latched control, css_latch_reason = latch_reason control,
          css_recovery_state = (if recovery \<noteq> None then ReviewRequired else NotRequired),
          css_recovery_reason = recovery, css_last_latch_clear_reason = last_clear,
          css_fingerprint_sha256 = fingerprint\<rparr>)"

definition read_controller_status ::
    "host_config \<Rightarrow> virtio_mem_state \<Rightarrow> guest_input_status \<Rightarrow> rust_str \<Rightarrow> u64 \<Rightarrow>
     rust_str + checkpoint_file option \<Rightarrow> rust_str + controller_status_snapshot" where
  "read_controller_status hc live guest_input fingerprint observed loaded =
     and_then (map_err display_virtio_mem_error (validate_device live)) (\<lambda>_.
     and_then loaded (\<lambda>file.
       let snapshot = controller_snapshot hc live guest_input fingerprint observed file in
       and_then (map_err display_controller_status_error (validate_status_snapshot snapshot)) (\<lambda>_.
         Inr snapshot)))"

section \<open>Clearing a latch\<close>

definition actuation_latched ::
    "host_config \<Rightarrow> rust_str \<Rightarrow> rust_str + unit \<Rightarrow> rust_str + checkpoint_file option \<Rightarrow> rust_str + bool" where
  "actuation_latched hc fingerprint acquired loaded =
     and_then (open_with hc fingerprint True acquired loaded) (\<lambda>(_, control). Inr (latched control))"

definition operator_reason :: "rust_str \<Rightarrow> rust_str" where
  "operator_reason why = lit ''operator cleared the latch: '' @ why"

definition clear_result ::
    "durable_control_state \<Rightarrow> virtio_mem_state \<Rightarrow> u64 \<Rightarrow> rust_str \<Rightarrow> memory_result option" where
  "clear_result control live observed why =
     (case intent control of
        Some i \<Rightarrow> movement_result (journal control) i live observed (Some (operator_reason why))
      | None \<Rightarrow> map_option (\<lambda>r. rejected_result r observed (operator_reason why)) (j_request (journal control)))"

definition clear_journal ::
    "durable_control_state \<Rightarrow> virtio_mem_state \<Rightarrow> u64 \<Rightarrow> rust_str \<Rightarrow> rust_str + memory_request_journal" where
  "clear_journal control live observed why =
     (if j_request (journal control) \<noteq> None \<and> unresolved (journal control) then
        (case clear_result control live observed why of
           None \<Rightarrow> Inr (journal control)
         | Some result \<Rightarrow> record_result (journal control) result)
      else Inr (journal control))"

text \<open>The message of a success, and the file afterwards.\<close>

definition clear_actuation_latch ::
    "(checkpoint_file \<Rightarrow> rust_str + 'b list) \<Rightarrow> fs_answers \<Rightarrow> host_config \<Rightarrow> virtio_mem_state \<Rightarrow> rust_str \<Rightarrow>
     rust_str \<Rightarrow> u64 \<Rightarrow> bool \<Rightarrow> rust_str + unit \<Rightarrow> rust_str + checkpoint_file option \<Rightarrow> 'b list option \<Rightarrow>
     (rust_str + rust_str) \<times> 'b list option" where
  "clear_actuation_latch to_vec fs hc live fingerprint why0 observed apply acquired loaded disk =
     (let why = trim why0 in
      if why = [] \<or> 256 < str_len why \<or> list_ex is_control why
        then (Inl (lit ''latch-clear reason must be 1..=256 bytes without control characters''), disk)
      else case validate_device live of
        Inl e \<Rightarrow> (Inl (display_virtio_mem_error e), disk)
      | Inr _ \<Rightarrow>
          if requested_bytes live \<noteq> current_bytes live
            then (Inl (lit ''clear-latch refuses divergent requested/current state''), disk)
          else case open_with hc fingerprint True acquired loaded of
            Inl e \<Rightarrow> (Inl e, disk)
          | Inr (cp, control) \<Rightarrow>
              if \<not> latched control then (Inl (lit ''target-controller actuation is not latched''), disk)
              else
                let message = lit ''clear_latch vm='' @ hc_vm_name hc @ lit '' alias='' @ hc_alias hc
                      @ lit '' requested_bytes='' @ show_u64 (requested_bytes live)
                      @ lit '' current_bytes='' @ show_u64 (current_bytes live) @ lit '' reason='' @ why in
                if \<not> apply then (Inr message, disk)
                else case clear_journal control live observed why of
                  Inl e \<Rightarrow> (Inl e, disk)
                | Inr j \<Rightarrow>
                    let (saved, disk') = save_checkpoint to_vec fs (cp\<lparr>cp_last_latch_clear_reason := Some why\<rparr>)
                          \<lparr>latch_reason = None, intent = None, journal = j\<rparr> disk
                    in (and_then saved (\<lambda>_. Inr message), disk'))"

section \<open>Well-formed control state\<close>

text \<open>
  What every written control state satisfies: a valid journal, an identified intent that belongs to an
  admitted request, and a latch that left no request without a result.
\<close>

definition wf_control :: "durable_control_state \<Rightarrow> bool" where
  "wf_control control \<longleftrightarrow>
     wf_journal (journal control)
     \<and> (\<forall>i. intent control = Some i \<longrightarrow> trim (operation_id i) \<noteq> [])
     \<and> (latched control \<longrightarrow> j_request (journal control) = None \<or> j_result (journal control) \<noteq> None)"

lemma wf_control_default: "wf_control default_control"
  by (simp add: wf_control_def default_control_def empty_journal_def wf_journal_def latched_def)

lemma load_ok:
  "load from_slice stat vm alias = Inr (Some f) \<longleftrightarrow>
     (\<exists>len bytes. stat = FileLen len (Inr bytes) \<and> len \<le> MAX_CHECKPOINT_BYTES \<and> from_slice bytes = Inr f
        \<and> cf_version f = CHECKPOINT_VERSION \<and> cf_vm_name f = vm \<and> cf_device_alias f = alias
        \<and> wf_journal (journal (cf_control f))
        \<and> (\<forall>i. intent (cf_control f) = Some i \<longrightarrow> trim (operation_id i) \<noteq> []))"
  by (auto simp: load_def result_simps not_less split: file_stat.splits if_splits option.splits)

lemma persist_cases:
  assumes "persist to_vec fs path f disk = (r, disk')"
  shows "disk' = disk \<and> r \<noteq> Inr () \<or> (\<exists>bytes. to_vec f = Inr bytes \<and> disk' = Some bytes
    \<and> int_length bytes \<le> MAX_CHECKPOINT_BYTES)"
  using assms by (auto simp: persist_def not_less split: sum.splits if_splits)

lemma movement_result_request: "movement_result j i live t w = Some x \<Longrightarrow> j_request j = Some (request x)"
  by (auto simp: movement_result_def Let_def split: option.splits)

lemma movement_result_terminal: "movement_result j i live t w = Some x \<Longrightarrow> terminal x"
  by (auto simp: movement_result_def Let_def terminal_def split: option.splits if_splits)

lemma movement_result_valid:
  assumes "movement_result j i live t w = Some x" and "j_request j = Some r" and "wf_request r" and "t \<noteq> 0"
  shows "validate_result_for (x\<lparr>reason := map_option bounded_reason (reason x)\<rparr>) r = Inr ()"
  using assms by (auto simp: movement_result_def Let_def result_simps order.not_eq_order_implies_strict)

text \<open>
  The result a command ends with is recorded unless the clock runs behind an earlier uncertain result.
\<close>

lemma record_movement:
  assumes "movement_result j i live t w = Some x" and "wf_journal j" and "unresolved j" and "t \<noteq> 0"
    and "\<forall>p. j_result j = Some p \<longrightarrow> result_observed_unix_millis p \<le> t"
  shows "record_result j x = Inr (j\<lparr>j_result := Some (x\<lparr>reason := map_option bounded_reason (reason x)\<rparr>)\<rparr>)"
proof -
  obtain r where r: "j_request j = Some r" "request x = r" using movement_result_request [OF assms(1)] by simp
  have "wf_request r" using assms(2) r(1) by (simp add: wf_journal_def)
  from movement_result_valid [OF assms(1) r(1) this assms(4)]
  have "validate_result_for (x\<lparr>reason := map_option bounded_reason (reason x)\<rparr>) r = Inr ()" .
  moreover have "result_observed_unix_millis x = t"
    using assms(1) r(1) by (auto simp: movement_result_def Let_def)
  moreover have "\<not> terminal p" if "j_result j = Some p" for p
    using that assms(3) by (simp add: unresolved_def)
  ultimately show ?thesis
    using r(1) assms(2,5) by (auto simp: record_result_iff)
qed

section \<open>Properties\<close>

text \<open>
  C34. Saving is all or nothing, and what was saved is what a restart loads: after a successful save the
  file is the encoding of exactly the control state passed, and loading it under the same VM and
  alias gives it back; a save that fails leaves the old file, or the complete new one when only the
  final directory flush failed. The hypothesis on the codec is that decoding inverts encoding.
\<close>

theorem checkpoint_roundtrip:
  assumes "save_checkpoint to_vec fs cp control disk = (r, disk')" and "wf_control control"
    and codec: "\<And>f bytes. to_vec f = Inr bytes \<Longrightarrow> from_slice bytes = Inr f"
  shows "(r = Inr () \<longrightarrow> disk' \<noteq> None) \<and> (disk' = disk \<and> r \<noteq> Inr ()
    \<or> (\<exists>bytes. disk' = Some bytes
        \<and> load from_slice (FileLen (int_length bytes) (Inr bytes)) (cp_vm_name cp) (cp_device_alias cp)
            = Inr (Some (checkpoint_contents cp control))))"
proof -
  have "persist to_vec fs (cp_path cp) (checkpoint_contents cp control) disk = (r, disk')"
    using assms(1) by (simp add: save_checkpoint_def)
  from persist_cases [OF this] show ?thesis
  proof
    assume "\<exists>bytes. to_vec (checkpoint_contents cp control) = Inr bytes \<and> disk' = Some bytes
      \<and> int_length bytes \<le> MAX_CHECKPOINT_BYTES"
    then obtain bytes where b: "to_vec (checkpoint_contents cp control) = Inr bytes" "disk' = Some bytes"
      "int_length bytes \<le> MAX_CHECKPOINT_BYTES" by blast
    have "load from_slice (FileLen (int_length bytes) (Inr bytes)) (cp_vm_name cp) (cp_device_alias cp)
        = Inr (Some (checkpoint_contents cp control))"
      unfolding load_ok using b assms(2) codec by (auto simp: checkpoint_contents_def wf_control_def)
    then show ?thesis using b(2) by blast
  qed blast
qed

definition sample_fs :: fs_answers where
  "sample_fs = \<lparr>fs_create_dir = Inr (), fs_write_temporary = Inr (), fs_rename = Inr (), fs_sync_dir = Inr ()\<rparr>"

definition sample_checkpoint :: checkpoint where
  "sample_checkpoint =
     \<lparr>cp_path = lit ''/var/lib/virtio-mem-host/state/win11-requests.json'', cp_vm_name = lit ''win11'',
      cp_device_alias = lit ''virtiomem0'', cp_fingerprint = lit ''f'', cp_last_latch_clear_reason = None\<rparr>"

theorem checkpoint_roundtrip_witness:
  "\<exists>bytes. snd (save_checkpoint (\<lambda>f. Inr [f]) sample_fs sample_checkpoint default_control None) = Some bytes
     \<and> load (\<lambda>b. case b of [f] \<Rightarrow> Inr f | _ \<Rightarrow> Inl []) (FileLen (int_length bytes) (Inr bytes))
         (lit ''win11'') (lit ''virtiomem0'') = Inr (Some (checkpoint_contents sample_checkpoint default_control))"
proof -
  let ?x = "save_checkpoint (\<lambda>f. Inr [f]) sample_fs sample_checkpoint default_control None"
  have "is_ok (fst ?x)" by code_simp
  then have ok: "fst ?x = Inr ()" by (simp add: is_ok_unit)
  have x: "?x = (fst ?x, snd ?x)" by simp
  have n: "cp_vm_name sample_checkpoint = lit ''win11''" "cp_device_alias sample_checkpoint = lit ''virtiomem0''"
    by (simp_all add: sample_checkpoint_def)
  show ?thesis
    using checkpoint_roundtrip [OF x wf_control_default, of "\<lambda>b. case b of [f] \<Rightarrow> Inr f | _ \<Rightarrow> Inl []"] ok
    unfolding n by auto
qed

lemma clear_result_terminal:
  "clear_result control live t why = Some x \<Longrightarrow> terminal x"
  using movement_result_terminal by (auto simp: clear_result_def rejected_result_def terminal_def split: option.splits)

lemma clear_result_exists: "j_request (journal control) \<noteq> None \<Longrightarrow> clear_result control live t why \<noteq> None"
  by (auto simp: clear_result_def movement_result_def Let_def split: option.splits)

lemma clear_journal_settles:
  assumes "clear_journal control live t why = Inr j"
  shows "j_request j = j_request (journal control)" and "j_request j = None \<or> settled j"
proof -
  have "j_request j = j_request (journal control) \<and> (j_request j = None \<or> settled j)"
  proof (cases "j_request (journal control) \<noteq> None \<and> unresolved (journal control)")
    case True
    then obtain x where x: "clear_result control live t why = Some x"
      using clear_result_exists by blast
    then have "record_result (journal control) x = Inr j" using assms True by (simp add: clear_journal_def)
    then show ?thesis
      using clear_result_terminal [OF x] by (auto simp: record_result_iff settled_def)
  next
    case False
    then show ?thesis
      using assms by (auto simp: clear_journal_def unresolved_def settled_def split: option.splits)
  qed
  then show "j_request j = j_request (journal control)" and "j_request j = None \<or> settled j" by auto
qed

lemma open_with_ok:
  assumes "open_with hc fp migrate acquired loaded = Inr (cp, control)"
  obtains f where "loaded = Inr f" "control = (case f of None \<Rightarrow> default_control | Some f \<Rightarrow> cf_control f)"
    "cp_path cp = policy_state_path hc" "cp_vm_name cp = hc_vm_name hc" "cp_device_alias cp = hc_alias hc"
    "cp_fingerprint cp = fp"
    "migrate \<or> (\<forall>g. f = Some g \<and> control_pending (cf_control g) \<longrightarrow> cf_fingerprint_sha256 g = fp)"
  using assms by (auto simp: open_with_def result_simps split: option.splits if_splits)

text \<open>
  A successful \<open>clear-latch --apply\<close> happens only on a converged, sound device with a latched
  checkpoint, and then the file holds a control state with no latch and no intent, stamped with the
  current attestation, whose journal is the old one except that an unresolved request has a terminal
  result: no request is left without an answer.
\<close>

theorem clear_latch_resolves:
  assumes clear: "clear_actuation_latch to_vec fs hc live fp why t True acquired loaded disk = (Inr m, disk')"
  shows "\<exists>f j bytes. loaded = Inr (Some f) \<and> latched (cf_control f) \<and> wf_device live
    \<and> requested_bytes live = current_bytes live
    \<and> disk' = Some bytes \<and> to_vec (checkpoint_contents
         \<lparr>cp_path = policy_state_path hc, cp_vm_name = hc_vm_name hc, cp_device_alias = hc_alias hc,
          cp_fingerprint = fp, cp_last_latch_clear_reason = Some (trim why)\<rparr>
         \<lparr>latch_reason = None, intent = None, journal = j\<rparr>) = Inr bytes
    \<and> j_request j = j_request (journal (cf_control f)) \<and> (j_request j = None \<or> settled j)"
proof -
  obtain cp control j saved where live: "wf_device live" "requested_bytes live = current_bytes live"
    and opn: "open_with hc fp True acquired loaded = Inr (cp, control)" and lat: "latched control"
    and j: "clear_journal control live t (trim why) = Inr j"
    and sv: "save_checkpoint to_vec fs (cp\<lparr>cp_last_latch_clear_reason := Some (trim why)\<rparr>)
        \<lparr>latch_reason = None, intent = None, journal = j\<rparr> disk = (saved, disk')"
    and ok: "saved = Inr ()"
    using clear
    by (auto simp: clear_actuation_latch_def Let_def result_simps split: if_splits sum.splits prod.splits)
  obtain f where f: "loaded = Inr f" "control = (case f of None \<Rightarrow> default_control | Some f \<Rightarrow> cf_control f)"
    and cp: "cp_path cp = policy_state_path hc" "cp_vm_name cp = hc_vm_name hc" "cp_device_alias cp = hc_alias hc"
      "cp_fingerprint cp = fp"
    by (rule open_with_ok [OF opn])
  obtain g where g: "f = Some g" "control = cf_control g"
    using f(2) lat by (cases f) (auto simp: latched_def default_control_def)
  obtain bytes where b: "to_vec (checkpoint_contents (cp\<lparr>cp_last_latch_clear_reason := Some (trim why)\<rparr>)
      \<lparr>latch_reason = None, intent = None, journal = j\<rparr>) = Inr bytes" "disk' = Some bytes"
    using persist_cases [OF sv [unfolded save_checkpoint_def]] ok by blast
  have "cp\<lparr>cp_last_latch_clear_reason := Some (trim why)\<rparr> =
    \<lparr>cp_path = policy_state_path hc, cp_vm_name = hc_vm_name hc, cp_device_alias = hc_alias hc,
     cp_fingerprint = fp, cp_last_latch_clear_reason = Some (trim why)\<rparr>" using cp by (cases cp) simp
  then show ?thesis
    using live f(1) g lat b clear_journal_settles [OF j] by metis
qed

definition sample_live :: virtio_mem_state where
  "sample_live = \<lparr>size_bytes = 8589934592, block_size_bytes = 2097152,
     requested_bytes = 2147483648, current_bytes = 2147483648\<rparr>"

definition sample_host_config :: host_config where
  "sample_host_config =
     resolve_config default_globals \<lparr>hv_vm_name = lit ''win11'', hv_alias = lit ''virtiomem0'', hv_priority = 10,
                                     hv_telemetry_path = None\<rparr> sample_vm"

definition sample_latched :: checkpoint_file where
  "sample_latched =
     \<lparr>cf_version = CHECKPOINT_VERSION, cf_vm_name = lit ''win11'', cf_device_alias = lit ''virtiomem0'',
      cf_fingerprint_sha256 = replicate 64 97,
      cf_control = \<lparr>latch_reason = Some (lit ''resize command failed''), intent = None,
        journal = \<lparr>j_request = Some (sample_request 1 1000000),
          j_result = Some \<lparr>request = sample_request 1 1000000, outcome = Uncertain, actual_bytes = 0,
            result_observed_unix_millis = 1005000, reason = Some (lit ''resize command failed'')\<rparr>\<rparr>\<rparr>,
      cf_last_latch_clear_reason = None\<rparr>"

theorem clear_latch_resolves_witness:
  "\<exists>j bytes. snd (clear_actuation_latch (\<lambda>f. Inr [f]) sample_fs sample_host_config sample_live (replicate 64 98)
        (lit ''reviewed'') 1010000 True (Inr ()) (Inr (Some sample_latched)) None) = Some bytes
     \<and> j_request j = Some (sample_request 1 1000000) \<and> settled j"
proof -
  let ?x = "clear_actuation_latch (\<lambda>f. Inr [f]) sample_fs sample_host_config sample_live (replicate 64 98)
        (lit ''reviewed'') 1010000 True (Inr ()) (Inr (Some sample_latched)) None"
  have "is_ok (fst ?x)" by code_simp
  then obtain m where "fst ?x = Inr m" by (auto simp: is_ok_iff)
  then have x: "?x = (Inr m, snd ?x)" by (metis prod.collapse)
  have "j_request (journal (cf_control sample_latched)) = Some (sample_request 1 1000000)"
    by (simp add: sample_latched_def)
  then show ?thesis using clear_latch_resolves [OF x] by auto
qed

lemma wf_reason_prefixed:
  assumes "wf_reason (Some r)"
  shows "wf_reason (Some (lit ''actuation_latched: '' @ r)) \<longleftrightarrow> str_len r \<le> 1005"
proof -
  have closed: "str_len (lit ''actuation_latched: '') = 19" "\<not> list_ex is_control (lit ''actuation_latched: '')"
    "\<not> list_all is_whitespace (lit ''actuation_latched: '')" by code_simp+
  then have "trim (lit ''actuation_latched: '' @ r) \<noteq> []" by (simp add: trim_empty_iff)
  then show ?thesis using closed assms by (auto simp: wf_reason_def)
qed

lemma ownership_reason_wf: "wf_reason (ownership_reason c)"
proof -
  have "wf_reason (ownership_reason OwnershipNone)" "wf_reason (ownership_reason OwnedPending)"
    "wf_reason (ownership_reason OwnedConvergedUnresolved)" "wf_reason (ownership_reason UnownedPending)"
    "wf_reason (ownership_reason RecordedNotApplied)" "wf_reason (ownership_reason OwnershipConflict)"
    by code_simp+
  then show ?thesis by (cases c) simp_all
qed

lemma recovery_reason_wf:
  assumes "wf_reason (latch_reason control)"
  shows "wf_reason (recovery_reason control changed ownership) \<longleftrightarrow>
    (\<forall>r. latch_reason control = Some r \<longrightarrow> str_len r \<le> 1005)"
proof (cases "latch_reason control")
  case None
  have "wf_reason (Some (lit ''compatibility attestation changed while control state is pending''))" by code_simp
  then show ?thesis using None by (simp add: recovery_reason_def ownership_reason_wf)
next
  case (Some r)
  then show ?thesis using assms wf_reason_prefixed [of r] by (simp add: recovery_reason_def)
qed

lemma ownership_detail:
  "command_required (command_ownership i live) \<longleftrightarrow> i \<noteq> None"
  "command_ownership i live = OwnershipNone \<Longrightarrow> requested_bytes live = current_bytes live"
  "command_ownership i live = UnownedPending \<Longrightarrow> requested_bytes live \<noteq> current_bytes live"
  by (auto simp: command_ownership_def split: option.splits if_splits)

lemma validate_command_snapshot:
  assumes "\<forall>i. intent (cf_control f) = Some i \<longrightarrow>
      validate_status_identity (operation_id i) = Inr () \<and> is_multiple_of (target_bytes i) (block_size_bytes live)"
  shows "validate_command (controller_snapshot hc live input fp t (Some f)) = Inr ()"
proof -
  note detail = ownership_detail [of "intent (cf_control f)" live]
  show ?thesis
    using assms detail
    by (auto simp: validate_command_def controller_snapshot_def Let_def intent_status_def split: option.splits)
qed

text \<open>
  C35. On a readable, well-formed checkpoint and valid inputs the status report fails exactly when the
  control state is latched with a reason of more than 1005 bytes. Latch reasons are bounded to 1024
  bytes only, and the report prefixes 19 more to the recovery reason, whose own bound is again 1024: a
  latch with a long reason, just when an operator needs the report, makes it unavailable.
\<close>

theorem status_report_available:
  assumes "wf_device live" and "validate_status_identity (hc_vm_name hc) = Inr ()"
    and "validate_status_identity (hc_alias hc) = Inr ()" and "validate_sha256 fp = Inr ()"
    and "wf_reason (input_error input)"
    and "(input_error input = None) = (input_observed_unix_millis input \<noteq> None)"
    and "input_request input \<noteq> None \<longrightarrow> input_observed_unix_millis input \<noteq> None"
    and "wf_control (cf_control f)" and "wf_reason (latch_reason (cf_control f))"
    and "wf_reason (cf_last_latch_clear_reason f)"
    and "\<forall>i. intent (cf_control f) = Some i \<longrightarrow>
      validate_status_identity (operation_id i) = Inr () \<and> is_multiple_of (target_bytes i) (block_size_bytes live)"
  shows "is_ok (read_controller_status hc live input fp t (Inr (Some f))) \<longleftrightarrow>
    (\<forall>r. latch_reason (cf_control f) = Some r \<longrightarrow> str_len r \<le> 1005)"
proof -
  let ?s = "controller_snapshot hc live input fp t (Some f)"
  let ?recovery = "recovery_reason (cf_control f) (cf_fingerprint_sha256 f \<noteq> fp)
    (command_ownership (intent (cf_control f)) live)"
  have fields: "css_version ?s = CONTROLLER_STATUS_VERSION" "css_vm_name ?s = hc_vm_name hc"
    "css_device_alias ?s = hc_alias hc" "css_fingerprint_sha256 ?s = fp" "css_guest_input ?s = input"
    "css_maximum_target_bytes ?s = device_maximum_target live" "css_latch_reason ?s = latch_reason (cf_control f)"
    "css_admitted_request ?s = j_request (journal (cf_control f))" "css_result ?s = j_result (journal (cf_control f))"
    "css_recovery_reason ?s = ?recovery" "css_recovery_state ?s = (if ?recovery \<noteq> None then ReviewRequired else NotRequired)"
    "css_last_latch_clear_reason ?s = cf_last_latch_clear_reason f" "css_actuation_latched ?s = latched (cf_control f)"
    by (simp_all add: controller_snapshot_def Let_def)
  have live: "status_live ?s = live" by (simp add: status_live_def controller_snapshot_def Let_def)
  have journal: "validate_admission (j_request (journal (cf_control f))) (j_result (journal (cf_control f))) = Inr ()"
    using assms(8) by (simp add: validate_admission_journal wf_control_def)
  have dev: "validate_device live = Inr ()" using assms(1) by (simp add: validate_device_ok)
  have "validate_status_snapshot ?s = Inr () \<longleftrightarrow> wf_reason ?recovery"
    using assms(2-7,9,10) dev journal validate_command_snapshot [OF assms(11)]
    by (simp add: validate_status_snapshot_def fields live latched_def) (auto simp: result_simps)
  moreover have "is_ok (read_controller_status hc live input fp t (Inr (Some f))) \<longleftrightarrow> validate_status_snapshot ?s = Inr ()"
    using dev by (auto simp: read_controller_status_def Let_def result_simps)
  ultimately show ?thesis using recovery_reason_wf [OF assms(9)] by simp
qed

theorem status_report_available_witness:
  "is_ok (read_controller_status sample_host_config sample_live
     \<lparr>input_error = Some (lit ''guest is off''), input_observed_unix_millis = None, input_request = None\<rparr>
     (replicate 64 98) 1010000 (Inr (Some sample_latched)))"
proof -
  let ?input = "\<lparr>input_error = Some (lit ''guest is off''), input_observed_unix_millis = None, input_request = None\<rparr>"
  have device: "wf_device sample_live"
    and names: "validate_status_identity (hc_vm_name sample_host_config) = Inr ()"
      "validate_status_identity (hc_alias sample_host_config) = Inr ()" "validate_sha256 (replicate 64 98) = Inr ()"
    and reasons: "wf_reason (input_error ?input)" "wf_reason (latch_reason (cf_control sample_latched))"
      "wf_reason (cf_last_latch_clear_reason sample_latched)"
    and short: "str_len (lit ''resize command failed'') \<le> 1005"
    and journal: "is_ok (validate_journal (journal (cf_control sample_latched)))"
    by code_simp+
  have control: "wf_control (cf_control sample_latched)"
    using journal by (auto simp: wf_control_def is_ok_iff validate_journal_ok) (simp_all add: sample_latched_def)
  have none: "intent (cf_control sample_latched) = None"
    "latch_reason (cf_control sample_latched) = Some (lit ''resize command failed'')"
    by (simp_all add: sample_latched_def)
  show ?thesis
    using status_report_available [OF device names reasons(1) _ _ control reasons(2,3), of 1010000] none short by simp
qed

end
