(* ===== verification/Compatibility.thy ===== *)
theory Compatibility
  imports Rust_Strings
begin

text \<open>
  Compatibility evidence: \<open>compatibility.rs\<close> of the core crate. Evidence is ordered by information,
  with \<open>Unknown\<close> below the two verdicts; merging two sources gives their least upper bound, and fails
  exactly when they contradict each other. A resize is allowed only on evidence whose every part was
  confirmed by a source and rejected by none.
\<close>

section \<open>Definitions\<close>

datatype compatibility_evidence = Confirmed | Rejected | Unknown

record virtio_mem_compatibility =
  dynamic_memslots :: compatibility_evidence
  unplugged_inaccessible :: compatibility_evidence
  workload_review :: compatibility_evidence

definition unknown_compatibility :: virtio_mem_compatibility where
  "unknown_compatibility =
     \<lparr>dynamic_memslots = Unknown, unplugged_inaccessible = Unknown, workload_review = Unknown\<rparr>"

definition confirmed_compatibility :: virtio_mem_compatibility where
  "confirmed_compatibility =
     \<lparr>dynamic_memslots = Confirmed, unplugged_inaccessible = Confirmed, workload_review = Confirmed\<rparr>"

datatype compatibility_error = InsufficientEvidence rust_str | ConflictingEvidence rust_str

fun display_compatibility_error :: "compatibility_error \<Rightarrow> rust_str" where
  "display_compatibility_error (InsufficientEvidence what) =
     lit ''virtio-mem compatibility evidence is insufficient: '' @ what"
| "display_compatibility_error (ConflictingEvidence what) =
     lit ''conflicting virtio-mem compatibility evidence for '' @ what"

definition merge_evidence ::
    "compatibility_evidence \<Rightarrow> compatibility_evidence \<Rightarrow> rust_str \<Rightarrow>
     compatibility_error + compatibility_evidence" where
  "merge_evidence first second field =
     (if first = Unknown then Inr second
      else if second = Unknown then Inr first
      else if first = second then Inr first
      else Inl (ConflictingEvidence field))"

definition merge_compatibility ::
    "virtio_mem_compatibility \<Rightarrow> virtio_mem_compatibility \<Rightarrow>
     compatibility_error + virtio_mem_compatibility" where
  "merge_compatibility self other =
     and_then (merge_evidence (dynamic_memslots self) (dynamic_memslots other)
       (lit ''dynamic-memslots'')) (\<lambda>d.
     and_then (merge_evidence (unplugged_inaccessible self) (unplugged_inaccessible other)
       (lit ''unplugged-inaccessible'')) (\<lambda>u.
     and_then (merge_evidence (workload_review self) (workload_review other)
       (lit ''workload compatibility review'')) (\<lambda>w.
     Inr \<lparr>dynamic_memslots = d, unplugged_inaccessible = u, workload_review = w\<rparr>)))"

definition validate_for_resize :: "virtio_mem_compatibility \<Rightarrow> compatibility_error + unit" where
  "validate_for_resize c =
     (if dynamic_memslots c \<noteq> Confirmed
        then Inl (InsufficientEvidence (lit ''dynamic-memslots must be explicitly enabled''))
      else if unplugged_inaccessible c \<noteq> Confirmed
        then Inl (InsufficientEvidence (lit ''unplugged-inaccessible must be explicitly enabled''))
      else if workload_review c \<noteq> Confirmed
        then Inl (InsufficientEvidence (lit ''incompatible workload/device review must be confirmed''))
      else Inr ())"

section \<open>The information order\<close>

instantiation compatibility_evidence :: order
begin

definition less_eq_compatibility_evidence :: "compatibility_evidence \<Rightarrow> compatibility_evidence \<Rightarrow> bool" where
  "a \<le> b \<longleftrightarrow> a = Unknown \<or> a = b"

definition less_compatibility_evidence :: "compatibility_evidence \<Rightarrow> compatibility_evidence \<Rightarrow> bool" where
  "a < b \<longleftrightarrow> a \<le> b \<and> a \<noteq> (b :: compatibility_evidence)"

instance
  by standard (auto simp: less_eq_compatibility_evidence_def less_compatibility_evidence_def)

end

definition at_most :: "virtio_mem_compatibility \<Rightarrow> virtio_mem_compatibility \<Rightarrow> bool" where
  "at_most a b \<longleftrightarrow> dynamic_memslots a \<le> dynamic_memslots b
     \<and> unplugged_inaccessible a \<le> unplugged_inaccessible b \<and> workload_review a \<le> workload_review b"

lemma merge_evidence_least:
  "merge_evidence a b f = Inr c \<longleftrightarrow> a \<le> c \<and> b \<le> c \<and> (c = a \<or> c = b)"
  by (cases a; cases b; cases c) (simp_all add: merge_evidence_def less_eq_compatibility_evidence_def)

lemma merge_evidence_conflict:
  "merge_evidence a b f = Inl e \<longleftrightarrow> e = ConflictingEvidence f \<and> (\<nexists>c. a \<le> c \<and> b \<le> c)"
  by (cases a; cases b) (auto simp: merge_evidence_def less_eq_compatibility_evidence_def)

lemma merge_compatibility_Inr:
  "merge_compatibility a b = Inr c \<longleftrightarrow>
     merge_evidence (dynamic_memslots a) (dynamic_memslots b) (lit ''dynamic-memslots'')
       = Inr (dynamic_memslots c)
     \<and> merge_evidence (unplugged_inaccessible a) (unplugged_inaccessible b) (lit ''unplugged-inaccessible'')
       = Inr (unplugged_inaccessible c)
     \<and> merge_evidence (workload_review a) (workload_review b) (lit ''workload compatibility review'')
       = Inr (workload_review c)"
  by (cases c) (auto simp: merge_compatibility_def and_then_Inr)

lemma at_most_antisym: "at_most a b \<Longrightarrow> at_most b a \<Longrightarrow> a = b"
  by (cases a; cases b) (auto simp: at_most_def intro: order.antisym)

lemma merge_evidence_bound:
  "merge_evidence a b f = Inr c \<Longrightarrow> a \<le> d \<Longrightarrow> b \<le> d \<Longrightarrow> c \<le> d"
  by (auto simp: merge_evidence_least)

lemma merged_upper_bound: "merge_compatibility a b = Inr c \<Longrightarrow> at_most a c \<and> at_most b c"
  by (simp add: merge_compatibility_Inr merge_evidence_least at_most_def)

lemma merged_least: "merge_compatibility a b = Inr c \<Longrightarrow> at_most a d \<Longrightarrow> at_most b d \<Longrightarrow> at_most c d"
  unfolding merge_compatibility_Inr at_most_def by (blast intro: merge_evidence_bound)

lemma merge_conflict: "merge_compatibility a b = Inl e \<Longrightarrow> at_most a d \<Longrightarrow> at_most b d \<Longrightarrow> False"
  by (auto simp: merge_compatibility_def and_then_Inl merge_evidence_conflict at_most_def)

lemma validate_for_resize_ok [result_simps]:
  "validate_for_resize c = Inr u \<longleftrightarrow> c = confirmed_compatibility"
  by (cases c) (auto simp: validate_for_resize_def confirmed_compatibility_def)

section \<open>Properties\<close>

text \<open>
  C26. Merging evidence from two sources gives the least evidence that contains both, and is refused
  exactly when no evidence contains both, that is when the sources contradict each other.
\<close>

theorem merge_is_least_upper_bound:
  "(\<forall>c. merge_compatibility a b = Inr c \<longleftrightarrow>
      at_most a c \<and> at_most b c \<and> (\<forall>d. at_most a d \<and> at_most b d \<longrightarrow> at_most c d))
   \<and> ((\<exists>e. merge_compatibility a b = Inl e) \<longleftrightarrow> (\<nexists>c. at_most a c \<and> at_most b c))"
proof (cases "merge_compatibility a b")
  case (Inl e)
  then show ?thesis using merge_conflict [OF Inl] by auto
next
  case (Inr m)
  have "m = c \<longleftrightarrow> at_most a c \<and> at_most b c \<and> (\<forall>d. at_most a d \<and> at_most b d \<longrightarrow> at_most c d)" for c
    using merged_upper_bound [OF Inr] merged_least [OF Inr] by (blast intro: at_most_antisym)
  then show ?thesis using Inr merged_upper_bound [OF Inr] by auto
qed

theorem merge_is_least_upper_bound_witness:
  "\<not> (\<exists>c. at_most confirmed_compatibility c
        \<and> at_most (unknown_compatibility\<lparr>dynamic_memslots := Rejected\<rparr>) c)"
proof -
  have "merge_compatibility confirmed_compatibility (unknown_compatibility\<lparr>dynamic_memslots := Rejected\<rparr>)
      = Inl (ConflictingEvidence (lit ''dynamic-memslots''))"
    by code_simp
  then show ?thesis
    using merge_is_least_upper_bound
      [of confirmed_compatibility "unknown_compatibility\<lparr>dynamic_memslots := Rejected\<rparr>"]
    by blast
qed

text \<open>
  A resize passes the compatibility gate only if every part of the evidence was confirmed by the
  device description or the attestation and rejected by neither.
\<close>

theorem resize_needs_confirmation:
  assumes "merge_compatibility a b = Inr c" and "validate_for_resize c = Inr ()"
    and "part = dynamic_memslots \<or> part = unplugged_inaccessible \<or> part = workload_review"
  shows "(part a = Confirmed \<or> part b = Confirmed) \<and> part a \<noteq> Rejected \<and> part b \<noteq> Rejected"
proof -
  have sources: "(x = Confirmed \<or> y = Confirmed) \<and> x \<noteq> Rejected \<and> y \<noteq> Rejected"
    if "merge_evidence x y f = Inr Confirmed" for x y f
    using that by (cases x; cases y) (simp_all add: merge_evidence_def)
  show ?thesis
    using assms(1,3) sources
    unfolding merge_compatibility_Inr assms(2) [unfolded validate_for_resize_ok]
    by (auto simp: confirmed_compatibility_def)
qed

theorem resize_needs_confirmation_witness:
  "let xml = confirmed_compatibility\<lparr>workload_review := Unknown\<rparr> in
   merge_compatibility xml confirmed_compatibility = Inr confirmed_compatibility
   \<and> (workload_review xml = Confirmed \<or> workload_review confirmed_compatibility = Confirmed)"
proof -
  let ?xml = "confirmed_compatibility\<lparr>workload_review := Unknown\<rparr>"
  have m: "merge_compatibility ?xml confirmed_compatibility = Inr confirmed_compatibility" by code_simp
  have "validate_for_resize confirmed_compatibility = Inr ()" by code_simp
  from resize_needs_confirmation [OF m this, of workload_review] m show ?thesis by simp
qed

end
