(* ===== verification/Virtio_Mem_Xml.thy ===== *)
theory Virtio_Mem_Xml
  imports Virtio_Mem Compatibility
begin

text \<open>
  Reading the device from libvirt's domain XML: \<open>virtio_mem_xml.rs\<close> of the core crate.

  The XML tokenizer (the crate \<open>quick-xml\<close>) is a parameter: \<open>reader trim_text text\<close> is the list of
  the events it reports for a text, each with the piece of the text it was read from, so that the slice
  between two reader positions is the concatenation of the pieces between them. An attribute of an
  element is a key with its normalized value, or the error of the attribute iterator or of the
  normalization. What an event list ends with (\<open>Eof\<close> or an error) ends the loops of the code.

  The theorems show that the alias-scoped parser is the composition of cutting the document into its
  virtio-mem devices, parsing each and selecting by alias, and what any device it returns satisfies.
\<close>

section \<open>Events\<close>

type_synonym xml_attribute = "rust_str + rust_str \<times> (rust_str + rust_str)"

record xml_element =
  el_name :: rust_str
  el_attributes :: "xml_attribute list"

datatype xml_event =
    XStart xml_element
  | XEmpty xml_element
  | XText "rust_str + rust_str"
  | XEnd rust_str
  | XEof
  | XError rust_str
  | XOther

type_synonym xml_item = "rust_str \<times> xml_event"

type_synonym xml_reader = "bool \<Rightarrow> rust_str \<Rightarrow> xml_item list"

section \<open>The parsed state and its errors\<close>

record virtio_mem_xml_state =
  xml_alias :: rust_str
  xml_memory :: virtio_mem_state
  xml_compatibility :: virtio_mem_compatibility

datatype virtio_mem_xml_error =
    InvalidXml rust_str
  | MissingMemoryModel
  | UnexpectedModel rust_str
  | MissingField rust_str
  | InvalidValue rust_str rust_str
  | UnsupportedUnit rust_str rust_str
  | Overflow rust_str
  | AliasNotFound rust_str
  | DuplicateAlias rust_str
  | InvalidState virtio_mem_error

fun display_virtio_mem_xml_error :: "virtio_mem_xml_error \<Rightarrow> rust_str" where
  "display_virtio_mem_xml_error (InvalidXml e) = lit ''invalid virtio-mem XML: '' @ e"
| "display_virtio_mem_xml_error MissingMemoryModel = lit ''virtio-mem XML does not contain a memory model''"
| "display_virtio_mem_xml_error (UnexpectedModel m) = lit ''virtio-mem XML has an unexpected model: '' @ m"
| "display_virtio_mem_xml_error (MissingField f) = lit ''virtio-mem XML is missing '' @ f"
| "display_virtio_mem_xml_error (InvalidValue f v) =
     lit ''virtio-mem XML field '' @ f @ lit '' has invalid value '' @ v"
| "display_virtio_mem_xml_error (UnsupportedUnit f u) =
     lit ''virtio-mem XML field '' @ f @ lit '' uses unsupported unit '' @ u"
| "display_virtio_mem_xml_error (Overflow f) =
     lit ''virtio-mem XML field '' @ f @ lit '' overflows when converted to bytes''"
| "display_virtio_mem_xml_error (AliasNotFound a) = lit ''virtio-mem XML does not contain alias '' @ a"
| "display_virtio_mem_xml_error (DuplicateAlias a) =
     lit ''virtio-mem XML contains alias '' @ a @ lit '' more than once''"
| "display_virtio_mem_xml_error (InvalidState e) = display_virtio_mem_error e"

datatype xml_unit = Bytes | Kibibytes | Mebibytes | Gibibytes

definition parse_xml_unit :: "rust_str \<Rightarrow> rust_str option \<Rightarrow> virtio_mem_xml_error + xml_unit" where
  "parse_xml_unit field value =
     (let u = (case value of None \<Rightarrow> lit ''B'' | Some v \<Rightarrow> v) in
      if u = lit ''B'' \<or> u = lit ''bytes'' then Inr Bytes
      else if u = lit ''KiB'' then Inr Kibibytes
      else if u = lit ''MiB'' then Inr Mebibytes
      else if u = lit ''GiB'' then Inr Gibibytes
      else Inl (UnsupportedUnit field u))"

fun unit_multiplier :: "xml_unit \<Rightarrow> u64" where
  "unit_multiplier Bytes = 1"
| "unit_multiplier Kibibytes = BYTES_PER_KIB"
| "unit_multiplier Mebibytes = 1048576"
| "unit_multiplier Gibibytes = 1073741824"

definition unit_to_bytes :: "xml_unit \<Rightarrow> rust_str \<Rightarrow> u64 \<Rightarrow> virtio_mem_xml_error + u64" where
  "unit_to_bytes unit field value = ok_or (checked_mul value (unit_multiplier unit)) (Overflow field)"

section \<open>Attributes and fields\<close>

fun find_attribute :: "xml_attribute list \<Rightarrow> rust_str \<Rightarrow> virtio_mem_xml_error + rust_str option" where
  "find_attribute [] name = Inr None"
| "find_attribute (Inl e # as) name = Inl (InvalidXml e)"
| "find_attribute (Inr (key, v) # as) name =
     (if key = name then and_then (map_err InvalidXml v) (\<lambda>w. Inr (Some w)) else find_attribute as name)"

definition attribute :: "xml_element \<Rightarrow> rust_str \<Rightarrow> virtio_mem_xml_error + rust_str option" where
  "attribute element name = find_attribute (el_attributes element) name"

text \<open>The argument of \<open>or\<close> is evaluated first, so an error of the second name is reported.\<close>

definition compatibility_attribute ::
    "xml_element \<Rightarrow> rust_str \<Rightarrow> rust_str \<Rightarrow> virtio_mem_xml_error + compatibility_evidence" where
  "compatibility_attribute element dashed_name camel_name =
     and_then (attribute element dashed_name) (\<lambda>dashed.
     and_then (attribute element camel_name) (\<lambda>camel.
       case (case dashed of None \<Rightarrow> camel | Some v \<Rightarrow> Some v) of
         None \<Rightarrow> Inr Unknown
       | Some raw \<Rightarrow>
           let v = to_ascii_lowercase raw in
           if v \<in> set [lit ''yes'', lit ''on'', lit ''true'', lit ''1''] then Inr Confirmed
           else if v \<in> set [lit ''no'', lit ''off'', lit ''false'', lit ''0''] then Inr Rejected
           else Inl (InvalidValue (lit ''compatibility attribute'') v)))"

definition field_name :: "rust_str \<Rightarrow> rust_str option" where
  "field_name name =
     (if name = lit ''size'' then Some (lit ''size'')
      else if name = lit ''block'' \<or> name = lit ''block-size'' then Some (lit ''block'')
      else if name = lit ''requested'' then Some (lit ''requested'')
      else if name = lit ''current'' then Some (lit ''current'')
      else None)"

text \<open>The last branch of the code is unreachable: pending fields come from \<open>field_name\<close>.\<close>

definition field_index :: "rust_str \<Rightarrow> nat" where
  "field_index field =
     (if field = lit ''size'' then 0 else if field = lit ''block'' then 1
      else if field = lit ''requested'' then 2 else 3)"

definition field_bytes :: "u64 option \<Rightarrow> rust_str \<Rightarrow> virtio_mem_xml_error + u64" where
  "field_bytes value field = ok_or value (MissingField field)"

section \<open>One device\<close>

record xml_scan =
  memory_depth :: "u32 option"
  scan_pending :: "(rust_str \<times> xml_unit) option"
  scan_alias :: "rust_str option"
  scan_compatibility :: virtio_mem_compatibility
  scan_values :: "u64 option list"

definition initial_scan :: xml_scan where
  "initial_scan =
     \<lparr>memory_depth = None, scan_pending = None, scan_alias = None,
      scan_compatibility = unknown_compatibility, scan_values = [None, None, None, None]\<rparr>"

definition scan_start :: "xml_element \<Rightarrow> xml_scan \<Rightarrow> virtio_mem_xml_error + xml_scan" where
  "scan_start element s =
     (if el_name element = lit ''memory'' then
        and_then (attribute element (lit ''model'')) (\<lambda>model.
        and_then (compatibility_attribute element (lit ''dynamic-memslots'') (lit ''dynamicMemslots'')) (\<lambda>dm.
        and_then (compatibility_attribute element (lit ''unplugged-inaccessible'') (lit ''unpluggedInaccessible'')) (\<lambda>ui.
          case model of
            None \<Rightarrow> Inl MissingMemoryModel
          | Some m \<Rightarrow>
              if m \<noteq> lit ''virtio-mem'' then Inl (UnexpectedModel m)
              else Inr (s\<lparr>scan_compatibility := (scan_compatibility s)\<lparr>dynamic_memslots := dm,
                                                     unplugged_inaccessible := ui\<rparr>,
                          memory_depth := Some 1\<rparr>))))
      else
        case memory_depth s of
          None \<Rightarrow> Inr s
        | Some depth \<Rightarrow>
            and_then
              (if el_name element = lit ''alias''
               then and_then (attribute element (lit ''name'')) (\<lambda>a. Inr (s\<lparr>scan_alias := a\<rparr>))
               else
                 case field_name (el_name element) of
                   None \<Rightarrow> Inr s
                 | Some field \<Rightarrow>
                     and_then (attribute element (lit ''unit'')) (\<lambda>u.
                     and_then (parse_xml_unit field u) (\<lambda>unit. Inr (s\<lparr>scan_pending := Some (field, unit)\<rparr>))))
              (\<lambda>t. Inr (t\<lparr>memory_depth := Some (depth + 1)\<rparr>)))"

definition scan_text :: "rust_str + rust_str \<Rightarrow> xml_scan \<Rightarrow> virtio_mem_xml_error + xml_scan" where
  "scan_text decoded s =
     (case scan_pending s of
        None \<Rightarrow> Inr s
      | Some (field, unit) \<Rightarrow>
          and_then (map_err InvalidXml decoded) (\<lambda>raw.
          and_then (ok_or (parse_u64 raw) (InvalidValue field raw)) (\<lambda>value.
          and_then (unit_to_bytes unit field value) (\<lambda>b.
            Inr (s\<lparr>scan_pending := None, scan_values := (scan_values s)[field_index field := Some b]\<rparr>)))))"

definition scan_end :: "rust_str \<Rightarrow> xml_scan \<Rightarrow> xml_scan" where
  "scan_end name s =
     (if name = lit ''memory'' then s\<lparr>memory_depth := None\<rparr>
      else s\<lparr>memory_depth := map_option (\<lambda>d. saturating_sub d 1) (memory_depth s)\<rparr>)"

fun scan_events :: "xml_item list \<Rightarrow> xml_scan \<Rightarrow> virtio_mem_xml_error + xml_scan" where
  "scan_events [] s = Inr s"
| "scan_events ((_, e) # es) s =
     (case e of
        XStart element \<Rightarrow> and_then (scan_start element s) (scan_events es)
      | XEmpty element \<Rightarrow>
          if memory_depth s \<noteq> None \<and> el_name element = lit ''alias''
          then and_then (attribute element (lit ''name'')) (\<lambda>a. scan_events es (s\<lparr>scan_alias := a\<rparr>))
          else scan_events es s
      | XText decoded \<Rightarrow> and_then (scan_text decoded s) (scan_events es)
      | XEnd name \<Rightarrow> scan_events es (scan_end name s)
      | XEof \<Rightarrow> Inr s
      | XError message \<Rightarrow> Inl (InvalidXml message)
      | XOther \<Rightarrow> scan_events es s)"

definition parse_virtio_mem_xml :: "xml_reader \<Rightarrow> rust_str \<Rightarrow> virtio_mem_xml_error + virtio_mem_xml_state" where
  "parse_virtio_mem_xml reader xml =
     and_then (scan_events (reader True xml) initial_scan) (\<lambda>s.
     and_then (ok_or (scan_alias s) (MissingField (lit ''alias''))) (\<lambda>alias.
     and_then (field_bytes (scan_values s ! 0) (lit ''size'')) (\<lambda>sz.
     and_then (field_bytes (scan_values s ! 1) (lit ''block'')) (\<lambda>block.
     and_then (field_bytes (scan_values s ! 2) (lit ''requested'')) (\<lambda>requested.
     and_then (field_bytes (scan_values s ! 3) (lit ''current'')) (\<lambda>current.
       let memory = \<lparr>size_bytes = sz, block_size_bytes = block,
                     requested_bytes = requested, current_bytes = current\<rparr> in
       and_then (map_err InvalidState (validate_device memory)) (\<lambda>_.
         Inr \<lparr>xml_alias = alias, xml_memory = memory, xml_compatibility = scan_compatibility s\<rparr>)))))))"

section \<open>The device with an alias\<close>

text \<open>
  \<open>candidate\<close> is the text read since the start of the current device (with its depth), and
  \<open>selected\<close> the device found so far.
\<close>

fun select_events ::
    "xml_reader \<Rightarrow> rust_str \<Rightarrow> xml_item list \<Rightarrow> (rust_str \<times> u32) option \<Rightarrow> virtio_mem_xml_state option \<Rightarrow>
     virtio_mem_xml_error + virtio_mem_xml_state option" where
  "select_events reader expected [] candidate selected = Inr selected"
| "select_events reader expected ((raw, e) # es) candidate selected =
     (case e of
        XStart element \<Rightarrow>
          (case candidate of
             Some (start, depth) \<Rightarrow> select_events reader expected es (Some (start @ raw, depth + 1)) selected
           | None \<Rightarrow>
               if el_name element = lit ''memory''
               then and_then (attribute element (lit ''model'')) (\<lambda>model.
                 select_events reader expected es
                   (if model = Some (lit ''virtio-mem'') then Some (raw, 1) else None) selected)
               else select_events reader expected es None selected)
      | XEof \<Rightarrow> Inr selected
      | XError message \<Rightarrow> Inl (InvalidXml message)
      | _ \<Rightarrow>
          (case candidate of
             None \<Rightarrow> select_events reader expected es None selected
           | Some (start, depth) \<Rightarrow>
               (case e of
                  XEnd _ \<Rightarrow>
                    let depth' = saturating_sub depth 1 in
                    if depth' = 0 then
                      and_then (parse_virtio_mem_xml reader (start @ raw)) (\<lambda>snapshot.
                        if xml_alias snapshot = expected then
                          if selected \<noteq> None then Inl (DuplicateAlias expected)
                          else select_events reader expected es None (Some snapshot)
                        else select_events reader expected es None selected)
                    else select_events reader expected es (Some (start @ raw, depth')) selected
                | _ \<Rightarrow> select_events reader expected es (Some (start @ raw, depth)) selected)))"

definition parse_virtio_mem_xml_for_alias ::
    "xml_reader \<Rightarrow> rust_str \<Rightarrow> rust_str \<Rightarrow> virtio_mem_xml_error + virtio_mem_xml_state" where
  "parse_virtio_mem_xml_for_alias reader xml expected_alias =
     and_then (select_events reader expected_alias (reader False xml) None None) (\<lambda>selected.
       ok_or selected (AliasNotFound expected_alias))"

section \<open>The reference: cut, parse, select\<close>

text \<open>The texts of the virtio-mem devices of a document, in order.\<close>

fun device_texts :: "xml_item list \<Rightarrow> (rust_str \<times> u32) option \<Rightarrow> virtio_mem_xml_error + rust_str list" where
  "device_texts [] candidate = Inr []"
| "device_texts ((raw, e) # es) None =
     (case e of
        XStart element \<Rightarrow>
          if el_name element = lit ''memory''
          then and_then (attribute element (lit ''model'')) (\<lambda>model.
            device_texts es (if model = Some (lit ''virtio-mem'') then Some (raw, 1) else None))
          else device_texts es None
      | XEof \<Rightarrow> Inr []
      | XError message \<Rightarrow> Inl (InvalidXml message)
      | _ \<Rightarrow> device_texts es None)"
| "device_texts ((raw, e) # es) (Some (start, depth)) =
     (case e of
        XStart _ \<Rightarrow> device_texts es (Some (start @ raw, depth + 1))
      | XEof \<Rightarrow> Inr []
      | XError message \<Rightarrow> Inl (InvalidXml message)
      | XEnd _ \<Rightarrow>
          if saturating_sub depth 1 = 0
          then and_then (device_texts es None) (\<lambda>texts. Inr ((start @ raw) # texts))
          else device_texts es (Some (start @ raw, saturating_sub depth 1))
      | _ \<Rightarrow> device_texts es (Some (start @ raw, depth)))"

fun option_list :: "'a option \<Rightarrow> 'a list" where
  "option_list None = []"
| "option_list (Some x) = [x]"

lemma option_list_eq: "[x] = option_list r \<longleftrightarrow> r = Some x" "option_list r = [x] \<longleftrightarrow> r = Some x"
  "option_list r = option_list q \<longleftrightarrow> r = q" "\<not> x # y # xs = option_list r"
  by (cases r; cases q; auto)+

definition parsed_devices ::
    "xml_reader \<Rightarrow> xml_item list \<Rightarrow> (rust_str \<times> u32) option \<Rightarrow> virtio_mem_xml_state list \<Rightarrow> bool" where
  "parsed_devices reader es candidate ds \<longleftrightarrow>
     (\<exists>texts. device_texts es candidate = Inr texts
        \<and> list_all2 (\<lambda>t d. parse_virtio_mem_xml reader t = Inr d) texts ds)"

lemma parsed_devices_close:
  assumes "e = XEnd name" and "saturating_sub depth 1 = 0"
  shows "parsed_devices reader ((raw, e) # es) (Some (start, depth)) ds \<longleftrightarrow>
    (\<exists>d ds'. ds = d # ds' \<and> parse_virtio_mem_xml reader (start @ raw) = Inr d
       \<and> parsed_devices reader es None ds')"
  using assms by (auto simp: parsed_devices_def result_simps list_all2_Cons1)

lemma select_events_reference:
  "select_events reader expected es candidate selected = Inr r \<longleftrightarrow>
     (\<exists>ds. parsed_devices reader es candidate ds
        \<and> option_list selected @ filter (\<lambda>d. xml_alias d = expected) ds = option_list r)"
proof (induction es arbitrary: candidate selected)
  case Nil
  then show ?case by (auto simp: parsed_devices_def option_list_eq)
next
  case (Cons item es)
  obtain raw e where item: "item = (raw, e)" by (cases item)
  show ?case
  proof (cases candidate)
    case None
    show ?thesis
    proof (cases e)
      case (XStart element)
      then show ?thesis
        unfolding item None by (cases "attribute element (lit ''model'')") (simp_all add: Cons.IH parsed_devices_def)
    qed (simp_all add: Cons.IH item None parsed_devices_def option_list_eq)
  next
    case (Some p)
    obtain start depth where p: "p = (start, depth)" by (cases p)
    show ?thesis
    proof (cases "(\<exists>name. e = XEnd name) \<and> saturating_sub depth 1 = 0")
      case True
      then obtain name where e: "e = XEnd name" and zero: "saturating_sub depth 1 = 0" by blast
      have sel: "select_events reader expected (item # es) candidate selected =
        and_then (parse_virtio_mem_xml reader (start @ raw)) (\<lambda>snapshot.
          if xml_alias snapshot = expected then
            if selected \<noteq> None then Inl (DuplicateAlias expected)
            else select_events reader expected es None (Some snapshot)
          else select_events reader expected es None selected)"
        using e zero by (simp add: item Some p Let_def)
      show ?thesis
        unfolding sel unfolding item Some p parsed_devices_close [OF e zero]
        by (cases "parse_virtio_mem_xml reader (start @ raw)"; cases selected)
          (auto simp: Cons.IH option_list_eq)
    next
      case False
      then show ?thesis
        unfolding item Some p by (cases e) (auto simp: Cons.IH parsed_devices_def option_list_eq Let_def)
    qed
  qed
qed

section \<open>What a parsed device satisfies\<close>

lemma scan_start_review:
  "scan_start element s = Inr t \<Longrightarrow>
     workload_review (scan_compatibility t) = workload_review (scan_compatibility s)"
  by (auto simp: scan_start_def result_simps split: if_splits option.splits)

lemma scan_events_review:
  "scan_events es s = Inr t \<Longrightarrow> workload_review (scan_compatibility t) = workload_review (scan_compatibility s)"
proof (induction es arbitrary: s)
  case (Cons item es)
  obtain raw e where item: "item = (raw, e)" by (cases item)
  show ?case
  proof (cases e)
    case (XStart element)
    then obtain u where "scan_start element s = Inr u" "scan_events es u = Inr t"
      using Cons.prems by (auto simp: item result_simps)
    then show ?thesis using Cons.IH scan_start_review by fastforce
  next
    case (XText decoded)
    then obtain u where "scan_text decoded s = Inr u" "scan_events es u = Inr t"
      using Cons.prems by (auto simp: item result_simps)
    moreover from this(1) have "scan_compatibility u = scan_compatibility s"
      by (auto simp: scan_text_def result_simps split: option.splits)
    ultimately show ?thesis using Cons.IH by fastforce
  qed (use Cons.prems Cons.IH in \<open>force simp: item result_simps scan_end_def split: if_splits\<close>)+
qed simp

lemma parse_virtio_mem_xml_ok:
  assumes "parse_virtio_mem_xml reader xml = Inr d"
  shows "wf_device (xml_memory d)" and "workload_review (xml_compatibility d) = Unknown"
  using assms scan_events_review [of "reader True xml" initial_scan]
  by (auto simp: parse_virtio_mem_xml_def result_simps Let_def initial_scan_def unknown_compatibility_def)

lemma parse_for_alias_reference:
  "parse_virtio_mem_xml_for_alias reader xml a = Inr d \<longleftrightarrow>
     (\<exists>ds. parsed_devices reader (reader False xml) None ds \<and> filter (\<lambda>d. xml_alias d = a) ds = [d])"
  by (auto simp: parse_virtio_mem_xml_for_alias_def result_simps select_events_reference option_list_eq)

lemma parse_for_alias_ok:
  assumes "parse_virtio_mem_xml_for_alias reader xml a = Inr d"
  shows "xml_alias d = a" and "wf_device (xml_memory d)" and "workload_review (xml_compatibility d) = Unknown"
proof -
  obtain ds texts where f: "filter (\<lambda>d. xml_alias d = a) ds = [d]"
    and all: "list_all2 (\<lambda>t d. parse_virtio_mem_xml reader t = Inr d) texts ds"
    using assms by (auto simp: parse_for_alias_reference parsed_devices_def)
  have d: "d \<in> set (filter (\<lambda>d. xml_alias d = a) ds)" by (simp add: f)
  then show "xml_alias d = a" by simp
  obtain t where "parse_virtio_mem_xml reader t = Inr d"
    using d all by (auto simp: list_all2_conv_all_nth in_set_conv_nth)
  then show "wf_device (xml_memory d)" and "workload_review (xml_compatibility d) = Unknown"
    by (rule parse_virtio_mem_xml_ok)+
qed

section \<open>Properties\<close>

text \<open>
  C31. The alias-scoped parser returns a device exactly when the document can be cut into its virtio-mem
  devices, every one of them parses, and the one returned is the only one with the alias: the
  one-pass loop with its early exits equals cutting, parsing and selecting, and document order never
  decides.
\<close>

theorem alias_selection_reference:
  "parse_virtio_mem_xml_for_alias reader xml a = Inr d \<longleftrightarrow>
     (\<exists>texts ds. device_texts (reader False xml) None = Inr texts
        \<and> list_all2 (\<lambda>t d. parse_virtio_mem_xml reader t = Inr d) texts ds
        \<and> filter (\<lambda>d. xml_alias d = a) ds = [d])"
  unfolding parse_for_alias_reference parsed_devices_def by blast

text \<open>
  A device read from the XML has the alias asked for and a sound geometry, and its evidence alone
  never authorises a resize: the workload review has to come from another source.
\<close>

theorem parsed_device_sound:
  assumes "parse_virtio_mem_xml_for_alias reader xml a = Inr d"
  shows "xml_alias d = a \<and> validate_device (xml_memory d) = Inr ()
    \<and> \<not> is_ok (validate_for_resize (xml_compatibility d))"
  using parse_for_alias_ok [OF assms] by (auto simp: result_simps validate_for_resize_def split: if_splits)

text \<open>
  The events of the device as libvirt writes it, sizes in KiB, and that reading them gives the device
  back.
\<close>

definition field_items :: "string \<Rightarrow> u64 \<Rightarrow> xml_item list" where
  "field_items name v =
     [([], XStart \<lparr>el_name = lit name, el_attributes = [Inr (lit ''unit'', Inr (lit ''KiB''))]\<rparr>),
      ([], XText (Inr (show_u64 (v div BYTES_PER_KIB)))),
      ([], XEnd (lit name))]"

definition device_items :: "rust_str \<Rightarrow> virtio_mem_state \<Rightarrow> xml_item list" where
  "device_items alias d =
     [([], XStart \<lparr>el_name = lit ''memory'', el_attributes = [Inr (lit ''model'', Inr (lit ''virtio-mem''))]\<rparr>),
      ([], XStart \<lparr>el_name = lit ''target'', el_attributes = []\<rparr>)]
     @ field_items ''size'' (size_bytes d) @ field_items ''block'' (block_size_bytes d)
     @ field_items ''requested'' (requested_bytes d) @ field_items ''current'' (current_bytes d)
     @ [([], XEnd (lit ''target'')),
        ([], XEmpty \<lparr>el_name = lit ''alias'', el_attributes = [Inr (lit ''name'', Inr alias)]\<rparr>),
        ([], XEnd (lit ''memory'')), ([], XEof)]"

lemma kib_text:
  assumes "is_multiple_of v BYTES_PER_KIB"
  shows "parse_u64 (show_u64 (v div BYTES_PER_KIB)) = Some (v div BYTES_PER_KIB)"
    and "unit_to_bytes Kibibytes field (v div BYTES_PER_KIB) = Inr v"
proof -
  show "parse_u64 (show_u64 (v div BYTES_PER_KIB)) = Some (v div BYTES_PER_KIB)"
    by (simp add: show_u64_def parse_u64_show)
  have "checked_mul (v div BYTES_PER_KIB) BYTES_PER_KIB = Some v"
    using assms by (simp add: word_nat)
  then show "unit_to_bytes Kibibytes field (v div BYTES_PER_KIB) = Inr v"
    by (simp add: unit_to_bytes_def)
qed

lemma scan_field_items:
  assumes "is_multiple_of v BYTES_PER_KIB" and "memory_depth s = Some k" and "saturating_sub (k + 1) 1 = k"
    and "field_name (lit name) = Some field" and "lit name \<noteq> lit ''memory''" and "lit name \<noteq> lit ''alias''"
    and "scan_pending s = None"
  shows "scan_events (field_items name v @ es) s =
    scan_events es (s\<lparr>scan_values := (scan_values s)[field_index field := Some v]\<rparr>)"
proof -
  have kib: "parse_xml_unit field (Some (lit ''KiB'')) = Inr Kibibytes"
    by (simp add: parse_xml_unit_def) code_simp
  show ?thesis
    using assms kib
    by (cases s) (simp add: field_items_def scan_start_def scan_text_def scan_end_def attribute_def kib_text)
qed

lemma field_names:
  "field_name (lit ''size'') = Some (lit ''size'')" "field_name (lit ''block'') = Some (lit ''block'')"
  "field_name (lit ''requested'') = Some (lit ''requested'')" "field_name (lit ''current'') = Some (lit ''current'')"
  "field_index (lit ''size'') = 0" "field_index (lit ''block'') = 1"
  "field_index (lit ''requested'') = 2" "field_index (lit ''current'') = 3"
  by code_simp+

lemma literal_names:
  "lit ''size'' \<noteq> lit ''memory''" "lit ''size'' \<noteq> lit ''alias''" "lit ''block'' \<noteq> lit ''memory''"
  "lit ''block'' \<noteq> lit ''alias''" "lit ''requested'' \<noteq> lit ''memory''" "lit ''requested'' \<noteq> lit ''alias''"
  "lit ''current'' \<noteq> lit ''memory''" "lit ''current'' \<noteq> lit ''alias''" "lit ''target'' \<noteq> lit ''memory''"
  "lit ''target'' \<noteq> lit ''alias''" "field_name (lit ''target'') = None"
  by code_simp+

lemma model_only_attributes:
  "compatibility_attribute \<lparr>el_name = n, el_attributes = [Inr (lit ''model'', v)]\<rparr>
     (lit ''dynamic-memslots'') (lit ''dynamicMemslots'') = Inr Unknown"
  "compatibility_attribute \<lparr>el_name = n, el_attributes = [Inr (lit ''model'', v)]\<rparr>
     (lit ''unplugged-inaccessible'') (lit ''unpluggedInaccessible'') = Inr Unknown"
proof -
  have "lit ''model'' \<noteq> lit ''dynamic-memslots''" "lit ''model'' \<noteq> lit ''dynamicMemslots''"
    "lit ''model'' \<noteq> lit ''unplugged-inaccessible''" "lit ''model'' \<noteq> lit ''unpluggedInaccessible''"
    by code_simp+
  then show "compatibility_attribute \<lparr>el_name = n, el_attributes = [Inr (lit ''model'', v)]\<rparr>
     (lit ''dynamic-memslots'') (lit ''dynamicMemslots'') = Inr Unknown"
  "compatibility_attribute \<lparr>el_name = n, el_attributes = [Inr (lit ''model'', v)]\<rparr>
     (lit ''unplugged-inaccessible'') (lit ''unpluggedInaccessible'') = Inr Unknown"
    by (simp_all add: compatibility_attribute_def attribute_def)
qed

lemma wf_device_kib_values:
  assumes "wf_device d"
  shows "is_multiple_of (size_bytes d) BYTES_PER_KIB" "is_multiple_of (block_size_bytes d) BYTES_PER_KIB"
    "is_multiple_of (requested_bytes d) BYTES_PER_KIB" "is_multiple_of (current_bytes d) BYTES_PER_KIB"
  using assms wf_device_kib [OF assms] by (auto simp: wf_device_def is_multiple_of_dvd intro: dvd_trans)

lemma initial_scan_field:
  assumes "is_multiple_of v BYTES_PER_KIB" and "field_name (lit name) = Some field"
    and "lit name \<noteq> lit ''memory''" and "lit name \<noteq> lit ''alias''"
  shows "scan_events (field_items name v @ es)
      (initial_scan\<lparr>memory_depth := Some 2, scan_values := vs\<rparr>) =
    scan_events es (initial_scan\<lparr>memory_depth := Some 2, scan_values := vs[field_index field := Some v]\<rparr>)"
  by (subst scan_field_items [where k = 2 and field = field, OF assms(1) _ _ assms(2-4)])
    (simp_all add: saturating_sub_def initial_scan_def)


definition sample_device :: virtio_mem_state where
  "sample_device = \<lparr>size_bytes = 8589934592, block_size_bytes = 2097152,
     requested_bytes = 4294967296, current_bytes = 4294967296\<rparr>"


theorem parsed_device_sound_witness:
  "\<exists>d. parse_virtio_mem_xml_for_alias (\<lambda>_ _. device_items (lit ''virtiomem0'') sample_device) (lit ''<memory/>'')
      (lit ''virtiomem0'') = Inr d \<and> xml_alias d = lit ''virtiomem0''"
proof -
  let ?x = "parse_virtio_mem_xml_for_alias (\<lambda>_ _. device_items (lit ''virtiomem0'') sample_device)
    (lit ''<memory/>'') (lit ''virtiomem0'')"
  have "is_ok ?x" by code_simp
  then obtain d where d: "?x = Inr d" by (auto simp: is_ok_iff)
  then show ?thesis using parsed_device_sound [OF d] by blast
qed

end
