(* ===== verification/Host_Memory.thy ===== *)
theory Host_Memory
  imports Virtio_Mem
begin

text \<open>
  The host's available-memory gate: \<open>host_memory.rs\<close>. The contents of \<open>/proc/meminfo\<close> are a
  parameter.
\<close>

definition GROW_ADMISSION_MARGIN_BYTES :: u64 where
  "GROW_ADMISSION_MARGIN_BYTES = 256 * 1024 * 1024"

definition validate_grow_headroom :: "u64 \<Rightarrow> u64 \<Rightarrow> u64 \<Rightarrow> u64 \<Rightarrow> rust_str + unit" where
  "validate_grow_headroom current target available minimum_headroom =
     (if target \<le> current then Inr ()
      else
        let grow = target - current in
        if available < grow \<or> available - grow < minimum_headroom
        then Inl (lit ''host headroom is insufficient: available='' @ show_u64 available
                  @ lit '' grow='' @ show_u64 grow @ lit '' minimum_headroom='' @ show_u64 minimum_headroom)
        else Inr ())"

definition strip_prefix :: "rust_str \<Rightarrow> rust_str \<Rightarrow> rust_str option" where
  "strip_prefix s p = (if starts_with s p then Some (drop (length p) s) else None)"

definition strip_suffix :: "rust_str \<Rightarrow> rust_str \<Rightarrow> rust_str option" where
  "strip_suffix s p = (if ends_with s p then Some (take (length s - length p) s) else None)"

text \<open>
  \<open>str::lines\<close>: the pieces between line feeds, each without a final carriage return, and no last
  piece after a final line feed.
\<close>

definition strip_cr :: "rust_str \<Rightarrow> rust_str" where
  "strip_cr line = (if line \<noteq> [] \<and> last line = 13 then butlast line else line)"

definition str_lines :: "rust_str \<Rightarrow> rust_str list" where
  "str_lines s =
     (let pieces = split_on (\<lambda>c. c = 10) s;
          complete = map strip_cr (butlast pieces)
      in if last pieces = [] then complete else complete @ [last pieces])"

definition field_value :: "rust_str \<Rightarrow> rust_str \<Rightarrow> rust_str option" where
  "field_value line field =
     (case strip_prefix line field of None \<Rightarrow> None | Some rest \<Rightarrow> strip_prefix rest (lit '':''))"

definition parse_kib :: "rust_str \<Rightarrow> u64 option" where
  "parse_kib rest =
     parse_u64 (trim (case strip_suffix (trim rest) (lit ''kB'') of Some v \<Rightarrow> v | None \<Rightarrow> trim rest))"

fun meminfo_lines :: "rust_str \<Rightarrow> rust_str list \<Rightarrow> rust_str + u64" where
  "meminfo_lines field [] = Inl (field @ lit '' field was not found'')"
| "meminfo_lines field (line # lines) =
     (case field_value line field of
        None \<Rightarrow> meminfo_lines field lines
      | Some rest \<Rightarrow>
          and_then (ok_or (parse_kib rest) (field @ lit '' line is not a decimal kB value: '' @ line)) (\<lambda>kib.
            ok_or (checked_mul kib 1024) (field @ lit '' value overflows canonical bytes: '' @ line)))"

definition meminfo_bytes :: "rust_str \<Rightarrow> rust_str \<Rightarrow> rust_str + u64" where
  "meminfo_bytes contents field = meminfo_lines field (str_lines contents)"

definition available_bytes :: "rust_str + rust_str \<Rightarrow> rust_str + u64" where
  "available_bytes contents =
     and_then (map_err (\<lambda>e. lit ''failed to read /proc/meminfo: '' @ e) contents) (\<lambda>t.
       meminfo_bytes t (lit ''MemAvailable''))"

section \<open>What the gate guarantees\<close>

lemma validate_grow_headroom_ok [result_simps]:
  "validate_grow_headroom c t a m = Inr u \<longleftrightarrow> t \<le> c \<or> unat t - unat c + unat m \<le> unat a"
proof (cases "t \<le> c")
  case False
  then have "unat (t - c) = unat t - unat c" by (simp add: unat_sub)
  then show ?thesis
    using False unat_sub [of "t - c" a]
    by (auto simp: validate_grow_headroom_def Let_def word_less_nat_alt word_le_nat_alt not_less)
qed (simp add: validate_grow_headroom_def)

end
