(* ===== verification/Demand.thy ===== *)
theory Demand
  imports Guest_Policy
begin

text \<open>
  The guest's publication: the envelope of \<open>demand.rs\<close> with its identity, freshness and ordering
  rules. A reader accepts a chain of publications only if each validates and succeeds the one before;
  the theorems show what acceptance guarantees, over whole chains and against replays.
\<close>

section \<open>Definitions\<close>

definition RAW_TELEMETRY_VERSION :: u16 where
  "RAW_TELEMETRY_VERSION = 5"

record guest_diagnostics =
  build_id :: rust_str
  driver_file_version :: "rust_str + rust_str"
  boot_uptime_millis :: "u64 option"
  diag_policy :: guest_policy_diagnostics
  last_consumed_result :: "memory_result option"
  result_consumed_unix_millis :: "u64 option"

record raw_telemetry_envelope =
  env_version :: u16
  env_vm_name :: rust_str
  env_service_name :: rust_str
  env_session_id :: rust_str
  env_observed_unix_millis :: u64
  env_monotonic_millis :: u64
  env_sequence :: u64
  env_memory :: memory_telemetry_snapshot
  env_native_pressure :: "memory_resource_notification_state option"
  env_request :: "memory_request option"
  env_diagnostics :: "guest_diagnostics option"

definition new_envelope ::
    "rust_str \<Rightarrow> rust_str \<Rightarrow> rust_str \<Rightarrow> u64 \<Rightarrow> u64 \<Rightarrow> u64 \<Rightarrow> memory_telemetry_snapshot \<Rightarrow>
     raw_telemetry_envelope" where
  "new_envelope vm service session observed monotonic sequence m =
     \<lparr>env_version = RAW_TELEMETRY_VERSION, env_vm_name = vm, env_service_name = service,
      env_session_id = session, env_observed_unix_millis = observed, env_monotonic_millis = monotonic,
      env_sequence = sequence, env_memory = m, env_native_pressure = None, env_request = None,
      env_diagnostics = None\<rparr>"

text \<open>The loop over the identity fields ends at the first invalid one.\<close>

fun check_identities :: "(rust_str \<times> rust_str) list \<Rightarrow> demand_error + unit" where
  "check_identities [] = Inr ()"
| "check_identities ((field, v) # rest) =
     (if \<not> valid_identity v then Inl (InvalidTelemetryIdentity field) else check_identities rest)"

definition validate_envelope_for ::
    "raw_telemetry_envelope \<Rightarrow> rust_str \<Rightarrow> rust_str \<Rightarrow> u64 \<Rightarrow> u64 \<Rightarrow> u64 \<Rightarrow> demand_error + unit" where
  "validate_envelope_for v vm service now max_age tolerance =
     (if env_version v \<noteq> 4 \<and> env_version v \<noteq> RAW_TELEMETRY_VERSION
        then Inl (UnsupportedTelemetryVersion (env_version v))
      else
        and_then (check_identities
            [(lit ''vm_name'', env_vm_name v), (lit ''service_name'', env_service_name v),
             (lit ''session_id'', env_session_id v)]) (\<lambda>_.
          if env_vm_name v \<noteq> vm then Inl (WrongTelemetryVm vm (env_vm_name v))
          else if env_service_name v \<noteq> service then Inl (WrongTelemetryService service (env_service_name v))
          else if saturating_add now tolerance < env_observed_unix_millis v
            then Inl (FutureTelemetry (env_observed_unix_millis v) now)
          else if max_age < saturating_sub now (env_observed_unix_millis v)
            then Inl (StaleTelemetry (env_observed_unix_millis v) now)
          else
            and_then
              (case env_request v of
                 None \<Rightarrow> Inr ()
               | Some r \<Rightarrow>
                   and_then (map_err InvalidMemoryRequest (validate_request r)) (\<lambda>_.
                     if id_vm_name (identity r) \<noteq> env_vm_name v
                        \<or> id_service_name (identity r) \<noteq> env_service_name v
                     then Inl (InvalidMemoryRequest (lit ''request identity differs from its publication''))
                     else Inr ()))
              (\<lambda>_. validate_snapshot (env_memory v))))"

definition validate_successor ::
    "raw_telemetry_envelope \<Rightarrow> raw_telemetry_envelope \<Rightarrow> demand_error + unit" where
  "validate_successor v previous =
     (if env_session_id v = env_session_id previous \<and> env_sequence v \<le> env_sequence previous
        then Inl (ReplayedTelemetrySequence (env_sequence v))
      else if env_session_id v = env_session_id previous \<and> env_monotonic_millis v \<le> env_monotonic_millis previous
        then Inl (NonIncreasingTelemetryMonotonicClock (env_monotonic_millis v))
      else if env_observed_unix_millis v < env_observed_unix_millis previous
        then Inl TelemetryWallClockMovedBackwards
      else Inr ())"

section \<open>Accepted publications\<close>

lemma validate_envelope_ok [result_simps]:
  "validate_envelope_for v vm service now max_age tolerance = Inr u \<longleftrightarrow>
     (env_version v = 4 \<or> env_version v = 5) \<and> valid_identity vm \<and> valid_identity service
     \<and> valid_identity (env_session_id v) \<and> env_vm_name v = vm \<and> env_service_name v = service
     \<and> unat (env_observed_unix_millis v) \<le> unat now + unat tolerance
     \<and> unat now \<le> unat (env_observed_unix_millis v) + unat max_age
     \<and> (case env_request v of
          None \<Rightarrow> True
        | Some r \<Rightarrow> wf_request r \<and> id_vm_name (identity r) = vm \<and> id_service_name (identity r) = service)
     \<and> wf_snapshot (env_memory v)"
proof -
  have sat: "\<not> saturating_add now tolerance < env_observed_unix_millis v \<longleftrightarrow>
      unat (env_observed_unix_millis v) \<le> unat now + unat tolerance"
    using unat_less_bound [of "env_observed_unix_millis v"] by (auto simp: word_nat)
  have age: "\<not> max_age < saturating_sub now (env_observed_unix_millis v) \<longleftrightarrow>
      unat now \<le> unat (env_observed_unix_millis v) + unat max_age"
    by (auto simp: word_nat)
  show ?thesis
    unfolding sat [symmetric] age [symmetric]
    by (cases "env_request v")
      (auto simp: validate_envelope_for_def RAW_TELEMETRY_VERSION_def result_simps split: if_splits)
qed

lemma validate_successor_ok [result_simps]:
  "validate_successor v p = Inr u \<longleftrightarrow>
     env_observed_unix_millis p \<le> env_observed_unix_millis v
     \<and> (env_session_id v = env_session_id p \<longrightarrow>
          env_sequence p < env_sequence v \<and> env_monotonic_millis p < env_monotonic_millis v)"
  by (auto simp: validate_successor_def not_less not_le)

text \<open>The reader's loop: each record is checked against the last accepted one.\<close>

fun accept_records :: "raw_telemetry_envelope option \<Rightarrow> raw_telemetry_envelope list \<Rightarrow> raw_telemetry_envelope list" where
  "accept_records previous [] = []"
| "accept_records previous (v # vs) =
     (if (case previous of None \<Rightarrow> True | Some p \<Rightarrow> is_ok (validate_successor v p))
      then v # accept_records (Some v) vs else accept_records previous vs)"

lemma accept_after:
  "x \<in> set (accept_records (Some p) vs) \<Longrightarrow> env_observed_unix_millis p \<le> env_observed_unix_millis x"
proof (induction vs arbitrary: p)
  case (Cons v vs)
  show ?case
  proof (cases "is_ok (validate_successor v p)")
    case True
    then have "env_observed_unix_millis p \<le> env_observed_unix_millis v"
      by (simp add: is_ok_unit result_simps)
    then show ?thesis using Cons True by (auto intro: order.trans)
  qed (use Cons in simp)
qed simp

lemma accept_sorted: "sorted_wrt (\<lambda>x y. env_observed_unix_millis x \<le> env_observed_unix_millis y) (accept_records previous vs)"
proof (induction previous vs rule: accept_records.induct)
  case (2 previous v vs)
  then show ?case using accept_after [of _ v vs] by simp
qed simp

lemma accept_session_increasing:
  assumes "\<forall>x\<in>set (accept_records previous vs). env_session_id x = session"
  shows "sorted_wrt (\<lambda>x y. env_sequence x < env_sequence y) (accept_records previous vs)
    \<and> (\<forall>p. previous = Some p \<longrightarrow> env_session_id p = session \<longrightarrow>
        (\<forall>x\<in>set (accept_records previous vs). env_sequence p < env_sequence x))"
  using assms
proof (induction previous vs rule: accept_records.induct)
  case (2 previous v vs)
  show ?case
  proof (cases "case previous of None \<Rightarrow> True | Some p \<Rightarrow> is_ok (validate_successor v p)")
    case True
    then have IH: "sorted_wrt (\<lambda>x y. env_sequence x < env_sequence y) (accept_records (Some v) vs)"
      "\<forall>x\<in>set (accept_records (Some v) vs). env_sequence v < env_sequence x" "env_session_id v = session"
      using 2 by auto
    then show ?thesis
      using True by (auto simp: is_ok_unit result_simps split: option.splits intro: order.strict_trans)
  next
    case False
    then show ?thesis using 2 by auto
  qed
qed simp

section \<open>Properties\<close>


definition sample_envelope :: "u64 \<Rightarrow> raw_telemetry_envelope" where
  "sample_envelope n = new_envelope (lit ''win11'') (lit ''VirtioMem'') (lit ''s1'') (1000000 + n) n n sample_memory"


end
