(* ===== verification/Effects.thy ===== *)
theory Effects
  imports Checkpoint Virtio_Mem_Xml Host_Memory Demand
begin

text \<open>
  The effects of the host daemon. A program works on a state and ends with an error or a value; the
  state it leaves is kept in both cases, as a Rust function that returns early keeps its effects.

  The outside world is a parameter. Every interaction of the daemon with it (a clock, the stop flag,
  the guest channel, \<open>virsh\<close>, the attestation, the checkpoint file, the log) is an event of a history,
  the newest first, and an answer of the world is an arbitrary function of the history before the
  question: a clock read twice may answer twice, and everything the daemon did may influence what it
  sees next. What is proved for every environment therefore holds for every behaviour of the clocks,
  of libvirt, of the guest and of the disk, and for every moment at which shutdown is requested.
\<close>

named_theorems wp_simps

section \<open>Programs\<close>

type_synonym ('s, 'e, 'a) prog = "'s \<Rightarrow> ('e + 'a) \<times> 's"

definition ret :: "'a \<Rightarrow> ('s, 'e, 'a) prog" where
  "ret x = (\<lambda>s. (Inr x, s))"

definition raise :: "'e \<Rightarrow> ('s, 'e, 'a) prog" where
  "raise e = (\<lambda>s. (Inl e, s))"

definition bind :: "('s, 'e, 'a) prog \<Rightarrow> ('a \<Rightarrow> ('s, 'e, 'b) prog) \<Rightarrow> ('s, 'e, 'b) prog" where
  "bind m f = (\<lambda>s. case m s of (Inl e, s') \<Rightarrow> (Inl e, s') | (Inr x, s') \<Rightarrow> f x s')"

text \<open>The \<open>?\<close> on a plain result, \<open>map_err\<close> on a program, and a program whose result is inspected.\<close>

definition lift_result :: "'e + 'a \<Rightarrow> ('s, 'e, 'a) prog" where
  "lift_result r = (\<lambda>s. (r, s))"

definition map_error :: "('e \<Rightarrow> 'f) \<Rightarrow> ('s, 'e, 'a) prog \<Rightarrow> ('s, 'f, 'a) prog" where
  "map_error f m = (\<lambda>s. case m s of (r, s') \<Rightarrow> (map_err f r, s'))"

definition attempt :: "('s, 'e, 'a) prog \<Rightarrow> ('s, 'f, 'e + 'a) prog" where
  "attempt m = (\<lambda>s. case m s of (r, s') \<Rightarrow> (Inr r, s'))"

subsection \<open>Weakest preconditions\<close>

text \<open>\<open>Q\<close> holds when the program ends with a value, \<open>E\<close> when it ends with an error.\<close>

definition wp ::
    "('s, 'e, 'a) prog \<Rightarrow> ('a \<Rightarrow> 's \<Rightarrow> bool) \<Rightarrow> ('e \<Rightarrow> 's \<Rightarrow> bool) \<Rightarrow> 's \<Rightarrow> bool" where
  "wp m Q E s \<longleftrightarrow> (case m s of (Inr x, s') \<Rightarrow> Q x s' | (Inl e, s') \<Rightarrow> E e s')"

lemma wp_ret [wp_simps]: "wp (ret x) Q E s = Q x s"
  by (simp add: wp_def ret_def)

lemma wp_raise [wp_simps]: "wp (raise e) Q E s = E e s"
  by (simp add: wp_def raise_def)

lemma wp_bind [wp_simps]: "wp (bind m f) Q E s = wp m (\<lambda>x. wp (f x) Q E) E s"
  by (simp add: wp_def bind_def split: prod.splits sum.splits)

lemma wp_lift_result [wp_simps]:
  "wp (lift_result r) Q E s = (case r of Inl e \<Rightarrow> E e s | Inr x \<Rightarrow> Q x s)"
  by (simp add: wp_def lift_result_def split: sum.splits)

lemma wp_map_error [wp_simps]: "wp (map_error f m) Q E s = wp m Q (\<lambda>e. E (f e)) s"
  by (simp add: wp_def map_error_def split: prod.splits sum.splits)

lemma wp_attempt [wp_simps]: "wp (attempt m) Q E s = wp m (\<lambda>x. Q (Inr x)) (\<lambda>e. Q (Inl e)) s"
  by (simp add: wp_def attempt_def split: prod.splits sum.splits)

lemma wp_if [wp_simps]: "wp (if b then m else n) Q E s = (if b then wp m Q E s else wp n Q E s)"
  by simp

lemma wp_mono:
  assumes "wp m Q E s" and "\<And>x s'. Q x s' \<Longrightarrow> Q' x s'" and "\<And>e s'. E e s' \<Longrightarrow> E' e s'"
  shows "wp m Q' E' s"
  using assms by (auto simp: wp_def split: prod.splits sum.splits)

lemma wp_conj:
  "wp m Q E s \<Longrightarrow> wp m Q' E' s \<Longrightarrow> wp m (\<lambda>x s'. Q x s' \<and> Q' x s') (\<lambda>e s'. E e s' \<and> E' e s') s"
  by (auto simp: wp_def split: prod.splits sum.splits)

lemma wp_result: "wp m Q E s \<Longrightarrow> m s = (Inr x, s') \<Longrightarrow> Q x s'"
  by (simp add: wp_def)

lemma wp_error: "wp m Q E s \<Longrightarrow> m s = (Inl e, s') \<Longrightarrow> E e s'"
  by (simp add: wp_def)

lemma wpI:
  assumes "\<And>x s'. m s = (Inr x, s') \<Longrightarrow> Q x s'" and "\<And>e s'. m s = (Inl e, s') \<Longrightarrow> E e s'"
  shows "wp m Q E s"
  using assms by (auto simp: wp_def split: prod.splits sum.splits)

subsection \<open>Invariants of programs\<close>

text \<open>
  A triple: from \<open>I\<close> a program leaves \<open>Q\<close> when it ends with a value, and \<open>E\<close> when it ends with an error.
  A program maintains \<open>I\<close> up to \<open>E\<close> when \<open>Q\<close> is \<open>I\<close>: an error that ends the daemon may leave its state in
  the middle of a change. It keeps \<open>I\<close> when \<open>E\<close> is \<open>I\<close> too.
\<close>

definition triple :: "('s \<Rightarrow> bool) \<Rightarrow> ('s \<Rightarrow> bool) \<Rightarrow> ('s \<Rightarrow> bool) \<Rightarrow> ('s, 'e, 'a) prog \<Rightarrow> bool" where
  "triple I Q E m \<longleftrightarrow> (\<forall>s. I s \<longrightarrow> wp m (\<lambda>_. Q) (\<lambda>_. E) s)"

abbreviation maintains :: "('s \<Rightarrow> bool) \<Rightarrow> ('s \<Rightarrow> bool) \<Rightarrow> ('s, 'e, 'a) prog \<Rightarrow> bool" where
  "maintains I E \<equiv> triple I I E"

abbreviation keeps :: "('s \<Rightarrow> bool) \<Rightarrow> ('s, 'e, 'a) prog \<Rightarrow> bool" where
  "keeps I \<equiv> maintains I I"

named_theorems keeps_rules

lemma tripleI: "(\<And>s. I s \<Longrightarrow> wp m (\<lambda>_. Q) (\<lambda>_. E) s) \<Longrightarrow> triple I Q E m"
  by (simp add: triple_def)

lemma tripleD: "triple I Q E m \<Longrightarrow> I s \<Longrightarrow> wp m (\<lambda>_. Q) (\<lambda>_. E) s"
  by (simp add: triple_def)

lemma keeps_state: "keeps I m \<Longrightarrow> I s \<Longrightarrow> m s = (r, s') \<Longrightarrow> I s'"
  by (cases r) (auto simp: triple_def wp_def)

lemma triple_mono:
  "triple I Q E m \<Longrightarrow> (\<And>s. I' s \<Longrightarrow> I s) \<Longrightarrow> (\<And>s. Q s \<Longrightarrow> Q' s) \<Longrightarrow> (\<And>s. E s \<Longrightarrow> E' s) \<Longrightarrow> triple I' Q' E' m"
  unfolding triple_def by (metis (no_types, lifting) wp_mono)

lemma keeps_ret [keeps_rules]: "maintains I E (ret x)"
  by (simp add: triple_def wp_simps)

lemma keeps_raise [keeps_rules]: "keeps I (raise e)"
  by (simp add: triple_def wp_simps)

lemma keeps_lift_result [keeps_rules]: "keeps I (lift_result r)"
  by (simp add: triple_def wp_simps split: sum.splits)

lemma triple_bind: "triple I M E m \<Longrightarrow> (\<And>x. triple M Q E (f x)) \<Longrightarrow> triple I Q E (bind m f)"
  by (auto simp: triple_def wp_simps intro: wp_mono)

lemma wp_then:
  "triple I M E m \<Longrightarrow> I s \<Longrightarrow> (\<And>x s'. M s' \<Longrightarrow> wp (f x) Q (\<lambda>_. E) s') \<Longrightarrow> wp (bind m f) Q (\<lambda>_. E) s"
  unfolding wp_bind by (rule wp_mono [OF tripleD])

lemma keeps_bind [keeps_rules]: "maintains I E m \<Longrightarrow> (\<And>x. triple I Q E (f x)) \<Longrightarrow> triple I Q E (bind m f)"
  by (rule triple_bind)

lemma keeps_map_error [keeps_rules]: "triple I Q E m \<Longrightarrow> triple I Q E (map_error f m)"
  by (simp add: triple_def wp_simps)

lemma keeps_attempt [keeps_rules]: "triple I Q Q m \<Longrightarrow> triple I Q E (attempt m)"
  by (simp add: triple_def wp_simps)

lemma keeps_if [keeps_rules]:
  "(b \<Longrightarrow> triple I Q E m) \<Longrightarrow> (\<not> b \<Longrightarrow> triple I Q E n) \<Longrightarrow> triple I Q E (if b then m else n)"
  by simp

lemma keeps_sum [keeps_rules]:
  "(\<And>e. r = Inl e \<Longrightarrow> triple I Q E (f e)) \<Longrightarrow> (\<And>x. r = Inr x \<Longrightarrow> triple I Q E (g x)) \<Longrightarrow>
   triple I Q E (case r of Inl e \<Rightarrow> f e | Inr x \<Rightarrow> g x)"
  by (cases r) simp_all

lemma keeps_option [keeps_rules]:
  "(r = None \<Longrightarrow> triple I Q E m) \<Longrightarrow> (\<And>x. r = Some x \<Longrightarrow> triple I Q E (g x)) \<Longrightarrow>
   triple I Q E (case r of None \<Rightarrow> m | Some x \<Rightarrow> g x)"
  by (cases r) simp_all

lemma keeps_prod [keeps_rules]:
  "(\<And>a b. r = (a, b) \<Longrightarrow> triple I Q E (f a b)) \<Longrightarrow> triple I Q E (case r of (a, b) \<Rightarrow> f a b)"
  by (cases r) simp_all

section \<open>Events and the world\<close>

datatype effect =
    ReadClock
  | ReadInstant
  | ReadStop
  | ReadAvailable
  | ReadEvidence
  | ReadGuest
  | Virsh "rust_str list"
  | Persist checkpoint_file "rust_str + unit"
  | WriteStatus rust_str host_memory_status
  | WakeGuest
  | WriteTelemetry raw_telemetry_envelope
  | Logged string
  | Waited duration

text \<open>What reading the guest's publication gives: a failure, bytes that are no UTF-8, or a text.\<close>

datatype publication = PubUnavailable rust_str | PubInvalidUtf8 rust_str | PubContents rust_str

text \<open>An event carries the position of its VM in the runtime's list.\<close>

type_synonym history = "(nat \<times> effect) list"

record env =
  world_clock :: "history \<Rightarrow> rust_str + u64"
  world_instant :: "history \<Rightarrow> duration"
  world_stop :: "history \<Rightarrow> bool"
  world_available :: "history \<Rightarrow> rust_str + u64"
  world_evidence :: "nat \<Rightarrow> history \<Rightarrow> rust_str + virtio_mem_compatibility"
  world_virsh :: "nat \<Rightarrow> rust_str list \<Rightarrow> history \<Rightarrow> rust_str + rust_str"
  world_publication :: "nat \<Rightarrow> history \<Rightarrow> publication"
  world_write_status :: "nat \<Rightarrow> host_memory_status \<Rightarrow> history \<Rightarrow> rust_str + unit"
  world_write_telemetry :: "nat \<Rightarrow> raw_telemetry_envelope \<Rightarrow> history \<Rightarrow> rust_str + unit"
  world_disk :: "nat \<Rightarrow> history \<Rightarrow> fs_answers"
  world_xml :: xml_reader
  parse_envelope :: "rust_str \<Rightarrow> rust_str + raw_telemetry_envelope"
  encode_checkpoint :: "checkpoint_file \<Rightarrow> rust_str + rust_str"
  encode_status :: "host_memory_status \<Rightarrow> rust_str + rust_str"
  process_id :: u32

definition ask :: "nat \<Rightarrow> effect \<Rightarrow> (history \<Rightarrow> 'e + 'a) \<Rightarrow> (history, 'e, 'a) prog" where
  "ask i e answer = (\<lambda>h. (answer h, (i, e) # h))"

definition tell :: "nat \<Rightarrow> effect \<Rightarrow> (history, 'e, unit) prog" where
  "tell i e = (\<lambda>h. (Inr (), (i, e) # h))"

lemma wp_ask [wp_simps]:
  "wp (ask i e answer) Q E h = (case answer h of Inl err \<Rightarrow> E err ((i, e) # h) | Inr x \<Rightarrow> Q x ((i, e) # h))"
  by (simp add: wp_def ask_def split: sum.splits)

lemma wp_tell [wp_simps]: "wp (tell i e) Q E h = Q () ((i, e) # h)"
  by (simp add: wp_def tell_def)

definition now_unix_millis :: "env \<Rightarrow> nat \<Rightarrow> (history, rust_str, u64) prog" where
  "now_unix_millis w i = ask i ReadClock (world_clock w)"

definition instant_now :: "env \<Rightarrow> nat \<Rightarrow> (history, 'e, duration) prog" where
  "instant_now w i = ask i ReadInstant (\<lambda>h. Inr (world_instant w h))"

definition elapsed :: "env \<Rightarrow> nat \<Rightarrow> duration \<Rightarrow> (history, 'e, duration) prog" where
  "elapsed w i since = bind (instant_now w i) (\<lambda>t. ret (max 0 (t - since)))"

definition stop_requested :: "env \<Rightarrow> nat \<Rightarrow> (history, 'e, bool) prog" where
  "stop_requested w i = ask i ReadStop (\<lambda>h. Inr (world_stop w h))"

definition run_virsh :: "env \<Rightarrow> nat \<Rightarrow> rust_str list \<Rightarrow> (history, rust_str, rust_str) prog" where
  "run_virsh w i args = ask i (Virsh args) (world_virsh w i args)"

definition host_available :: "env \<Rightarrow> nat \<Rightarrow> (history, rust_str, u64) prog" where
  "host_available w i = ask i ReadAvailable (world_available w)"

definition compatibility :: "env \<Rightarrow> nat \<Rightarrow> (history, rust_str, virtio_mem_compatibility) prog" where
  "compatibility w i = ask i ReadEvidence (world_evidence w i)"

lemmas effect_defs = now_unix_millis_def instant_now_def elapsed_def stop_requested_def run_virsh_def
  host_available_def compatibility_def

section \<open>Commands in a history\<close>

text \<open>
  The calls of \<open>virsh\<close> that change a domain: everything but \<open>dumpxml\<close>. The checkpoint a VM last wrote
  successfully is its durable control state.
\<close>

definition mutating :: "rust_str list \<Rightarrow> bool" where
  "mutating args \<longleftrightarrow> args = [] \<or> hd args \<noteq> lit ''dumpxml''"

fun is_command :: "nat \<times> effect \<Rightarrow> bool" where
  "is_command (i, Virsh args) = mutating args"
| "is_command (i, e) = False"

definition commands :: "history \<Rightarrow> history" where
  "commands h = filter is_command h"

fun durable :: "nat \<Rightarrow> history \<Rightarrow> durable_control_state option" where
  "durable i [] = None"
| "durable i ((k, e) # h) =
     (if k = i then
        (case e of Persist f (Inr _) \<Rightarrow> Some (cf_control f) | _ \<Rightarrow> durable i h)
      else durable i h)"

lemma commands_Nil [simp]: "commands [] = []"
  by (simp add: commands_def)

lemma commands_Cons [simp]: "commands (e # h) = (if is_command e then e # commands h else commands h)"
  by (simp add: commands_def)

lemma commands_append [simp]: "commands (g @ h) = commands g @ commands h"
  by (simp add: commands_def)

lemma not_mutating_dumpxml [simp]: "\<not> mutating (lit ''dumpxml'' # args)"
  by (simp add: mutating_def)

end
