(* ===== verification/Resize_Sink.thy ===== *)
theory Resize_Sink
  imports Effects
begin

text \<open>
  The adapters of the daemon to libvirt: reading the device (\<open>xml_source.rs\<close>) and resizing it
  (\<open>resize_sink.rs\<close>). Every resize reads the evidence and the live XML immediately before its
  command. The theorems show the contract the runtime relies on: a rejection means that no command was
  sent, one command is sent otherwise, for exactly the validated target and only on the live state the
  decision was made for; and a widened domain is resumed only after its request was restored.
\<close>

section \<open>Reading the device\<close>

definition dump_xml :: "env \<Rightarrow> nat \<Rightarrow> rust_str \<Rightarrow> (history, rust_str, rust_str) prog" where
  "dump_xml w i vm = run_virsh w i [lit ''dumpxml'', vm]"

definition memory_state :: "env \<Rightarrow> nat \<Rightarrow> rust_str \<Rightarrow> rust_str \<Rightarrow> (history, rust_str, virtio_mem_state) prog" where
  "memory_state w i vm alias =
     bind (dump_xml w i vm) (\<lambda>xml.
     bind (lift_result (map_err display_virtio_mem_xml_error
         (parse_virtio_mem_xml_for_alias (world_xml w) xml alias))) (\<lambda>snapshot.
       ret (xml_memory snapshot)))"

section \<open>Resizing\<close>

datatype resize_sink_error = SinkRejected rust_str | CommandUnknown rust_str

fun display_resize_sink_error :: "resize_sink_error \<Rightarrow> rust_str" where
  "display_resize_sink_error (SinkRejected e) = lit ''resize rejected before command execution: '' @ e"
| "display_resize_sink_error (CommandUnknown e) = lit ''resize command outcome is unknown: '' @ e"

record resize_sink =
  sink_index :: nat
  sink_vm_name :: rust_str
  sink_alias :: rust_str

definition update_args :: "resize_sink \<Rightarrow> u64 \<Rightarrow> rust_str list" where
  "update_args sink requested_kib =
     [lit ''update-memory-device'', sink_vm_name sink, lit ''--alias'', sink_alias sink,
      lit ''--requested-size'', show_u64 requested_kib, lit ''--live'']"

definition prepare ::
    "env \<Rightarrow> resize_sink \<Rightarrow> u64 \<Rightarrow> (virtio_mem_state \<Rightarrow> rust_str + unit) \<Rightarrow> (history, rust_str, rust_str list) prog" where
  "prepare w sink tgt precondition =
     bind (compatibility w (sink_index sink)) (\<lambda>evidence.
     bind (dump_xml w (sink_index sink) (sink_vm_name sink)) (\<lambda>xml.
     bind (lift_result (map_err display_virtio_mem_xml_error
         (parse_virtio_mem_xml_for_alias (world_xml w) xml (sink_alias sink)))) (\<lambda>snapshot.
     bind (lift_result (map_err display_compatibility_error
         (merge_compatibility (xml_compatibility snapshot) evidence))) (\<lambda>merged.
     bind (lift_result (map_err display_compatibility_error (validate_for_resize merged))) (\<lambda>_.
     bind (lift_result (map_err display_virtio_mem_error (validate_target (xml_memory snapshot) tgt))) (\<lambda>_.
     bind (lift_result (precondition (xml_memory snapshot))) (\<lambda>_.
     bind (lift_result (ok_or (bytes_to_kibibytes tgt)
         (lit ''resize target must be an integer number of KiB''))) (\<lambda>kib.
       ret (update_args sink kib)))))))))"

definition apply_prepared :: "env \<Rightarrow> resize_sink \<Rightarrow> rust_str list \<Rightarrow> (history, rust_str, unit) prog" where
  "apply_prepared w sink prepared = bind (run_virsh w (sink_index sink) prepared) (\<lambda>_. ret ())"

definition apply_unless_stopped ::
    "env \<Rightarrow> resize_sink \<Rightarrow> rust_str list \<Rightarrow> (history, resize_sink_error, unit) prog" where
  "apply_unless_stopped w sink prepared =
     bind (stop_requested w (sink_index sink)) (\<lambda>stopped.
       if stopped then raise (SinkRejected (lit ''shutdown requested''))
       else map_error CommandUnknown (apply_prepared w sink prepared))"

definition require_converged :: "virtio_mem_state \<Rightarrow> rust_str \<Rightarrow> virtio_mem_state \<Rightarrow> rust_str + unit" where
  "require_converged expected message state =
     (if state \<noteq> expected \<or> requested_bytes state \<noteq> current_bytes state then Inl message else Inr ())"

definition require_pending :: "virtio_mem_state \<Rightarrow> rust_str \<Rightarrow> virtio_mem_state \<Rightarrow> rust_str + unit" where
  "require_pending expected message state =
     (if state \<noteq> expected \<or> requested_bytes state = current_bytes state then Inl message else Inr ())"

definition request_resize_guarded ::
    "env \<Rightarrow> resize_sink \<Rightarrow> virtio_mem_state \<Rightarrow> u64 \<Rightarrow> (history, rust_str, unit) prog \<Rightarrow>
     (history, resize_sink_error, unit) prog" where
  "request_resize_guarded w sink expected tgt authorize =
     bind (map_error SinkRejected (prepare w sink tgt
         (require_converged expected (lit ''live device state changed since the resize decision'')))) (\<lambda>prepared.
     bind (map_error SinkRejected authorize) (\<lambda>_.
       apply_unless_stopped w sink prepared))"

definition retarget_pending_guarded ::
    "env \<Rightarrow> resize_sink \<Rightarrow> virtio_mem_state \<Rightarrow> u64 \<Rightarrow> (history, resize_sink_error, unit) prog" where
  "retarget_pending_guarded w sink expected tgt =
     bind (map_error SinkRejected (prepare w sink tgt
         (require_pending expected (lit ''live pending resize changed since the retarget decision'')))) (\<lambda>prepared.
       apply_unless_stopped w sink prepared)"

definition require_allocation :: "virtio_mem_state \<Rightarrow> virtio_mem_state \<Rightarrow> rust_str + unit" where
  "require_allocation expected state =
     (if current_bytes state \<noteq> current_bytes expected
      then Inl (lit ''device allocation changed while paused'') else Inr ())"

definition prepare_restore ::
    "env \<Rightarrow> resize_sink \<Rightarrow> virtio_mem_state \<Rightarrow> (history, rust_str, rust_str list) prog" where
  "prepare_restore w sink expected =
     prepare w sink (requested_bytes expected) (require_allocation expected)"

definition domain :: "env \<Rightarrow> resize_sink \<Rightarrow> string \<Rightarrow> (history, rust_str, unit) prog" where
  "domain w sink op = bind (run_virsh w (sink_index sink) [lit op, sink_vm_name sink]) (\<lambda>_. ret ())"

definition WIDEN_UNRESTORED :: rust_str where
  "WIDEN_UNRESTORED = lit ''requested size was not restored after widening; domain left paused''"

text \<open>The restoring command, with the one retry of the code.\<close>

definition restore_request ::
    "env \<Rightarrow> resize_sink \<Rightarrow> virtio_mem_state \<Rightarrow> rust_str list \<Rightarrow> (history, rust_str, unit) prog" where
  "restore_request w sink expected restore =
     bind (attempt (apply_prepared w sink restore)) (\<lambda>first.
       case first of
         Inr _ \<Rightarrow> ret ()
       | Inl _ \<Rightarrow> bind (prepare_restore w sink expected) (apply_prepared w sink))"

definition widen_usable_region_guarded ::
    "env \<Rightarrow> resize_sink \<Rightarrow> virtio_mem_state \<Rightarrow> (history, resize_sink_error, unit) prog" where
  "widen_usable_region_guarded w sink expected =
     (let converged = require_converged expected (lit ''live device changed since the widening decision'') in
      bind (map_error SinkRejected (prepare w sink (device_maximum_target expected) converged)) (\<lambda>widen.
      bind (map_error SinkRejected (prepare w sink (requested_bytes expected) converged)) (\<lambda>restore.
      bind (stop_requested w (sink_index sink)) (\<lambda>stopped.
        if stopped then raise (SinkRejected (lit ''shutdown requested''))
        else
          bind (map_error SinkRejected (domain w sink ''suspend'')) (\<lambda>_.
          bind (attempt (apply_prepared w sink widen)) (\<lambda>widened.
          bind (map_error (\<lambda>e. CommandUnknown (WIDEN_UNRESTORED @ lit '': '' @ e))
              (restore_request w sink expected restore)) (\<lambda>_.
          bind (map_error (\<lambda>e. CommandUnknown (lit ''domain could not be resumed after widening: '' @ e))
              (domain w sink ''resume'')) (\<lambda>_.
            case widened of
              Inr _ \<Rightarrow> ret ()
            | Inl e \<Rightarrow> raise (CommandUnknown (lit ''widening the usable region failed after pausing: '' @ e))))))))))"

section \<open>The contract of a guarded resize\<close>

text \<open>
  A quiet step adds no command and no checkpoint to the history; a sent step adds, after quiet ones,
  the one command that requests a target.
\<close>

fun is_persist :: "nat \<times> effect \<Rightarrow> bool" where
  "is_persist (i, Persist f r) = True"
| "is_persist (i, e) = False"

definition quiet :: "history \<Rightarrow> history \<Rightarrow> bool" where
  "quiet h h' \<longleftrightarrow> (\<exists>g. h' = g @ h \<and> (\<forall>e\<in>set g. \<not> is_command e \<and> \<not> is_persist e))"

definition sent :: "resize_sink \<Rightarrow> u64 \<Rightarrow> history \<Rightarrow> history \<Rightarrow> bool" where
  "sent sink tgt h h' \<longleftrightarrow> (\<exists>g kib. quiet h g \<and> bytes_to_kibibytes tgt = Some kib
     \<and> h' = (sink_index sink, Virsh (update_args sink kib)) # g)"

lemma quiet_refl [simp, intro]: "quiet h h"
  by (simp add: quiet_def)

lemma quiet_Cons [simp]: "quiet h g \<Longrightarrow> \<not> is_command e \<Longrightarrow> \<not> is_persist e \<Longrightarrow> quiet h (e # g)"
  unfolding quiet_def by (metis append_Cons set_ConsD)

lemma quiet_trans [trans]: "quiet h g \<Longrightarrow> quiet g k \<Longrightarrow> quiet h k"
  unfolding quiet_def by (metis Un_iff append_assoc set_append)

lemma quiet_commands: "quiet h h' \<Longrightarrow> commands h' = commands h"
  by (auto simp: quiet_def commands_def)

lemma durable_skip: "\<not> is_persist e \<Longrightarrow> durable i (e # h) = durable i h"
  by (cases e rule: is_persist.cases) auto

lemma quiet_durable: "quiet h h' \<Longrightarrow> durable i h' = durable i h"
proof -
  have "\<forall>e\<in>set g. \<not> is_persist e \<Longrightarrow> durable i (g @ h) = durable i h" for g
    by (induction g) (simp_all add: durable_skip)
  then show "quiet h h' \<Longrightarrow> durable i h' = durable i h" by (auto simp: quiet_def)
qed

lemma mutating_update [simp]: "mutating (update_args sink kib)"
proof -
  have "lit ''update-memory-device'' \<noteq> lit ''dumpxml''" by code_simp
  then show ?thesis by (simp add: mutating_def update_args_def)
qed

lemma sent_commands: "sent sink tgt h h' \<Longrightarrow> \<exists>kib. bytes_to_kibibytes tgt = Some kib
    \<and> commands h' = (sink_index sink, Virsh (update_args sink kib)) # commands h"
  by (auto simp: sent_def quiet_commands)

lemma sent_durable: "sent sink tgt h h' \<Longrightarrow> durable i h' = durable i h"
  by (auto simp: sent_def durable_skip quiet_durable)

text \<open>What the runtime may assume of an operation that resizes.\<close>

locale guarded_resize =
  fixes resize :: "virtio_mem_state \<Rightarrow> u64 \<Rightarrow> (history, resize_sink_error, unit) prog"
    and sink :: resize_sink
  assumes resize_law: "wp (resize expected tgt) (\<lambda>_. sent sink tgt h)
      (\<lambda>e h'. case e of SinkRejected _ \<Rightarrow> quiet h h' | CommandUnknown _ \<Rightarrow> sent sink tgt h h') h"
begin

lemma resize_outcome:
  assumes "resize expected tgt h = (r, h')"
  shows "if \<exists>m. r = Inl (SinkRejected m) then quiet h h' else sent sink tgt h h'"
  using resize_law [of expected tgt h] assms
  by (auto simp: wp_def split: sum.splits resize_sink_error.splits)

text \<open>Whatever the outcome, at most one command is sent, and the durable state is untouched.\<close>

lemma resize_commands:
  assumes "resize expected tgt h = (r, h')"
  shows "commands h' = commands h \<or> (\<exists>kib. bytes_to_kibibytes tgt = Some kib
    \<and> commands h' = (sink_index sink, Virsh (update_args sink kib)) # commands h)"
  using resize_outcome [OF assms] sent_commands [of sink tgt h h'] quiet_commands [of h h'] by presburger

lemma resize_durable:
  assumes "resize expected tgt h = (r, h')"
  shows "durable i h' = durable i h"
  using resize_outcome [OF assms] sent_durable [of sink tgt h h' i] quiet_durable [of h h' i] by presburger

end

subsection \<open>The operations of the adapter meet it\<close>

lemma not_command [simp]:
  "\<not> is_command (i, ReadClock)" "\<not> is_command (i, ReadInstant)" "\<not> is_command (i, ReadStop)"
  "\<not> is_command (i, ReadAvailable)" "\<not> is_command (i, ReadEvidence)" "\<not> is_command (i, Virsh (lit ''dumpxml'' # args))"
  by simp_all

lemma wp_prepare:
  "wp (prepare w sink tgt pre)
     (\<lambda>args h'. quiet h h' \<and> (\<exists>kib. args = update_args sink kib \<and> bytes_to_kibibytes tgt = Some kib))
     (\<lambda>_. quiet h) h"
  by (auto simp: prepare_def dump_xml_def effect_defs wp_simps split: sum.splits option.splits dest: ok_or_Inr [THEN iffD1])

lemma wp_apply_unless_stopped:
  assumes "quiet h0 h" and "bytes_to_kibibytes tgt = Some kib"
  shows "wp (apply_unless_stopped w sink (update_args sink kib)) (\<lambda>_. sent sink tgt h0)
    (\<lambda>e h'. case e of SinkRejected _ \<Rightarrow> quiet h0 h' | CommandUnknown _ \<Rightarrow> sent sink tgt h0 h') h"
  using assms
  by (auto simp: apply_unless_stopped_def apply_prepared_def effect_defs wp_simps sent_def split: sum.splits)

lemma wp_retarget:
  "wp (retarget_pending_guarded w sink expected tgt) (\<lambda>_. sent sink tgt h)
     (\<lambda>e h'. case e of SinkRejected _ \<Rightarrow> quiet h h' | CommandUnknown _ \<Rightarrow> sent sink tgt h h') h"
  unfolding retarget_pending_guarded_def wp_bind wp_map_error
  by (rule wp_mono [OF wp_prepare]) (auto intro: wp_apply_unless_stopped)

interpretation retarget: guarded_resize "retarget_pending_guarded w sink" sink for w sink
  by unfold_locales (rule wp_retarget)

lemma wp_request_resize:
  assumes "\<And>g. wp authorize (\<lambda>_. quiet g) (\<lambda>_. quiet g) g"
  shows "wp (request_resize_guarded w sink expected tgt authorize) (\<lambda>_. sent sink tgt h)
     (\<lambda>e h'. case e of SinkRejected _ \<Rightarrow> quiet h h' | CommandUnknown _ \<Rightarrow> sent sink tgt h h') h"
  unfolding request_resize_guarded_def wp_bind wp_map_error
proof (rule wp_mono [OF wp_prepare], elim conjE exE)
  fix args g kib assume g: "quiet h g" and args: "args = update_args sink kib" "bytes_to_kibibytes tgt = Some kib"
  show "wp authorize (\<lambda>_. wp (apply_unless_stopped w sink args) (\<lambda>_. sent sink tgt h)
      (\<lambda>e h'. case e of SinkRejected _ \<Rightarrow> quiet h h' | CommandUnknown _ \<Rightarrow> sent sink tgt h h'))
    (\<lambda>e h'. case SinkRejected e of SinkRejected _ \<Rightarrow> quiet h h' | CommandUnknown _ \<Rightarrow> sent sink tgt h h') g"
    by (rule wp_mono [OF assms])
      (use g args in \<open>auto intro: wp_apply_unless_stopped quiet_trans\<close>)
qed simp

section \<open>Widening\<close>

definition resume_event :: "resize_sink \<Rightarrow> nat \<times> effect" where
  "resume_event sink = (sink_index sink, Virsh [lit ''resume'', sink_vm_name sink])"

text \<open>The newest event is an accepted command that requests the given size.\<close>

definition restored :: "env \<Rightarrow> resize_sink \<Rightarrow> u64 \<Rightarrow> history \<Rightarrow> bool" where
  "restored w sink tgt h \<longleftrightarrow> (\<exists>kib g out. bytes_to_kibibytes tgt = Some kib
     \<and> h = (sink_index sink, Virsh (update_args sink kib)) # g
     \<and> world_virsh w (sink_index sink) (update_args sink kib) g = Inr out)"

definition safe_resumes :: "env \<Rightarrow> resize_sink \<Rightarrow> u64 \<Rightarrow> history \<Rightarrow> history \<Rightarrow> bool" where
  "safe_resumes w sink tgt h0 h \<longleftrightarrow> (\<exists>g. h = g @ h0 \<and> (\<forall>newer older.
     h = newer @ resume_event sink # older \<longrightarrow> length h0 \<le> length older \<longrightarrow> restored w sink tgt older))"

lemma safe_refl [simp]: "safe_resumes w sink tgt h h"
  unfolding safe_resumes_def
proof (rule exI [of _ "[]"], intro conjI allI impI)
  fix newer older assume "h = newer @ resume_event sink # older" "length h \<le> length older"
  then have "length newer + Suc (length older) \<le> length older" by (metis length_append length_Cons)
  then show "restored w sink tgt older" by simp
qed simp

lemma safe_Cons:
  assumes "safe_resumes w sink tgt h0 h" and "e \<noteq> resume_event sink \<or> restored w sink tgt h"
  shows "safe_resumes w sink tgt h0 (e # h)"
proof -
  obtain g where g: "h = g @ h0" using assms(1) by (auto simp: safe_resumes_def)
  show ?thesis
    unfolding safe_resumes_def
  proof (rule exI [of _ "e # g"], intro conjI allI impI)
    fix newer older assume d: "e # h = newer @ resume_event sink # older" and l: "length h0 \<le> length older"
    show "restored w sink tgt older"
    proof (cases newer)
      case Nil
      then show ?thesis using d assms(2) by auto
    next
      case (Cons a newer')
      then have "h = newer' @ resume_event sink # older" using d by simp
      then show ?thesis using assms(1) l unfolding safe_resumes_def by blast
    qed
  qed (simp add: g)
qed

lemma resume_is_command: "is_command (resume_event sink)"
proof -
  have "lit ''resume'' \<noteq> lit ''dumpxml''" by code_simp
  then show ?thesis by (simp add: resume_event_def mutating_def)
qed

lemma safe_quiet:
  assumes "safe_resumes w sink tgt h0 h" and "quiet h h'"
  shows "safe_resumes w sink tgt h0 h'"
proof -
  have "\<forall>e\<in>set g. \<not> is_command e \<Longrightarrow> safe_resumes w sink tgt h0 (g @ h)" for g
  proof (induction g)
    case (Cons e g)
    then have "e \<noteq> resume_event sink" using resume_is_command by fastforce
    then show ?case using Cons by (auto intro: safe_Cons)
  qed (simp add: assms(1))
  then show ?thesis using assms(2) by (auto simp: quiet_def)
qed

lemma update_not_resume: "(sink_index sink, Virsh (update_args sink kib)) \<noteq> resume_event sink"
  by (simp add: resume_event_def update_args_def)

lemma suspend_not_resume: "(sink_index sink, Virsh [lit ''suspend'', sink_vm_name sink]) \<noteq> resume_event sink"
proof -
  have "lit ''suspend'' \<noteq> lit ''resume''" by code_simp
  then show ?thesis by (simp add: resume_event_def)
qed

lemma wp_apply_prepared:
  assumes "safe_resumes w sink tgt h0 h" and "bytes_to_kibibytes new_size = Some kib"
  shows "wp (apply_prepared w sink (update_args sink kib))
    (\<lambda>_ h'. safe_resumes w sink tgt h0 h' \<and> (new_size = tgt \<longrightarrow> restored w sink tgt h'))
    (\<lambda>_. safe_resumes w sink tgt h0) h"
  using assms
  by (auto simp: apply_prepared_def effect_defs wp_simps restored_def update_not_resume intro!: safe_Cons
      split: sum.splits)

lemma wp_restore_request:
  assumes "safe_resumes w sink (requested_bytes expected) h0 h"
    and "bytes_to_kibibytes (requested_bytes expected) = Some kib"
  shows "wp (restore_request w sink expected (update_args sink kib))
    (\<lambda>_ h'. safe_resumes w sink (requested_bytes expected) h0 h' \<and> restored w sink (requested_bytes expected) h')
    (\<lambda>_. safe_resumes w sink (requested_bytes expected) h0) h"
  unfolding restore_request_def wp_bind wp_attempt
proof (rule wp_mono [OF wp_apply_prepared [OF assms]])
  fix e g assume g: "safe_resumes w sink (requested_bytes expected) h0 g"
  show "wp (case Inl e of Inl _ \<Rightarrow> bind (prepare_restore w sink expected) (apply_prepared w sink) | Inr _ \<Rightarrow> ret ())
    (\<lambda>_ h'. safe_resumes w sink (requested_bytes expected) h0 h' \<and> restored w sink (requested_bytes expected) h')
    (\<lambda>_. safe_resumes w sink (requested_bytes expected) h0) g"
    unfolding sum.case wp_bind prepare_restore_def
  proof (rule wp_mono [OF wp_prepare], elim conjE exE)
    fix args g' k assume "quiet g g'" and k: "args = update_args sink k" "bytes_to_kibibytes (requested_bytes expected) = Some k"
    then show "wp (apply_prepared w sink args)
      (\<lambda>_ h'. safe_resumes w sink (requested_bytes expected) h0 h' \<and> restored w sink (requested_bytes expected) h')
      (\<lambda>_. safe_resumes w sink (requested_bytes expected) h0) g'"
      using wp_mono [OF wp_apply_prepared [OF safe_quiet [OF g] k(2)]] by simp
  qed (rule safe_quiet [OF g])
qed (simp add: wp_simps)

lemma keeps_update:
  assumes "bytes_to_kibibytes new_size = Some kib"
  shows "keeps (safe_resumes w sink tgt h0) (apply_prepared w sink (update_args sink kib))"
  by (rule tripleI, rule wp_mono [OF wp_apply_prepared [OF _ assms]]) simp_all

lemma keeps_suspend: "keeps (safe_resumes w sink tgt h0) (domain w sink ''suspend'')"
  by (rule tripleI) (auto simp: domain_def effect_defs wp_simps suspend_not_resume split: sum.splits intro: safe_Cons)

lemma keeps_restore_resume:
  assumes "bytes_to_kibibytes (requested_bytes expected) = Some kib"
    and "keeps (safe_resumes w sink (requested_bytes expected) h0) rest"
  shows "keeps (safe_resumes w sink (requested_bytes expected) h0)
    (bind (map_error f (restore_request w sink expected (update_args sink kib))) (\<lambda>_.
     bind (map_error g (domain w sink ''resume'')) (\<lambda>_. rest)))"
proof (rule tripleI, unfold wp_bind wp_map_error)
  let ?S = "safe_resumes w sink (requested_bytes expected) h0"
  fix h assume "?S h"
  show "wp (restore_request w sink expected (update_args sink kib))
    (\<lambda>_. wp (domain w sink ''resume'') (\<lambda>_. wp rest (\<lambda>_. ?S) (\<lambda>_. ?S)) (\<lambda>_. ?S)) (\<lambda>_. ?S) h"
  proof (rule wp_mono [OF wp_restore_request [OF \<open>?S h\<close> assms(1)]])
    fix h1 assume "?S h1 \<and> restored w sink (requested_bytes expected) h1"
    then have "?S (resume_event sink # h1)" by (simp add: safe_Cons)
    then show "wp (domain w sink ''resume'') (\<lambda>_. wp rest (\<lambda>_. ?S) (\<lambda>_. ?S)) (\<lambda>_. ?S) h1"
      using tripleD [OF assms(2)] by (auto simp: domain_def effect_defs wp_simps resume_event_def split: sum.splits)
  qed
qed

lemma wp_widen:
  "wp (widen_usable_region_guarded w sink expected)
     (\<lambda>_. safe_resumes w sink (requested_bytes expected) h) (\<lambda>_. safe_resumes w sink (requested_bytes expected) h) h"
  unfolding widen_usable_region_guarded_def Let_def
proof (subst wp_bind, subst wp_map_error, rule wp_mono [OF wp_prepare], elim conjE exE)
  let ?S = "safe_resumes w sink (requested_bytes expected) h"
  fix widen h1 k1
  assume h1: "quiet h h1" and widen: "widen = update_args sink k1" "bytes_to_kibibytes (device_maximum_target expected) = Some k1"
  let ?converged = "require_converged expected (lit ''live device changed since the widening decision'')"
  have tail: "keeps ?S (bind (stop_requested w (sink_index sink)) (\<lambda>stopped.
        if stopped then raise (SinkRejected (lit ''shutdown requested''))
        else
          bind (map_error SinkRejected (domain w sink ''suspend'')) (\<lambda>_.
          bind (attempt (apply_prepared w sink widen)) (\<lambda>widened.
          bind (map_error (\<lambda>e. CommandUnknown (WIDEN_UNRESTORED @ lit '': '' @ e))
              (restore_request w sink expected (update_args sink k2))) (\<lambda>_.
          bind (map_error (\<lambda>e. CommandUnknown (lit ''domain could not be resumed after widening: '' @ e))
              (domain w sink ''resume'')) (\<lambda>_.
            case widened of
              Inr _ \<Rightarrow> ret ()
            | Inl e \<Rightarrow> raise (CommandUnknown (lit ''widening the usable region failed after pausing: '' @ e))))))))"
    if k2: "bytes_to_kibibytes (requested_bytes expected) = Some k2" for k2
  proof (rule keeps_bind, goal_cases)
    case 1
    show ?case by (rule tripleI) (simp add: stop_requested_def wp_simps safe_Cons resume_event_def)
  next
    case (2 stopped)
    have "keeps ?S (apply_prepared w sink widen)" unfolding widen(1) by (rule keeps_update [OF widen(2)])
    then show ?case
      by (intro keeps_if keeps_raise keeps_bind [OF keeps_map_error [OF keeps_suspend]] keeps_bind [OF keeps_attempt]
          keeps_restore_resume [OF k2] keeps_sum keeps_ret)
  qed
  show "wp (bind (map_error SinkRejected (prepare w sink (requested_bytes expected) ?converged)) (\<lambda>restore.
      bind (stop_requested w (sink_index sink)) (\<lambda>stopped.
        if stopped then raise (SinkRejected (lit ''shutdown requested''))
        else
          bind (map_error SinkRejected (domain w sink ''suspend'')) (\<lambda>_.
          bind (attempt (apply_prepared w sink widen)) (\<lambda>widened.
          bind (map_error (\<lambda>e. CommandUnknown (WIDEN_UNRESTORED @ lit '': '' @ e))
              (restore_request w sink expected restore)) (\<lambda>_.
          bind (map_error (\<lambda>e. CommandUnknown (lit ''domain could not be resumed after widening: '' @ e))
              (domain w sink ''resume'')) (\<lambda>_.
            case widened of
              Inr _ \<Rightarrow> ret ()
            | Inl e \<Rightarrow> raise (CommandUnknown (lit ''widening the usable region failed after pausing: '' @ e)))))))))
     (\<lambda>_. ?S) (\<lambda>_. ?S) h1"
    by (subst wp_bind, subst wp_map_error, rule wp_mono [OF wp_prepare], elim conjE exE, simp only:)
      (use h1 in \<open>blast intro: tripleD [OF tail] safe_quiet [OF safe_refl] quiet_trans\<close>)+
qed (blast intro: safe_quiet [OF safe_refl])

section \<open>Properties\<close>

text \<open>The evidence and the live device a successful preparation rests on.\<close>

definition checked_live ::
    "env \<Rightarrow> resize_sink \<Rightarrow> u64 \<Rightarrow> history \<Rightarrow> virtio_mem_state \<Rightarrow> bool" where
  "checked_live w sink tgt h state \<longleftrightarrow>
     (\<exists>xml snapshot evidence merged.
        world_virsh w (sink_index sink) [lit ''dumpxml'', sink_vm_name sink] ((sink_index sink, ReadEvidence) # h) = Inr xml
        \<and> parse_virtio_mem_xml_for_alias (world_xml w) xml (sink_alias sink) = Inr snapshot
        \<and> xml_memory snapshot = state \<and> validate_target state tgt = Inr ()
        \<and> world_evidence w (sink_index sink) h = Inr evidence
        \<and> merge_compatibility (xml_compatibility snapshot) evidence = Inr merged
        \<and> validate_for_resize merged = Inr ())"

lemma prepare_ok:
  assumes "prepare w sink tgt pre h = (Inr args, h')"
  shows "\<exists>state kib. checked_live w sink tgt h state \<and> pre state = Inr () \<and> bytes_to_kibibytes tgt = Some kib
    \<and> args = update_args sink kib
    \<and> h' = (sink_index sink, Virsh [lit ''dumpxml'', sink_vm_name sink]) # (sink_index sink, ReadEvidence) # h"
proof -
  have "wp (prepare w sink tgt pre)
    (\<lambda>args h'. \<exists>state kib. checked_live w sink tgt h state \<and> pre state = Inr () \<and> bytes_to_kibibytes tgt = Some kib
      \<and> args = update_args sink kib
      \<and> h' = (sink_index sink, Virsh [lit ''dumpxml'', sink_vm_name sink]) # (sink_index sink, ReadEvidence) # h)
    (\<lambda>_ _. True) h"
    by (auto simp: prepare_def dump_xml_def effect_defs wp_simps checked_live_def result_simps split: sum.splits)
  from wp_result [OF this assms] show ?thesis .
qed

text \<open>
  C36. A resize sends a command only when everything it depends on was checked just before: the
  live XML read in this call parses to exactly the converged state the decision was made for, the
  target is valid for it, the attested evidence merged with the XML's confirms every part, and the
  authorization succeeded. Then it sends exactly one command, for exactly the target, and never
  reports a rejection.
\<close>

theorem resize_is_guarded:
  assumes run: "request_resize_guarded w sink expected tgt authorize h = (r, h')"
    and quiet: "\<And>g. wp authorize (\<lambda>_. quiet g) (\<lambda>_. quiet g) g"
    and cmd: "commands h' \<noteq> commands h"
  shows "checked_live w sink tgt h expected \<and> requested_bytes expected = current_bytes expected
    \<and> fst (authorize ((sink_index sink, Virsh [lit ''dumpxml'', sink_vm_name sink]) # (sink_index sink, ReadEvidence) # h)) = Inr ()
    \<and> (\<exists>kib. bytes_to_kibibytes tgt = Some kib
         \<and> commands h' = (sink_index sink, Virsh (update_args sink kib)) # commands h)
    \<and> (\<forall>m. r \<noteq> Inl (SinkRejected m))"
proof -
  let ?pre = "require_converged expected (lit ''live device state changed since the resize decision'')"
  let ?h1 = "(sink_index sink, Virsh [lit ''dumpxml'', sink_vm_name sink]) # (sink_index sink, ReadEvidence) # h"
  have law: "if \<exists>m. r = Inl (SinkRejected m) then quiet h h' else sent sink tgt h h'"
    using wp_request_resize [OF quiet, where h = h and w = w and sink = sink and expected = expected and tgt = tgt] run
    by (auto simp: wp_def split: sum.splits resize_sink_error.splits)
  then have sent: "\<forall>m. r \<noteq> Inl (SinkRejected m)" "sent sink tgt h h'"
    using cmd quiet_commands by (auto split: if_splits)
  obtain args h1 where prep: "prepare w sink tgt ?pre h = (Inr args, h1)"
    using run sent(1) unfolding request_resize_guarded_def bind_def map_error_def
    by (cases "prepare w sink tgt ?pre h"; cases "fst (prepare w sink tgt ?pre h)") auto
  from prepare_ok [OF prep] obtain state where st: "checked_live w sink tgt h state" "?pre state = Inr ()" "h1 = ?h1"
    by blast
  have state: "state = expected" "requested_bytes expected = current_bytes expected"
    using st(2) by (auto simp: require_converged_def split: if_splits)
  have "fst (authorize h1) = Inr ()"
    using run sent(1) prep unfolding request_resize_guarded_def bind_def map_error_def
    by (cases "authorize h1"; cases "fst (authorize h1)") auto
  then show ?thesis
    using st state sent sent_commands [OF sent(2)] by simp
qed

text \<open>
  C37. A domain paused for widening is resumed only when the newest event before the resume is an
  accepted command that requests the converged allocation again: whatever fails, the guest never runs
  with the whole device requested.
\<close>

theorem widening_restores_before_resume:
  assumes "widen_usable_region_guarded w sink expected h = (r, h')"
    and "h' = newer @ (sink_index sink, Virsh [lit ''resume'', sink_vm_name sink]) # older"
    and "length h \<le> length older"
  shows "\<exists>kib g out. bytes_to_kibibytes (requested_bytes expected) = Some kib
    \<and> older = (sink_index sink, Virsh (update_args sink kib)) # g
    \<and> world_virsh w (sink_index sink) (update_args sink kib) g = Inr out"
proof -
  have "safe_resumes w sink (requested_bytes expected) h h'"
    using wp_widen [of w sink expected h] assms(1) by (cases r) (auto simp: wp_def)
  then have "restored w sink (requested_bytes expected) older"
    using assms(2,3) unfolding safe_resumes_def resume_event_def by blast
  then show ?thesis by (simp add: restored_def)
qed

definition sample_env :: "virtio_mem_state \<Rightarrow> env" where
  "sample_env d =
     \<lparr>world_clock = (\<lambda>_. Inr 1010000), world_instant = (\<lambda>_. 0), world_stop = (\<lambda>_. False),
      world_available = (\<lambda>_. Inr 34359738368), world_evidence = (\<lambda>_ _. Inr confirmed_compatibility),
      world_virsh = (\<lambda>_ _ _. Inr []), world_publication = (\<lambda>_ _. PubUnavailable (lit ''off'')),
      world_write_status = (\<lambda>_ _ _. Inr ()), world_write_telemetry = (\<lambda>_ _ _. Inr ()),
      world_disk = (\<lambda>_ _. sample_fs), world_xml = (\<lambda>_ _. device_items (lit ''virtiomem0'') d),
      parse_envelope = (\<lambda>_. Inl (lit ''empty'')), encode_checkpoint = (\<lambda>_. Inr []),
      encode_status = (\<lambda>_. Inr []), process_id = 7\<rparr>"

definition sample_sink :: resize_sink where
  "sample_sink = \<lparr>sink_index = 0, sink_vm_name = lit ''win11'', sink_alias = lit ''virtiomem0''\<rparr>"

theorem resize_is_guarded_witness:
  "\<exists>r h'. request_resize_guarded (sample_env sample_live) sample_sink sample_live 4294967296 (ret ()) [] = (r, h')
     \<and> commands h' = [(0, Virsh (update_args sample_sink 4194304))]
     \<and> checked_live (sample_env sample_live) sample_sink 4294967296 [] sample_live"
proof -
  let ?x = "request_resize_guarded (sample_env sample_live) sample_sink sample_live 4294967296 (ret ()) []"
  have c: "commands (snd ?x) = [(0, Virsh (update_args sample_sink 4194304))]" by code_simp
  have x: "?x = (fst ?x, snd ?x)" by simp
  have q: "wp (ret ()) (\<lambda>_. quiet g) (\<lambda>_. quiet g) g" for g :: history by (simp add: wp_simps)
  have "commands (snd ?x) \<noteq> commands []" by (simp add: c)
  from resize_is_guarded [OF x q this] show ?thesis
    using c x by (intro exI [of _ "fst ?x"] exI [of _ "snd ?x"]) simp
qed

theorem widening_restores_before_resume_witness:
  "\<exists>kib g. snd (widen_usable_region_guarded (sample_env sample_live) sample_sink sample_live [])
     = (0, Virsh [lit ''resume'', lit ''win11'']) # (0, Virsh (update_args sample_sink kib)) # g"
proof -
  let ?x = "widen_usable_region_guarded (sample_env sample_live) sample_sink sample_live []"
  have "hd (snd ?x) = (0, Virsh [lit ''resume'', lit ''win11''])" "snd ?x \<noteq> []" by code_simp+
  then obtain older where o: "snd ?x = [] @ (sink_index sample_sink, Virsh [lit ''resume'', sink_vm_name sample_sink]) # older"
    by (cases "snd ?x") (auto simp: sample_sink_def)
  have x: "?x = (fst ?x, snd ?x)" by simp
  show ?thesis using widening_restores_before_resume [OF x o] o by (auto simp: sample_sink_def)
qed

text \<open>
  C38. A suspend that fails is reported as a rejection, which the caller treats as nothing changed, with
  the suspend as the last command and no resume after it: when the failure was a timeout of a command
  that was carried out, the domain stays paused and nothing is latched.
\<close>

theorem failed_suspend_is_rejected:
  assumes "prepare w sink (device_maximum_target expected)
        (require_converged expected (lit ''live device changed since the widening decision'')) h = (Inr widen, h1)"
    and "prepare w sink (requested_bytes expected)
        (require_converged expected (lit ''live device changed since the widening decision'')) h1 = (Inr restore, h2)"
    and "\<not> world_stop w h2"
    and "world_virsh w (sink_index sink) [lit ''suspend'', sink_vm_name sink] ((sink_index sink, ReadStop) # h2) = Inl e"
  shows "widen_usable_region_guarded w sink expected h
    = (Inl (SinkRejected e), (sink_index sink, Virsh [lit ''suspend'', sink_vm_name sink]) # (sink_index sink, ReadStop) # h2)"
  using assms
  by (simp add: widen_usable_region_guarded_def Let_def bind_def map_error_def domain_def effect_defs ask_def)

theorem failed_suspend_is_rejected_witness:
  "\<exists>h'. widen_usable_region_guarded
      ((sample_env sample_live)\<lparr>world_virsh := (\<lambda>_ args _. if args = [lit ''suspend'', lit ''win11''] then Inl (lit ''virsh timed out'') else Inr [])\<rparr>)
      sample_sink sample_live [] = (Inl (SinkRejected (lit ''virsh timed out'')), h')"
proof -
  let ?w = "(sample_env sample_live)\<lparr>world_virsh := (\<lambda>_ args _. if args = [lit ''suspend'', lit ''win11''] then Inl (lit ''virsh timed out'') else Inr [])\<rparr>"
  let ?c = "require_converged sample_live (lit ''live device changed since the widening decision'')"
  let ?p1 = "prepare ?w sample_sink (device_maximum_target sample_live) ?c []"
  let ?p2 = "prepare ?w sample_sink (requested_bytes sample_live) ?c (snd ?p1)"
  have "is_ok (fst ?p1)" "is_ok (fst ?p2)" by code_simp+
  then obtain a b where "fst ?p1 = Inr a" "fst ?p2 = Inr b" by (auto simp: is_ok_iff)
  then have p: "?p1 = (Inr a, snd ?p1)" "?p2 = (Inr b, snd ?p2)" by (metis prod.collapse)+
  have "\<not> world_stop ?w (snd ?p2)" by (simp add: sample_env_def)
  moreover have "world_virsh ?w (sink_index sample_sink) [lit ''suspend'', sink_vm_name sample_sink]
      ((sink_index sample_sink, ReadStop) # snd ?p2) = Inl (lit ''virsh timed out'')"
    by (simp add: sample_sink_def)
  ultimately show ?thesis using failed_suspend_is_rejected [OF p] by blast
qed

end
