(* ===== verification/Guest_Channel.thy ===== *)
theory Guest_Channel
  imports Resize_Sink
begin

text \<open>
  The host side of the guest channel: \<open>guest_channel.rs\<close>. Reading gives the latest complete record of
  the guest's publication once it validates; publishing writes a status when it changed or a refresh is
  due. The guest agent's file access and the JSON codec are parameters. A publication of one record is
  what the Windows service writes; the code accepts several and takes the last.
\<close>

definition MAX_RAW_TELEMETRY_RECORD_BYTES :: int where
  "MAX_RAW_TELEMETRY_RECORD_BYTES = 64 * 1024"

definition MAX_HOST_STATUS_BYTES :: int where
  "MAX_HOST_STATUS_BYTES = 64 * 1024"

record guest_channel =
  ch_publication_path :: rust_str
  ch_vm_name :: rust_str
  ch_service_name :: rust_str
  ch_max_age :: duration
  ch_future_tolerance :: duration
  ch_last_status :: "host_memory_status option"
  ch_last_write :: "duration option"

definition with_clock :: "rust_str \<Rightarrow> rust_str \<Rightarrow> rust_str \<Rightarrow> duration \<Rightarrow> duration \<Rightarrow> guest_channel" where
  "with_clock path vm service max_age tolerance =
     \<lparr>ch_publication_path = path, ch_vm_name = vm, ch_service_name = service, ch_max_age = max_age,
      ch_future_tolerance = tolerance, ch_last_status = None, ch_last_write = None\<rparr>"

definition duration_millis :: "duration \<Rightarrow> rust_str + u64" where
  "duration_millis d =
     (if 0 \<le> d \<and> d < 2 ^ 64 then Inr (word_of_int d) else Inl (lit ''guest channel duration is too large''))"

definition validate_contents ::
    "(rust_str \<Rightarrow> rust_str + raw_telemetry_envelope) \<Rightarrow> rust_str \<Rightarrow> rust_str \<Rightarrow> rust_str \<Rightarrow> u64 \<Rightarrow> u64 \<Rightarrow> u64 \<Rightarrow>
     rust_str + raw_telemetry_envelope" where
  "validate_contents from_str contents vm service max_age tolerance now =
     (if contents \<noteq> [] \<and> \<not> ends_with contents [10]
        then Inl (lit ''guest publication ends with a partial record'')
      else
        and_then (ok_or (List.find (\<lambda>line. trim line \<noteq> []) (rev (str_lines contents)))
            (lit ''guest publication has no records'')) (\<lambda>line.
          if MAX_RAW_TELEMETRY_RECORD_BYTES < int (str_len line)
            then Inl (lit ''latest guest record exceeds 65536 byte limit'')
          else
            and_then (map_err (\<lambda>e. lit ''parse latest guest record: '' @ e) (from_str line)) (\<lambda>envelope.
            and_then (map_err display_demand_error
                (validate_envelope_for envelope vm service now max_age tolerance)) (\<lambda>_.
              Inr envelope))))"

definition read_file :: "env \<Rightarrow> nat \<Rightarrow> (history, rust_str, rust_str) prog" where
  "read_file w i = ask i ReadGuest (\<lambda>h. case world_publication w i h of
       PubUnavailable e \<Rightarrow> Inl (lit ''guest publication unavailable: '' @ e)
     | PubInvalidUtf8 e \<Rightarrow> Inl (lit ''guest publication is not valid UTF-8: '' @ e)
     | PubContents t \<Rightarrow> Inr t)"

definition guest_read :: "env \<Rightarrow> nat \<Rightarrow> guest_channel \<Rightarrow> (history, rust_str, raw_telemetry_envelope) prog" where
  "guest_read w i ch =
     bind (read_file w i) (\<lambda>contents.
     bind (lift_result (duration_millis (ch_max_age ch))) (\<lambda>max_age.
     bind (lift_result (duration_millis (ch_future_tolerance ch))) (\<lambda>tolerance.
     bind (now_unix_millis w i) (\<lambda>now.
       lift_result (validate_contents (parse_envelope w) contents (ch_vm_name ch) (ch_service_name ch)
         max_age tolerance now)))))"

definition status_changed :: "host_memory_status option \<Rightarrow> host_memory_status \<Rightarrow> bool" where
  "status_changed previous status \<longleftrightarrow>
     (case previous of
        None \<Rightarrow> True
      | Some l \<Rightarrow>
          st_requested_bytes l \<noteq> st_requested_bytes status \<or> st_current_bytes l \<noteq> st_current_bytes status
          \<or> st_result l \<noteq> st_result status \<or> st_device_size_bytes l \<noteq> st_device_size_bytes status
          \<or> st_block_size_bytes l \<noteq> st_block_size_bytes status)"

definition refresh_due :: "env \<Rightarrow> nat \<Rightarrow> guest_channel \<Rightarrow> (history, rust_str, bool) prog" where
  "refresh_due w i ch =
     (case ch_last_write ch of
        None \<Rightarrow> ret True
      | Some written \<Rightarrow> bind (elapsed w i written) (\<lambda>age. ret (ch_max_age ch div 3 \<le> age)))"

text \<open>The channel after a successful publication.\<close>

definition publish_status ::
    "env \<Rightarrow> nat \<Rightarrow> guest_channel \<Rightarrow> host_memory_status \<Rightarrow> (history, rust_str, guest_channel) prog" where
  "publish_status w i ch status =
     (let changed = status_changed (ch_last_status ch) status in
      bind (refresh_due w i ch) (\<lambda>due.
        if \<not> changed \<and> \<not> due then ret ch
        else
          bind (lift_result (map_err (\<lambda>e. lit ''encode host memory status: '' @ e) (encode_status w status))) (\<lambda>bytes.
            if MAX_HOST_STATUS_BYTES < int_length bytes + 1
              then raise (lit ''host memory status exceeds its byte limit'')
            else
              bind (ask i (WriteStatus (host_status_path (ch_publication_path ch)) status)
                  (world_write_status w i status)) (\<lambda>_.
              bind (instant_now w i) (\<lambda>t.
                if changed
                then bind (tell i WakeGuest) (\<lambda>_. ret (ch\<lparr>ch_last_write := Some t, ch_last_status := Some status\<rparr>))
                else ret (ch\<lparr>ch_last_write := Some t\<rparr>))))))"

section \<open>What reading guarantees\<close>

lemma find_Some_in: "List.find P xs = Some x \<Longrightarrow> x \<in> set xs \<and> P x"
  by (auto simp: find_Some_iff)

lemma validate_contents_ok:
  assumes "validate_contents from_str contents vm service max_age tolerance now = Inr v"
  shows "validate_envelope_for v vm service now max_age tolerance = Inr ()"
  using assms by (auto simp: validate_contents_def result_simps split: if_splits)

lemma keeps_quiet_events:
  "\<not> is_command (i, e) \<Longrightarrow> \<not> is_persist (i, e) \<Longrightarrow> keeps (quiet h) (ask i e f)"
  "\<not> is_command (i, e) \<Longrightarrow> \<not> is_persist (i, e) \<Longrightarrow> keeps (quiet h) (tell i e)"
  by (auto simp: triple_def wp_simps split: sum.splits)

lemma guest_read_quiet: "keeps (quiet h) (guest_read w i ch)"
  unfolding guest_read_def read_file_def now_unix_millis_def
  by (intro keeps_rules keeps_quiet_events) simp_all

lemma publish_status_quiet: "keeps (quiet h) (publish_status w i ch status)"
  unfolding publish_status_def refresh_due_def elapsed_def instant_now_def Let_def
  by (intro keeps_rules keeps_quiet_events) simp_all

end
