(* ===== verification/Pool.thy ===== *)
theory Pool
  imports Prelude
begin

text \<open>
  Shared-pool bookkeeping: \<open>pool.rs\<close> of the core crate, a pure function of one round's inputs. The
  theorems show that a round never hands out more than is free, never lowers a member below what it
  holds, grants whole blocks of at most what was wanted, serves members in priority order with ties in
  configuration order, and fails exactly on an invalid block or an overflowing total.
\<close>

section \<open>Definitions\<close>

record pool_member =
  priority :: u32
  charged_bytes :: u64
  desired_bytes :: u64
  block_bytes :: u64

record pool_allocation =
  ceiling_bytes :: u64
  unmet_bytes :: u64

datatype pool_error = InvalidBlock | Overflow

definition align_down :: "u64 \<Rightarrow> u64 \<Rightarrow> u64" where
  "align_down v alignment = v - v mod alignment"

text \<open>The \<open>try_fold\<close> over the charges: \<open>None\<close> when the running total overflows.\<close>

fun charged_total :: "u64 \<Rightarrow> pool_member list \<Rightarrow> u64 option" where
  "charged_total acc [] = Some acc"
| "charged_total acc (m # ms) =
     (case checked_add acc (charged_bytes m) of
        None \<Rightarrow> None
      | Some acc' \<Rightarrow> charged_total acc' ms)"

text \<open>The indices in service order: a stable sort by descending priority.\<close>

definition service_order :: "pool_member list \<Rightarrow> nat list" where
  "service_order members = sort_key (\<lambda>i. - uint (priority (members ! i))) [0..<length members]"

definition wanted_bytes :: "pool_member \<Rightarrow> u64" where
  "wanted_bytes m = saturating_sub (desired_bytes m) (charged_bytes m)"

definition granted_bytes :: "u64 \<Rightarrow> pool_member \<Rightarrow> u64" where
  "granted_bytes free m = align_down (min (wanted_bytes m) free) (block_bytes m)"

fun allocate_loop ::
    "pool_member list \<Rightarrow> nat list \<Rightarrow> u64 \<Rightarrow> pool_allocation list \<Rightarrow> pool_allocation list" where
  "allocate_loop members [] free allocations = allocations"
| "allocate_loop members (i # order) free allocations =
     (let m = members ! i; granted = granted_bytes free m in
      allocate_loop members order (free - granted)
        (allocations[i := \<lparr>ceiling_bytes = charged_bytes m + granted,
                           unmet_bytes = wanted_bytes m - granted\<rparr>]))"

definition allocate_pool :: "u64 \<Rightarrow> pool_member list \<Rightarrow> pool_error + pool_allocation list" where
  "allocate_pool pool_bytes members =
     (if list_ex (\<lambda>m. block_bytes m = 0 \<or> \<not> is_power_of_two (block_bytes m)) members
        then Inl InvalidBlock
      else case charged_total 0 members of
          None \<Rightarrow> Inl Overflow
        | Some charged \<Rightarrow>
            Inr (allocate_loop members (service_order members) (saturating_sub pool_bytes charged)
                  (replicate (length members) \<lparr>ceiling_bytes = 0, unmet_bytes = 0\<rparr>)))"

section \<open>One grant\<close>

interpretation pool_floor: block_floor align_down
  by standard (simp add: align_down_def unat_minus_mod)

definition block_ok :: "pool_member \<Rightarrow> bool" where
  "block_ok m \<longleftrightarrow> 0 < unat (block_bytes m)"

text \<open>What one round promises one member, given what was free when it was served.\<close>

definition fair_share :: "u64 \<Rightarrow> pool_member \<Rightarrow> pool_allocation \<Rightarrow> bool" where
  "fair_share free m a \<longleftrightarrow>
     (\<exists>g. unat (ceiling_bytes a) = unat (charged_bytes m) + g
        \<and> unat (block_bytes m) dvd g \<and> g \<le> unat free
        \<and> g + unat (unmet_bytes a) = unat (desired_bytes m) - unat (charged_bytes m)
        \<and> (unat (block_bytes m) \<le> unat (unmet_bytes a) \<longrightarrow> unat free - g < unat (block_bytes m)))"

abbreviation share_of :: "u64 \<Rightarrow> pool_member \<Rightarrow> pool_allocation" where
  "share_of free m \<equiv> \<lparr>ceiling_bytes = charged_bytes m + granted_bytes free m,
                       unmet_bytes = wanted_bytes m - granted_bytes free m\<rparr>"

lemma granted_le:
  assumes "block_ok m"
  shows "granted_bytes free m \<le> wanted_bytes m" and "granted_bytes free m \<le> free"
  using pool_floor.floor_le [of "block_bytes m" "min (wanted_bytes m) free"] assms
  by (simp_all add: granted_bytes_def block_ok_def)

lemma unat_wanted: "unat (wanted_bytes m) = unat (desired_bytes m) - unat (charged_bytes m)"
  by (simp add: wanted_bytes_def unat_saturating_sub)

lemma unat_share_ceiling:
  assumes "block_ok m"
  shows "unat (charged_bytes m + granted_bytes free m) = unat (charged_bytes m) + unat (granted_bytes free m)"
proof (rule unat_add_less)
  have "unat (granted_bytes free m) \<le> unat (desired_bytes m) - unat (charged_bytes m)"
    using granted_le(1) [OF assms] by (simp add: word_le_nat_alt unat_wanted)
  then show "unat (charged_bytes m) + unat (granted_bytes free m) < 2 ^ LENGTH(64)"
    using unat_less_bound [of "desired_bytes m"] unat_less_bound [of "charged_bytes m"]
    by (cases "unat (charged_bytes m) \<le> unat (desired_bytes m)") auto
qed

lemma share_fair:
  assumes "block_ok m"
  shows "fair_share free m (share_of free m)"
proof -
  let ?g = "granted_bytes free m" and ?b = "block_bytes m"
  have le: "unat ?g \<le> unat (wanted_bytes m)" "unat ?g \<le> unat free"
    using granted_le [OF assms, of free] by (simp_all add: word_le_nat_alt)
  have gap: "unat (min (wanted_bytes m) free) < unat ?g + unat ?b"
    using pool_floor.floor_gap assms by (simp add: granted_bytes_def block_ok_def)
  have unmet: "unat (wanted_bytes m - ?g) = unat (wanted_bytes m) - unat ?g"
    using le by (simp add: unat_sub word_le_nat_alt)
  have "unat ?b dvd unat ?g"
    using pool_floor.floor_multiple assms
    by (simp add: granted_bytes_def block_ok_def is_multiple_of_dvd)
  moreover have "unat free - unat ?g < unat ?b" if "unat ?b \<le> unat (wanted_bytes m) - unat ?g"
    using gap that le by (auto simp: unat_min_eq min_def split: if_splits)
  ultimately show ?thesis
    using le unmet unat_share_ceiling [OF assms]
    unfolding fair_share_def by (intro exI [of _ "unat ?g"]) (simp add: unat_wanted)
qed

section \<open>The loop\<close>

lemma allocate_loop_length [simp]:
  "length (allocate_loop members order free al) = length al"
  by (induction members order free al rule: allocate_loop.induct) (simp_all add: Let_def)

lemma allocate_loop_untouched:
  "i \<notin> set order \<Longrightarrow> allocate_loop members order free al ! i = al ! i"
  by (induction members order free al rule: allocate_loop.induct) (auto simp: Let_def nth_list_update)

text \<open>The bytes still free after the members of \<open>order\<close> were served in turn.\<close>

fun free_after :: "pool_member list \<Rightarrow> nat list \<Rightarrow> u64 \<Rightarrow> u64" where
  "free_after members [] free = free"
| "free_after members (i # order) free = free_after members order (free - granted_bytes free (members ! i))"

lemma allocate_loop_append:
  "allocate_loop members (xs @ ys) free al =
     allocate_loop members ys (free_after members xs free) (allocate_loop members xs free al)"
  by (induction xs arbitrary: free al) (simp_all add: Let_def)

lemma allocate_loop_served:
  assumes "distinct (xs @ i # ys)" and "i < length al"
  shows "allocate_loop members (xs @ i # ys) free al ! i = share_of (free_after members xs free) (members ! i)"
  using assms by (simp add: allocate_loop_append Let_def allocate_loop_untouched)

lemma free_after_le:
  assumes "\<forall>i \<in> set order. block_ok (members ! i)"
  shows "unat (free_after members order free) \<le> unat free"
  using assms
proof (induction order arbitrary: free)
  case (Cons i order)
  have "unat (free - granted_bytes free (members ! i)) \<le> unat free"
    using granted_le(2) [of "members ! i" free] Cons.prems by (simp add: unat_sub word_le_nat_alt)
  then show ?case using Cons by (fastforce intro: le_trans)
qed simp

lemma free_after_append:
  "free_after members (xs @ ys) free = free_after members ys (free_after members xs free)"
  by (induction xs arbitrary: free) simp_all

text \<open>Conservation: what was free is what is left plus the growth of every served member.\<close>

definition growth :: "pool_member \<Rightarrow> pool_allocation \<Rightarrow> nat" where
  "growth m a = unat (ceiling_bytes a) - unat (charged_bytes m)"

lemma allocate_loop_conserves:
  assumes "distinct order" and "\<forall>i \<in> set order. block_ok (members ! i) \<and> i < length al"
  shows "(\<Sum>i\<leftarrow>order. growth (members ! i) (allocate_loop members order free al ! i))
           + unat (free_after members order free) = unat free"
  using assms
proof (induction order arbitrary: free al)
  case (Cons i order)
  let ?m = "members ! i" and ?al = "al[i := share_of free (members ! i)]"
  have m: "block_ok ?m" using Cons.prems by simp
  have "allocate_loop members (i # order) free al = allocate_loop members order (free - granted_bytes free ?m) ?al"
    by (simp add: Let_def)
  moreover have "growth ?m (allocate_loop members order (free - granted_bytes free ?m) ?al ! i)
      = unat (granted_bytes free ?m)"
    using Cons.prems by (simp add: allocate_loop_untouched growth_def unat_share_ceiling [OF m])
  moreover have "unat (free - granted_bytes free ?m) = unat free - unat (granted_bytes free ?m)"
    and "unat (granted_bytes free ?m) \<le> unat free"
    using granted_le(2) [OF m, of free] by (simp_all add: unat_sub word_le_nat_alt)
  ultimately show ?case
    using Cons.IH [of ?al "free - granted_bytes free ?m"] Cons.prems by simp
qed simp

section \<open>The service order\<close>

definition served_before :: "pool_member list \<Rightarrow> nat \<Rightarrow> nat \<Rightarrow> bool" where
  "served_before members i j \<longleftrightarrow>
     priority (members ! j) < priority (members ! i)
     \<or> priority (members ! i) = priority (members ! j) \<and> i < j"

lemma insort_key_stable_sorted:
  fixes f :: "nat \<Rightarrow> 'k::linorder"
  assumes "sorted_wrt (\<lambda>i j. f i < f j \<or> f i = f j \<and> i < j) ys" and "\<forall>y \<in> set ys. x < y"
  shows "sorted_wrt (\<lambda>i j. f i < f j \<or> f i = f j \<and> i < j) (insort_key f x ys)"
  using assms
proof (induction ys)
  case (Cons y ys)
  then show ?case by (fastforce simp: set_insort_key)
qed simp

lemma sort_key_stable_sorted:
  fixes f :: "nat \<Rightarrow> 'k::linorder"
  shows "sorted_wrt (<) xs \<Longrightarrow> sorted_wrt (\<lambda>i j. f i < f j \<or> f i = f j \<and> i < j) (sort_key f xs)"
  by (induction xs) (auto intro: insort_key_stable_sorted)

lemma service_order_sorted: "sorted_wrt (served_before members) (service_order members)"
proof -
  let ?f = "\<lambda>i. - uint (priority (members ! i))"
  have "served_before members = (\<lambda>i j. ?f i < ?f j \<or> ?f i = ?f j \<and> i < j)"
    by (auto simp: served_before_def word_less_def word_uint_eq_iff fun_eq_iff)
  then show ?thesis
    unfolding service_order_def
    using sort_key_stable_sorted [of "[0..<length members]" ?f] by simp
qed

lemma service_order_set [simp]: "set (service_order members) = {..<length members}"
  by (auto simp: service_order_def)

lemma service_order_distinct: "distinct (service_order members)"
  by (simp add: service_order_def)

lemma service_order_length [simp]: "length (service_order members) = length members"
  by (simp add: service_order_def)

lemma service_order_split:
  assumes "j < length members"
  obtains xs ys where "service_order members = xs @ j # ys" and "\<forall>i \<in> set xs. served_before members i j"
proof -
  obtain xs ys where split: "service_order members = xs @ j # ys"
    using assms split_list [of j "service_order members"] by auto
  moreover have "\<forall>i \<in> set xs. served_before members i j"
    using service_order_sorted [of members] unfolding split by (simp add: sorted_wrt_append)
  ultimately show ?thesis using that by blast
qed

lemma served_before_in_prefix:
  assumes "service_order members = xs @ j # ys" and "served_before members i j" and "i < length members"
  shows "i \<in> set xs"
proof -
  have "i \<noteq> j" using assms(2) by (auto simp: served_before_def)
  moreover have "i \<notin> set ys"
  proof
    assume "i \<in> set ys"
    then have "served_before members j i"
      using service_order_sorted [of members] assms(1) by (simp add: sorted_wrt_append)
    then show False using assms(2) by (auto simp: served_before_def)
  qed
  moreover have "i \<in> set (service_order members)" using assms(3) by simp
  ultimately show ?thesis using assms(1) by auto
qed

section \<open>Properties\<close>

abbreviation total_charge :: "pool_member list \<Rightarrow> nat" where
  "total_charge ms \<equiv> (\<Sum>m\<leftarrow>ms. unat (charged_bytes m))"

lemma charged_total_None: "charged_total a ms = None \<longleftrightarrow> 2 ^ 64 \<le> unat a + total_charge ms"
proof (induction ms arbitrary: a)
  case Nil
  then show ?case using unat_less_bound [of a] by simp
next
  case (Cons m ms)
  show ?case
  proof (cases "checked_add a (charged_bytes m)")
    case None
    then show ?thesis using checked_add_None [of a "charged_bytes m"] by simp
  next
    case (Some c)
    then show ?thesis using checked_add_Some [of a "charged_bytes m" c] Cons.IH [of c] by (simp add: add.assoc)
  qed
qed

lemma charged_total_Some: "charged_total a ms = Some t \<Longrightarrow> unat t = unat a + total_charge ms"
  by (induction ms arbitrary: a) (auto simp: checked_add_Some split: option.splits)

lemma block_ok_iff: "block_bytes m = 0 \<or> \<not> is_power_of_two (block_bytes m) \<longleftrightarrow> \<not> is_power_of_two (block_bytes m)"
  using is_power_of_two_pos [of "block_bytes m"] by auto

lemma allocate_pool_Inr:
  "allocate_pool pool ms = Inr as \<longleftrightarrow>
     (\<forall>m \<in> set ms. is_power_of_two (block_bytes m)) \<and>
     (\<exists>t. charged_total 0 ms = Some t \<and>
        as = allocate_loop ms (service_order ms) (saturating_sub pool t)
               (replicate (length ms) \<lparr>ceiling_bytes = 0, unmet_bytes = 0\<rparr>))"
  by (auto simp: allocate_pool_def block_ok_iff list_ex_iff split: option.splits)

text \<open>A successful round, with the bytes that were free and the served members' shares.\<close>

lemma allocate_pool_shares:
  assumes "allocate_pool pool ms = Inr as"
  obtains free where "unat free = unat pool - total_charge ms"
    and "\<And>xs i ys. service_order ms = xs @ i # ys \<Longrightarrow> as ! i = share_of (free_after ms xs free) (ms ! i)"
    and "length as = length ms" and "\<And>i. i < length ms \<Longrightarrow> block_ok (ms ! i)"
    and "(\<Sum>i\<leftarrow>service_order ms. growth (ms ! i) (as ! i)) + unat (free_after ms (service_order ms) free)
      = unat free"
proof -
  obtain t where blocks: "\<forall>m \<in> set ms. is_power_of_two (block_bytes m)" and t: "charged_total 0 ms = Some t"
    and as: "as = allocate_loop ms (service_order ms) (saturating_sub pool t)
      (replicate (length ms) \<lparr>ceiling_bytes = 0, unmet_bytes = 0\<rparr>)"
    using assms by (auto simp: allocate_pool_Inr)
  have ok: "block_ok (ms ! i)" if "i < length ms" for i
    using blocks that by (simp add: block_ok_def is_power_of_two_pos)
  show ?thesis
  proof
    show "unat (saturating_sub pool t) = unat pool - total_charge ms"
      using charged_total_Some [OF t] by (simp add: unat_saturating_sub)
    show "as ! i = share_of (free_after ms xs (saturating_sub pool t)) (ms ! i)"
      if split: "service_order ms = xs @ i # ys" for xs i ys
    proof -
      have "i \<in> set (service_order ms)" unfolding split by simp
      then have "i < length ms" by simp
      then show ?thesis
        unfolding as split using service_order_distinct [of ms] unfolding split
        by (intro allocate_loop_served) simp_all
    qed
    show "(\<Sum>i\<leftarrow>service_order ms. growth (ms ! i) (as ! i))
        + unat (free_after ms (service_order ms) (saturating_sub pool t)) = unat (saturating_sub pool t)"
      unfolding as by (rule allocate_loop_conserves) (auto simp: service_order_distinct ok)
  qed (simp_all add: as ok)
qed

lemma allocate_pool_fair:
  assumes "allocate_pool pool ms = Inr as" and "i < length ms"
  shows "\<exists>free. fair_share free (ms ! i) (as ! i)"
proof -
  obtain free where share: "\<And>xs i ys. service_order ms = xs @ i # ys \<Longrightarrow>
      as ! i = share_of (free_after ms xs free) (ms ! i)" and ok: "block_ok (ms ! i)"
    using allocate_pool_shares [OF assms(1)] assms(2) by metis
  obtain xs ys where "service_order ms = xs @ i # ys"
    using service_order_split [OF assms(2)] by blast
  then show ?thesis using share share_fair [OF ok] by metis
qed

text \<open>
  C15. One pool round never hands out more than is free: the growth of all ceilings beyond the charges
  is at most the pool less the total charge, and is nothing when the pool is overcommitted.
\<close>

theorem pool_never_overcommits:
  assumes "allocate_pool pool ms = Inr as"
  shows "(\<Sum>i<length ms. unat (ceiling_bytes (as ! i)) - unat (charged_bytes (ms ! i)))
    \<le> unat pool - total_charge ms"
proof -
  obtain free where free: "unat free = unat pool - total_charge ms"
    and sum: "(\<Sum>i\<leftarrow>service_order ms. growth (ms ! i) (as ! i))
      + unat (free_after ms (service_order ms) free) = unat free"
    by (rule allocate_pool_shares [OF assms]) (rule that)
  have "(\<Sum>i\<leftarrow>service_order ms. growth (ms ! i) (as ! i)) = (\<Sum>i<length ms. growth (ms ! i) (as ! i))"
    using sum.distinct_set_conv_list [OF service_order_distinct [of ms], of "\<lambda>i. growth (ms ! i) (as ! i)"]
    by simp
  then show ?thesis using sum free by (simp add: growth_def)
qed

definition example_members :: "pool_member list" where
  "example_members =
     [\<lparr>priority = 80, charged_bytes = 4294967296, desired_bytes = 6442450944, block_bytes = 2097152\<rparr>,
      \<lparr>priority = 100, charged_bytes = 4294967296, desired_bytes = 6442450944, block_bytes = 2097152\<rparr>]"

definition example_allocations :: "pool_allocation list" where
  "example_allocations =
     [\<lparr>ceiling_bytes = 4294967296, unmet_bytes = 2147483648\<rparr>,
      \<lparr>ceiling_bytes = 6442450944, unmet_bytes = 0\<rparr>]"

lemma example_round: "allocate_pool 10737418240 example_members = Inr example_allocations"
  by code_simp

theorem pool_never_overcommits_witness:
  "(\<Sum>i<2. unat (ceiling_bytes (example_allocations ! i)) - unat (charged_bytes (example_members ! i)))
    \<le> unat (10737418240::u64) - total_charge example_members"
proof -
  have "length example_members = 2" by (simp add: example_members_def)
  then show ?thesis using pool_never_overcommits [OF example_round] by (simp only:)
qed

text \<open>
  Every member keeps at least what it holds, and what it gains is a whole number of its blocks that
  together with the unmet rest is exactly what it wanted.
\<close>

theorem pool_share_bounds:
  assumes "allocate_pool pool ms = Inr as" and "i < length ms"
  shows "length as = length ms \<and> charged_bytes (ms ! i) \<le> ceiling_bytes (as ! i)
    \<and> unat (block_bytes (ms ! i)) dvd unat (ceiling_bytes (as ! i)) - unat (charged_bytes (ms ! i))
    \<and> (unat (ceiling_bytes (as ! i)) - unat (charged_bytes (ms ! i))) + unat (unmet_bytes (as ! i))
        = unat (desired_bytes (ms ! i)) - unat (charged_bytes (ms ! i))"
proof -
  have "length as = length ms" using assms(1) by (auto simp: allocate_pool_Inr)
  moreover obtain free where "fair_share free (ms ! i) (as ! i)"
    using allocate_pool_fair [OF assms] by blast
  ultimately show ?thesis by (auto simp: fair_share_def word_le_nat_alt)
qed

theorem pool_share_bounds_witness:
  "charged_bytes (example_members ! 0) \<le> ceiling_bytes (example_allocations ! 0)"
proof -
  have "0 < length example_members" by (simp add: example_members_def)
  then show ?thesis using pool_share_bounds [OF example_round, of 0] by blast
qed

text \<open>
  C16. Priority is respected: when a member is left wanting a whole block or more, every member served
  after it, of lower priority or the same priority but later in the configuration, gains less than that
  block. So no later member takes what would have met a block of an earlier one.
\<close>

theorem pool_serves_by_priority:
  assumes round: "allocate_pool pool ms = Inr as"
    and ij: "served_before ms i j" "i < length ms" "j < length ms"
    and unmet: "block_bytes (ms ! i) \<le> unmet_bytes (as ! i)"
  shows "unat (ceiling_bytes (as ! j)) - unat (charged_bytes (ms ! j)) < unat (block_bytes (ms ! i))"
proof -
  obtain free where share: "\<And>xs i ys. service_order ms = xs @ i # ys \<Longrightarrow>
      as ! i = share_of (free_after ms xs free) (ms ! i)" and ok: "\<And>i. i < length ms \<Longrightarrow> block_ok (ms ! i)"
    using allocate_pool_shares [OF round] by metis
  obtain xs ys where j: "service_order ms = xs @ j # ys"
    using service_order_split [OF ij(3)] by blast
  then obtain us vs where xs: "xs = us @ i # vs"
    using served_before_in_prefix [OF j ij(1,2)] by (auto dest: split_list)
  let ?fi = "free_after ms us free" and ?fj = "free_after ms xs free"
  let ?gi = "granted_bytes ?fi (ms ! i)" and ?gj = "granted_bytes ?fj (ms ! j)"
  have i: "as ! i = share_of ?fi (ms ! i)" using share [of us i "vs @ j # ys"] j xs by simp
  have "unat ?fi - unat ?gi < unat (block_bytes (ms ! i))"
    using share_fair [OF ok [OF ij(2)], of ?fi] unmet unat_share_ceiling [OF ok [OF ij(2)], of ?fi]
    by (auto simp: fair_share_def i word_le_nat_alt)
  moreover have "unat ?fj \<le> unat (?fi - ?gi)"
  proof -
    have "\<forall>k \<in> set vs. k < length ms" using j xs service_order_set [of ms] by auto
    then show ?thesis using free_after_le [of vs ms "?fi - ?gi"] ok by (simp add: xs free_after_append)
  qed
  moreover have "unat (?fi - ?gi) = unat ?fi - unat ?gi"
    using granted_le(2) [OF ok [OF ij(2)], of ?fi] by (simp add: unat_sub)
  moreover have "unat ?gj \<le> unat ?fj"
    using granted_le(2) [OF ok [OF ij(3)], of ?fj] by (simp add: word_le_nat_alt)
  ultimately show ?thesis
    using share [OF j] unat_share_ceiling [OF ok [OF ij(3)], of ?fj] by simp
qed

theorem pool_serves_by_priority_witness:
  "let ms = [\<lparr>priority = 100, charged_bytes = 4294967296, desired_bytes = 7516192768, block_bytes = 2097152\<rparr>,
             \<lparr>priority = 80, charged_bytes = 4294967296, desired_bytes = 4296015872, block_bytes = 1048576\<rparr>];
       as = [\<lparr>ceiling_bytes = 4294967296, unmet_bytes = 3221225472\<rparr>,
             \<lparr>ceiling_bytes = 4296015872, unmet_bytes = 0\<rparr>]
   in allocate_pool 8590983168 ms = Inr as
      \<and> unat (ceiling_bytes (as ! 1)) - unat (charged_bytes (ms ! 1)) < unat (block_bytes (ms ! 0))"
proof -
  let ?ms = "[\<lparr>priority = 100, charged_bytes = 4294967296, desired_bytes = 7516192768, block_bytes = 2097152\<rparr>,
     \<lparr>priority = 80, charged_bytes = 4294967296, desired_bytes = 4296015872, block_bytes = 1048576\<rparr>]
     :: pool_member list"
  let ?as = "[\<lparr>ceiling_bytes = 4294967296, unmet_bytes = 3221225472\<rparr>,
     \<lparr>ceiling_bytes = 4296015872, unmet_bytes = 0\<rparr>] :: pool_allocation list"
  have round: "allocate_pool 8590983168 ?ms = Inr ?as" by code_simp
  show ?thesis
    using round pool_serves_by_priority [OF round, of 0 1] by (simp add: served_before_def)
qed

text \<open>
  A round fails only for the two reasons the code names: an invalid block exactly when some block is
  not a power of two, otherwise an overflow exactly when the charges do not fit a \<open>u64\<close>.
\<close>

theorem pool_errors:
  "(allocate_pool pool ms = Inl InvalidBlock \<longleftrightarrow> list_ex (\<lambda>m. \<not> is_power_of_two (block_bytes m)) ms)
   \<and> (allocate_pool pool ms = Inl Overflow \<longleftrightarrow>
        list_all (\<lambda>m. is_power_of_two (block_bytes m)) ms \<and> 2 ^ 64 \<le> total_charge ms)"
  using charged_total_None [of 0 ms]
  by (cases "charged_total 0 ms") (auto simp: allocate_pool_def block_ok_iff list_ex_iff list_all_iff)

end
