(* ===== verification/Runtime_State.thy ===== *)
theory Runtime_State
  imports Guest_Channel Pool
begin

text \<open>
  The state of one VM's controller and the helpers of \<open>runtime.rs\<close> every step uses: clocks,
  operation identities, saving, latching, publishing, recording results and the bookkeeping of pending
  commands. Of a log line the model keeps the event name only.
\<close>

section \<open>State\<close>

datatype host_runtime_error =
    ControllerError rust_str
  | HostMemoryError rust_str
  | ResizeError rust_str
  | ConvergenceTimeoutError duration

datatype step = Wait | Stop host_runtime_error

record ready =
  rd_base_ram :: u64
  rd_state :: virtio_mem_state
  rd_request :: memory_request
  rd_admission :: request_admission

datatype observed = Held "(u64 \<times> u64) option" | Ready ready | Stopping host_runtime_error

record vm_controller =
  vc_config :: host_config
  vc_channel :: guest_channel
  vc_checkpoint :: checkpoint
  control :: durable_control_state
  pending_since :: "duration option"
  pending_progress :: "(u64 \<times> duration) option"
  extension :: "(rust_str \<times> u64 \<times> u64) option"
  widen_due :: bool
  widened :: bool
  operation_counter :: u64
  last_charge :: "(u64 \<times> u64) option"
  outstanding_growth :: "u64 option"
  vc_stopped :: bool
  unowned_divergence_reported :: bool
  state_unavailable_reported :: bool
  guest_unavailable_reported :: bool
  status_unpublished_reported :: bool
  health_report :: "(duration \<times> u64 \<times> u64) option"
  last_observed_request :: "request_identity option"

definition new_controller :: "guest_channel \<Rightarrow> host_config \<Rightarrow> checkpoint \<Rightarrow> durable_control_state \<Rightarrow> vm_controller" where
  "new_controller channel hc cp c =
     \<lparr>vc_config = hc, vc_channel = channel, vc_checkpoint = cp, control = c, pending_since = None,
      pending_progress = None, extension = None, widen_due = False, widened = False,
      operation_counter = 0, last_charge = None, outstanding_growth = None, vc_stopped = False,
      unowned_divergence_reported = False, state_unavailable_reported = False,
      guest_unavailable_reported = False, status_unpublished_reported = False, health_report = None,
      last_observed_request = None\<rparr>"

definition vm_sink :: "nat \<Rightarrow> vm_controller \<Rightarrow> resize_sink" where
  "vm_sink i v = \<lparr>sink_index = i, sink_vm_name = hc_vm_name (vc_config v), sink_alias = hc_alias (vc_config v)\<rparr>"

text \<open>What a step of a controller works on: its state, the host budget of the round, the history.\<close>

record ctx =
  vm :: vm_controller
  host_committed :: u64
  hist :: history

type_synonym 'a act = "(ctx, host_runtime_error, 'a) prog"

definition io :: "(history, 'e, 'a) prog \<Rightarrow> (ctx, 'e, 'a) prog" where
  "io m = (\<lambda>c. case m (hist c) of (r, h) \<Rightarrow> (r, c\<lparr>hist := h\<rparr>))"

definition gets :: "(vm_controller \<Rightarrow> 'a) \<Rightarrow> (ctx, 'e, 'a) prog" where
  "gets f = (\<lambda>c. (Inr (f (vm c)), c))"

definition modify :: "(vm_controller \<Rightarrow> vm_controller) \<Rightarrow> (ctx, 'e, unit) prog" where
  "modify f = (\<lambda>c. (Inr (), c\<lparr>vm := f (vm c)\<rparr>))"

lemma wp_io [wp_simps]: "wp (io m) Q E c = wp m (\<lambda>x h. Q x (c\<lparr>hist := h\<rparr>)) (\<lambda>e h. E e (c\<lparr>hist := h\<rparr>)) (hist c)"
  by (simp add: wp_def io_def split: prod.splits sum.splits)

lemma wp_gets [wp_simps]: "wp (gets f) Q E c = Q (f (vm c)) c"
  by (simp add: wp_def gets_def)

lemma wp_modify [wp_simps]: "wp (modify f) Q E c = Q () (c\<lparr>vm := f (vm c)\<rparr>)"
  by (simp add: wp_def modify_def)

lemma wp_gets_bind: "wp (bind (gets f) g) Q E c = wp (g (f (vm c))) Q E c"
  by (simp add: wp_simps)

lemma wp_modify_bind: "wp (bind (modify f) g) Q E c = wp (g ()) Q E (c\<lparr>vm := f (vm c)\<rparr>)"
  by (simp add: wp_simps)

section \<open>Helpers\<close>

definition log :: "nat \<Rightarrow> string \<Rightarrow> (ctx, 'e, unit) prog" where
  "log i event = io (tell i (Logged event))"

definition now :: "env \<Rightarrow> nat \<Rightarrow> u64 act" where
  "now w i = map_error ControllerError (io (now_unix_millis w i))"

definition future_tolerance_millis :: "u64 act" where
  "future_tolerance_millis =
     bind (gets (\<lambda>v. raw_telemetry_future_tolerance (vc_config v))) (\<lambda>d.
       if 0 \<le> d \<and> d < 2 ^ 64 then ret (word_of_int d)
       else raise (ControllerError (lit ''future tolerance is too large'')))"

definition next_operation_id :: "env \<Rightarrow> rust_str act" where
  "next_operation_id w =
     bind (modify (\<lambda>v. v\<lparr>operation_counter := saturating_add (operation_counter v) 1\<rparr>)) (\<lambda>_.
     gets (\<lambda>v. show_word (process_id w) @ lit ''-'' @ show_u64 (operation_counter v)))"

definition persist_control ::
    "env \<Rightarrow> nat \<Rightarrow> checkpoint \<Rightarrow> durable_control_state \<Rightarrow> (history, rust_str, unit) prog" where
  "persist_control w i cp c =
     (\<lambda>h. let r = fst (save_checkpoint (encode_checkpoint w) (world_disk w i h) cp c None)
          in (r, (i, Persist (checkpoint_contents cp c) r) # h))"

definition save :: "env \<Rightarrow> nat \<Rightarrow> unit act" where
  "save w i =
     bind (gets (\<lambda>v. v)) (\<lambda>v. map_error ControllerError (io (persist_control w i (vc_checkpoint v) (control v))))"

definition set_control :: "(durable_control_state \<Rightarrow> durable_control_state) \<Rightarrow> (ctx, 'e, unit) prog" where
  "set_control f = modify (\<lambda>v. v\<lparr>control := f (control v)\<rparr>)"

text \<open>\<open>self.control.journal.record_result\<close> and \<open>admit\<close>: an error leaves the journal as it was.\<close>

definition record_journal :: "memory_result \<Rightarrow> unit act" where
  "record_journal x =
     bind (gets (\<lambda>v. journal (control v))) (\<lambda>j.
     bind (lift_result (map_err ControllerError (record_result j x))) (\<lambda>j'.
       set_control (\<lambda>c. c\<lparr>journal := j'\<rparr>)))"

definition admit_journal :: "memory_request \<Rightarrow> u64 \<Rightarrow> unit act" where
  "admit_journal r t =
     bind future_tolerance_millis (\<lambda>tolerance.
     bind (gets (\<lambda>v. v)) (\<lambda>v.
     bind (lift_result (map_err ControllerError (admit (journal (control v)) r
         (hc_vm_name (vc_config v)) (raw_telemetry_service_name (vc_config v)) t tolerance))) (\<lambda>(_, j').
       set_control (\<lambda>c. c\<lparr>journal := j'\<rparr>))))"

definition latch :: "env \<Rightarrow> nat \<Rightarrow> rust_str \<Rightarrow> unit act" where
  "latch w i why0 =
     bind (gets control) (\<lambda>c.
       if latched c then ret ()
       else
         let why = bounded_reason why0 in
         bind (set_control (\<lambda>c. c\<lparr>latch_reason := Some why\<rparr>)) (\<lambda>_.
         bind (case (j_request (journal c), j_result (journal c)) of
                 (Some r, None) \<Rightarrow>
                   bind (now w i) (\<lambda>t.
                     record_journal \<lparr>request = r, outcome = Uncertain, actual_bytes = 0,
                                     result_observed_unix_millis = t, reason = Some why\<rparr>)
               | _ \<Rightarrow> ret ()) (\<lambda>_.
         bind (save w i) (\<lambda>_.
           log i ''actuation_latched''))))"

definition convergence_timeout_stop :: "env \<Rightarrow> nat \<Rightarrow> rust_str \<Rightarrow> host_runtime_error act" where
  "convergence_timeout_stop w i operation_name =
     bind (latch w i (lit ''owned '' @ operation_name @ lit '' exceeded the convergence deadline'')) (\<lambda>_.
       gets (\<lambda>v. ConvergenceTimeoutError (convergence_timeout (vc_config v))))"

definition host_status :: "vm_controller \<Rightarrow> u64 \<Rightarrow> virtio_mem_state \<Rightarrow> memory_result option \<Rightarrow> host_memory_status" where
  "host_status v t state refusal =
     \<lparr>st_version = MEMORY_REQUEST_VERSION, st_vm_name = hc_vm_name (vc_config v),
      st_service_name = raw_telemetry_service_name (vc_config v), st_device_alias = hc_alias (vc_config v),
      st_observed_unix_millis = t, st_device_size_bytes = size_bytes state,
      st_block_size_bytes = block_size_bytes state, st_requested_bytes = requested_bytes state,
      st_current_bytes = current_bytes state,
      st_result = (case refusal of Some x \<Rightarrow> Some x | None \<Rightarrow> j_result (journal (control v)))\<rparr>"

definition publish :: "env \<Rightarrow> nat \<Rightarrow> virtio_mem_state \<Rightarrow> memory_result option \<Rightarrow> unit act" where
  "publish w i state refusal =
     bind (gets (\<lambda>v. v)) (\<lambda>v.
     bind (io (attempt (bind (now_unix_millis w i) (\<lambda>t.
         publish_status w i (vc_channel v) (host_status v t state refusal))))) (\<lambda>published.
       case published of
         Inr channel \<Rightarrow> modify (\<lambda>v. v\<lparr>vc_channel := channel, status_unpublished_reported := False\<rparr>)
       | Inl _ \<Rightarrow>
           if status_unpublished_reported v then ret ()
           else bind (log i ''guest_status_unpublished'') (\<lambda>_.
                  modify (\<lambda>v. v\<lparr>status_unpublished_reported := True\<rparr>))))"

definition record_unexecuted ::
    "env \<Rightarrow> nat \<Rightarrow> virtio_mem_state \<Rightarrow> request_admission \<Rightarrow> memory_result \<Rightarrow> step act" where
  "record_unexecuted w i state admission result =
     bind (if admission = New then admit_journal (request result) (result_observed_unix_millis result)
           else ret ()) (\<lambda>_.
     bind (record_journal result) (\<lambda>_.
     bind (save w i) (\<lambda>_.
     bind (log i ''request_completed'') (\<lambda>_.
     bind (publish w i state None) (\<lambda>_.
       ret Wait)))))"

definition refuse ::
    "env \<Rightarrow> nat \<Rightarrow> virtio_mem_state \<Rightarrow> memory_request \<Rightarrow> request_admission \<Rightarrow> rust_str \<Rightarrow> step act" where
  "refuse w i state r admission why =
     bind (log i ''controller_decision'') (\<lambda>_.
     bind (now w i) (\<lambda>t.
       let result = rejected_result r t why in
       if admission = New then bind (publish w i state (Some result)) (\<lambda>_. ret Wait)
       else record_unexecuted w i state admission result))"

section \<open>Pending commands\<close>

definition command_stalled :: "env \<Rightarrow> nat \<Rightarrow> virtio_mem_state \<Rightarrow> bool act" where
  "command_stalled w i state =
     bind (gets (\<lambda>v. v)) (\<lambda>v.
       let bound = min (poll_interval (vc_config v)) (convergence_timeout (vc_config v));
           restart = bind (io (instant_now w i)) (\<lambda>t.
             bind (modify (\<lambda>v. v\<lparr>pending_progress := Some (current_bytes state, t)\<rparr>)) (\<lambda>_. ret False))
       in case pending_progress v of
            Some (current, since) \<Rightarrow>
              if current = current_bytes state
              then bind (io (elapsed w i since)) (\<lambda>age. ret (bound \<le> age))
              else restart
          | None \<Rightarrow> restart)"

definition pending_elapsed :: "env \<Rightarrow> nat \<Rightarrow> bool act" where
  "pending_elapsed w i =
     bind (gets (\<lambda>v. v)) (\<lambda>v.
       let timeout = convergence_timeout (vc_config v) in
       case intent (control v) of
         None \<Rightarrow> ret True
       | Some it \<Rightarrow>
           bind (io (attempt (now_unix_millis w i))) (\<lambda>clock.
             let durable_elapsed = (case clock of Inl _ \<Rightarrow> True
               | Inr t \<Rightarrow> t < started_unix_millis it \<or> timeout \<le> uint (t - started_unix_millis it)) in
             if durable_elapsed then ret True
             else
               bind (case pending_since v of
                       Some since \<Rightarrow> ret since
                     | None \<Rightarrow> bind (io (instant_now w i)) (\<lambda>t.
                         bind (modify (\<lambda>v. v\<lparr>pending_since := Some t\<rparr>)) (\<lambda>_. ret t))) (\<lambda>since.
               bind (io (elapsed w i since)) (\<lambda>age. ret (timeout \<le> age)))))"

definition log_pending_health :: "env \<Rightarrow> nat \<Rightarrow> virtio_mem_state \<Rightarrow> unit act" where
  "log_pending_health w i state =
     bind (gets (\<lambda>v. v)) (\<lambda>v.
     bind (case health_report v of
             Some (when, requested, current) \<Rightarrow>
               if requested = requested_bytes state \<and> current = current_bytes state
               then bind (io (elapsed w i when)) (\<lambda>age. ret (age < 30000))
               else ret False
           | None \<Rightarrow> ret False) (\<lambda>recent.
       if recent then ret ()
       else
         bind (io (instant_now w i)) (\<lambda>t.
         bind (modify (\<lambda>v. v\<lparr>health_report := Some (t, requested_bytes state, current_bytes state)\<rparr>)) (\<lambda>_.
         bind (io (attempt (now_unix_millis w i))) (\<lambda>clock.
           case clock of
             Inl _ \<Rightarrow> log i ''diagnostic_clock_failed''
           | Inr _ \<Rightarrow>
               bind (case pending_progress v of
                       None \<Rightarrow> ret 0
                     | Some (_, since) \<Rightarrow> io (elapsed w i since)) (\<lambda>_.
                 log i ''control_health''))))))"

end
