(* ===== verification/Runtime.thy ===== *)
theory Runtime
  imports Runtime_State
begin

text \<open>
  The host control loop: \<open>runtime.rs\<close>. One VM's steps come first (resolving a recorded command,
  following a pending one, observing, acting), then the round over all VMs and the loop.
\<close>

section \<open>Moving a pending command\<close>

fun show_direction :: "command_direction \<Rightarrow> rust_str" where
  "show_direction Grow = lit ''Grow''"
| "show_direction Shrink = lit ''Shrink''"
| "show_direction SettleShrink = lit ''SettleShrink''"
| "show_direction SettleGrow = lit ''SettleGrow''"

definition settle_intent ::
    "rust_str \<Rightarrow> u64 \<Rightarrow> command_direction \<Rightarrow> virtio_mem_state \<Rightarrow> command_intent option \<Rightarrow> command_intent" where
  "settle_intent op t dir state old =
     \<lparr>operation_id = op, started_unix_millis = t,
      direction = (if dir = Grow then SettleGrow else SettleShrink),
      prior_requested_bytes = requested_bytes state,
      prior_current_bytes = (case old of None \<Rightarrow> current_bytes state | Some it \<Rightarrow> prior_current_bytes it),
      target_bytes = current_bytes state\<rparr>"

definition settle_short :: "env \<Rightarrow> nat \<Rightarrow> command_direction \<Rightarrow> virtio_mem_state \<Rightarrow> step act" where
  "settle_short w i dir state =
     bind (io (stop_requested w i)) (\<lambda>stopped.
       if stopped then ret Wait
       else
         bind (next_operation_id w) (\<lambda>op.
         bind (now w i) (\<lambda>t.
         bind (set_control (\<lambda>c. c\<lparr>intent := Some (settle_intent op t dir state (intent c))\<rparr>)) (\<lambda>_.
         bind (save w i) (\<lambda>_.
         bind (modify (\<lambda>v. v\<lparr>pending_since := None\<rparr>)) (\<lambda>_.
         bind (gets (vm_sink i)) (\<lambda>sink.
         bind (io (attempt (retarget_pending_guarded w sink state (current_bytes state)))) (\<lambda>command.
         bind (log i ''resize_settled_short'') (\<lambda>_.
           case command of
             Inr _ \<Rightarrow> ret Wait
           | Inl e \<Rightarrow>
               bind (latch w i (lit ''settling a short '' @ show_direction dir @ lit '' failed: ''
                   @ display_resize_sink_error e)) (\<lambda>_. ret Wait))))))))))"

definition MAX_EXTENSION_BYTES :: u64 where
  "MAX_EXTENSION_BYTES = 256 * 1024 * 1024"

definition shrink_floor :: "host_config \<Rightarrow> u64 \<Rightarrow> u64 \<Rightarrow> u64" where
  "shrink_floor hc base_ram block =
     saturating_mul (div_ceil (saturating_sub (hc_min_ram hc) base_ram) block) block"

definition asked_removal :: "memory_request_journal \<Rightarrow> u64" where
  "asked_removal j =
     (case j_request j of None \<Rightarrow> 0 | Some r \<Rightarrow> if operation r = Remove then req_bytes r else 0)"

definition shrink_goal :: "u64 \<Rightarrow> u64 \<Rightarrow> u64 \<Rightarrow> u64 \<Rightarrow> u64" where
  "shrink_goal prior_current asked block floor = max (saturating_sub prior_current (asked - asked mod block)) floor"

definition extension_step ::
    "(rust_str \<times> u64 \<times> u64) option \<Rightarrow> rust_str \<Rightarrow> u64 \<Rightarrow> u64 \<Rightarrow> u64" where
  "extension_step previous op current block =
     (case previous of
        Some (previous_op, from, step) \<Rightarrow>
          if previous_op = op \<and> step * block \<le> saturating_sub from current
          then min (step * 2) (max (MAX_EXTENSION_BYTES div block) 1)
          else 1
      | None \<Rightarrow> 1)"

definition extension_bytes ::
    "(rust_str \<times> u64 \<times> u64) option \<Rightarrow> rust_str \<Rightarrow> virtio_mem_state \<Rightarrow> u64 \<Rightarrow> u64" where
  "extension_bytes previous op state goal =
     (let block = block_size_bytes state;
          step = extension_step previous op (current_bytes state) block
      in min (step * block) (div_ceil (current_bytes state - goal) block * block))"

definition extension_target :: "virtio_mem_state \<Rightarrow> u64 \<Rightarrow> u64 \<Rightarrow> u64 option" where
  "extension_target state step_bytes floor =
     (case checked_sub (requested_bytes state) step_bytes of
        None \<Rightarrow> None
      | Some t \<Rightarrow> if max t floor < requested_bytes state then Some (max t floor) else None)"

definition send_extension ::
    "env \<Rightarrow> nat \<Rightarrow> virtio_mem_state \<Rightarrow> rust_str \<Rightarrow> u64 \<Rightarrow> u64 \<Rightarrow> step act" where
  "send_extension w i state op step_bytes tgt =
     bind (set_control (\<lambda>c. c\<lparr>intent := map_option (\<lambda>it. it\<lparr>target_bytes := tgt\<rparr>) (intent c)\<rparr>)) (\<lambda>_.
     bind (save w i) (\<lambda>_.
     bind (modify (\<lambda>v. v\<lparr>pending_progress := None,
         extension := Some (op, current_bytes state, step_bytes div block_size_bytes state)\<rparr>)) (\<lambda>_.
     bind (gets (vm_sink i)) (\<lambda>sink.
     bind (io (attempt (retarget_pending_guarded w sink state tgt))) (\<lambda>command.
     bind (log i ''shrink_extended'') (\<lambda>_.
       case command of
         Inr _ \<Rightarrow> ret Wait
       | Inl (SinkRejected _) \<Rightarrow>
           bind (set_control (\<lambda>c. c\<lparr>intent :=
               map_option (\<lambda>it. it\<lparr>target_bytes := requested_bytes state\<rparr>) (intent c)\<rparr>)) (\<lambda>_.
           bind (save w i) (\<lambda>_. ret Wait))
       | Inl (CommandUnknown m) \<Rightarrow>
           bind (latch w i (lit ''extending a shrink failed: ''
               @ display_resize_sink_error (CommandUnknown m))) (\<lambda>_. ret Wait)))))))"

definition stall_at_floor :: "env \<Rightarrow> nat \<Rightarrow> virtio_mem_state \<Rightarrow> step act" where
  "stall_at_floor w i state =
     bind (gets (\<lambda>v. v)) (\<lambda>v.
     bind (case pending_progress v of
             None \<Rightarrow> ret False
           | Some (_, since) \<Rightarrow>
               bind (io (elapsed w i since)) (\<lambda>age. ret (convergence_timeout (vc_config v) \<le> age))) (\<lambda>stuck.
       if stuck then bind (log i ''held_shrink_released'') (\<lambda>_. settle_short w i Shrink state)
       else bind (log_pending_health w i state) (\<lambda>_. ret Wait)))"

definition extend_shrink :: "env \<Rightarrow> nat \<Rightarrow> virtio_mem_state \<Rightarrow> u64 \<Rightarrow> step act" where
  "extend_shrink w i state base_ram =
     bind (gets (\<lambda>v. v)) (\<lambda>v.
       case intent (control v) of
         None \<Rightarrow> ret Wait
       | Some it \<Rightarrow>
           let block = block_size_bytes state;
               floor = shrink_floor (vc_config v) base_ram block;
               goal = shrink_goal (prior_current_bytes it) (asked_removal (journal (control v))) block floor
           in if current_bytes state \<le> goal then
                bind (log i ''shrink_extension_done'') (\<lambda>_. settle_short w i Shrink state)
              else
                bind (modify (\<lambda>v. v\<lparr>extension := None\<rparr>)) (\<lambda>_.
                  let step_bytes = extension_bytes (extension v) (operation_id it) state goal
                  in case extension_target state step_bytes floor of
                       None \<Rightarrow> stall_at_floor w i state
                     | Some tgt \<Rightarrow>
                         bind (io (stop_requested w i)) (\<lambda>stopped.
                           if stopped then ret Wait
                           else send_extension w i state (operation_id it) step_bytes tgt)))"

definition widen_usable_region :: "env \<Rightarrow> nat \<Rightarrow> virtio_mem_state \<Rightarrow> step act" where
  "widen_usable_region w i state =
     bind (modify (\<lambda>v. v\<lparr>widen_due := False\<rparr>)) (\<lambda>_.
     bind (gets (\<lambda>v. v)) (\<lambda>v.
       if latched (control v) \<or> hc_observe_only (vc_config v) then ret Wait
       else
         bind (io (stop_requested w i)) (\<lambda>stopped.
           if stopped then ret Wait
           else
             bind (modify (\<lambda>v. v\<lparr>widened := True\<rparr>)) (\<lambda>_.
             bind (io (instant_now w i)) (\<lambda>started.
             bind (io (attempt (widen_usable_region_guarded w (vm_sink i v) state))) (\<lambda>command.
             bind (io (elapsed w i started)) (\<lambda>_.
             bind (log i ''usable_region_widened'') (\<lambda>_.
               case command of
                 Inl (CommandUnknown m) \<Rightarrow>
                   bind (latch w i (lit ''widening the usable region failed: ''
                       @ display_resize_sink_error (CommandUnknown m))) (\<lambda>_.
                     ret (Stop (ResizeError (display_resize_sink_error (CommandUnknown m)))))
               | _ \<Rightarrow> ret Wait))))))))"

section \<open>Resolving and following recorded commands\<close>

fun short_reason :: "command_direction \<Rightarrow> rust_str option" where
  "short_reason SettleShrink = Some (lit ''the guest returned only part of the removal'')"
| "short_reason SettleGrow = Some (lit ''the guest plugged only part of the addition'')"
| "short_reason _ = None"

definition resolve_intent :: "env \<Rightarrow> nat \<Rightarrow> virtio_mem_state \<Rightarrow> unit act" where
  "resolve_intent w i live =
     bind (gets (\<lambda>v. v)) (\<lambda>v.
       case command_ownership (intent (control v)) live of
         OwnedConvergedUnresolved \<Rightarrow>
           (case intent (control v) of
              None \<Rightarrow> ret ()
            | Some it \<Rightarrow>
                bind (set_control (\<lambda>c. c\<lparr>intent := None\<rparr>)) (\<lambda>_.
                bind (now w i) (\<lambda>t.
                bind (case movement_result (journal (control v)) it live t (short_reason (direction it)) of
                        None \<Rightarrow> ret ()
                      | Some result \<Rightarrow>
                          bind (modify (\<lambda>v. v\<lparr>widen_due := widen_due v
                              \<or> direction it = SettleGrow \<and> actual_bytes result = 0 \<and> \<not> widened v\<rparr>)) (\<lambda>_.
                          bind (log i ''request_completed'') (\<lambda>_.
                            record_journal result))) (\<lambda>_.
                  save w i))))
       | RecordedNotApplied \<Rightarrow> latch w i (lit ''recorded command was not applied'')
       | OwnershipConflict \<Rightarrow> latch w i (lit ''recorded command result is unknown'')
       | _ \<Rightarrow> ret ())"

definition owned_direction :: "vm_controller \<Rightarrow> virtio_mem_state \<Rightarrow> command_direction option" where
  "owned_direction v state =
     (case intent (control v) of
        None \<Rightarrow> None
      | Some it \<Rightarrow> if target_bytes it = requested_bytes state then Some (direction it) else None)"

text \<open>The end of \<open>observe_pending\<close>: report health, settle, or stop.\<close>

definition finish_pending :: "env \<Rightarrow> nat \<Rightarrow> virtio_mem_state \<Rightarrow> command_direction \<Rightarrow> bool \<Rightarrow> step act" where
  "finish_pending w i state dir settle =
     (if \<not> settle then bind (log_pending_health w i state) (\<lambda>_. ret Wait)
      else case dir of
        SettleGrow \<Rightarrow> bind (convergence_timeout_stop w i (lit ''growth'')) (\<lambda>e. ret (Stop e))
      | SettleShrink \<Rightarrow> bind (convergence_timeout_stop w i (lit ''shrink'')) (\<lambda>e. ret (Stop e))
      | _ \<Rightarrow> settle_short w i dir state)"

definition pending_shrink :: "env \<Rightarrow> nat \<Rightarrow> virtio_mem_state \<Rightarrow> step act" where
  "pending_shrink w i state =
     bind (gets vc_channel) (\<lambda>channel.
     bind (io (attempt (guest_read w i channel))) (\<lambda>guest.
       if (case guest of Inl _ \<Rightarrow> False | Inr v \<Rightarrow> env_native_pressure v = Some Low) then
         bind (log i ''held_shrink_released'') (\<lambda>_. finish_pending w i state Shrink True)
       else
         case (case guest of Inl _ \<Rightarrow> None
               | Inr v \<Rightarrow> checked_sub (physical_total_bytes (env_memory v)) (current_bytes state)) of
           None \<Rightarrow> finish_pending w i state Shrink False
         | Some base_ram \<Rightarrow>
             bind (command_stalled w i state) (\<lambda>stalled.
               if stalled then extend_shrink w i state base_ram
               else finish_pending w i state Shrink False)))"

definition pending_grow :: "env \<Rightarrow> nat \<Rightarrow> virtio_mem_state \<Rightarrow> step act" where
  "pending_grow w i state =
     bind (gets (\<lambda>v. v)) (\<lambda>v.
       if \<not> widened v
          \<and> (case intent (control v) of None \<Rightarrow> False | Some it \<Rightarrow> prior_current_bytes it = current_bytes state)
       then bind (command_stalled w i state) (finish_pending w i state Grow)
       else finish_pending w i state Grow False)"

definition observe_pending :: "env \<Rightarrow> nat \<Rightarrow> virtio_mem_state \<Rightarrow> step act" where
  "observe_pending w i state =
     bind (gets (\<lambda>v. v)) (\<lambda>v.
       case owned_direction v state of
         None \<Rightarrow>
           if unowned_divergence_reported v then ret Wait
           else bind (log i ''ownership_conflict'') (\<lambda>_.
                bind (modify (\<lambda>v. v\<lparr>unowned_divergence_reported := True\<rparr>)) (\<lambda>_. ret Wait))
       | Some dir \<Rightarrow>
           let can_settle = (\<not> latched (control v) \<and> \<not> hc_observe_only (vc_config v)) in
           case dir of
             Grow \<Rightarrow> if can_settle then pending_grow w i state else finish_pending w i state Grow False
           | Shrink \<Rightarrow> if can_settle then pending_shrink w i state else finish_pending w i state Shrink False
           | _ \<Rightarrow> bind (pending_elapsed w i) (finish_pending w i state dir))"

section \<open>Observing\<close>

definition live_state :: "env \<Rightarrow> nat \<Rightarrow> (ctx, rust_str, virtio_mem_state) prog" where
  "live_state w i =
     bind (gets vc_config) (\<lambda>hc.
     bind (io (memory_state w i (hc_vm_name hc) (hc_alias hc))) (\<lambda>state.
     bind (lift_result (map_err display_virtio_mem_error (validate_device state))) (\<lambda>_.
       ret state)))"

definition intent_target :: "durable_control_state \<Rightarrow> u64" where
  "intent_target c = (case intent c of None \<Rightarrow> 0 | Some it \<Rightarrow> target_bytes it)"

definition charge_state :: "virtio_mem_state \<Rightarrow> vm_controller \<Rightarrow> vm_controller" where
  "charge_state state v =
     v\<lparr>outstanding_growth :=
         Some (saturating_sub (max (requested_bytes state) (intent_target (control v))) (current_bytes state)),
       last_charge := Some (max (max (requested_bytes state) (current_bytes state)) (intent_target (control v)),
                            block_size_bytes state)\<rparr>"

definition observe_stopped :: "env \<Rightarrow> nat \<Rightarrow> observed act" where
  "observe_stopped w i =
     bind (attempt (live_state w i)) (\<lambda>live.
     bind (case live of Inl _ \<Rightarrow> ret () | Inr state \<Rightarrow> modify (charge_state state)) (\<lambda>_.
       gets (\<lambda>v. Held (last_charge v))))"

definition stop_vm :: "nat \<Rightarrow> unit act" where
  "stop_vm i = bind (modify (\<lambda>v. v\<lparr>vc_stopped := True\<rparr>)) (\<lambda>_. log i ''vm_stopped'')"

text \<open>The guest's request and the RAM it sees beside the device; \<open>Inl\<close> ends the observation.\<close>

definition read_request ::
    "env \<Rightarrow> nat \<Rightarrow> virtio_mem_state \<Rightarrow> (unit + memory_request option \<times> u64) act" where
  "read_request w i state =
     bind (gets (\<lambda>v. v)) (\<lambda>v.
     bind (io (attempt (guest_read w i (vc_channel v)))) (\<lambda>guest.
       case guest of
         Inr envelope \<Rightarrow>
           bind (modify (\<lambda>v. v\<lparr>guest_unavailable_reported := False\<rparr>)) (\<lambda>_.
           bind (case hc_telemetry_path (vc_config v) of
                   None \<Rightarrow> ret ()
                 | Some _ \<Rightarrow>
                     bind (io (attempt (ask i (WriteTelemetry envelope) (world_write_telemetry w i envelope)))) (\<lambda>r.
                       if is_ok r then ret () else log i ''optional_telemetry_failed'')) (\<lambda>_.
             case checked_sub (physical_total_bytes (env_memory envelope)) (current_bytes state) of
               None \<Rightarrow> ret (Inl ())
             | Some base \<Rightarrow> ret (Inr (env_request envelope, base))))
       | Inl _ \<Rightarrow>
           if guest_unavailable_reported v then ret (Inr (None, 0))
           else bind (log i ''guest_input_invalid'') (\<lambda>_.
                bind (modify (\<lambda>v. v\<lparr>guest_unavailable_reported := True\<rparr>)) (\<lambda>_. ret (Inr (None, 0))))))"

definition note_request :: "nat \<Rightarrow> memory_request \<Rightarrow> unit act" where
  "note_request i r =
     bind (gets last_observed_request) (\<lambda>last_seen.
       if last_seen = Some (identity r) then ret ()
       else bind (log i ''guest_request_observed'') (\<lambda>_.
              modify (\<lambda>v. v\<lparr>last_observed_request := Some (identity r)\<rparr>)))"

definition consider_request ::
    "env \<Rightarrow> nat \<Rightarrow> virtio_mem_state \<Rightarrow> observed \<Rightarrow> memory_request \<Rightarrow> u64 \<Rightarrow> observed act" where
  "consider_request w i state held r base_ram =
     bind (note_request i r) (\<lambda>_.
     bind (now w i) (\<lambda>t.
     bind future_tolerance_millis (\<lambda>tolerance.
     bind (gets (\<lambda>v. v)) (\<lambda>v.
       let refuse_with = (\<lambda>why.
             bind (log i ''controller_decision'') (\<lambda>_.
             bind (publish w i state (Some (rejected_result r t why))) (\<lambda>_. ret held)))
       in case admit (journal (control v)) r (hc_vm_name (vc_config v))
                (raw_telemetry_service_name (vc_config v)) t tolerance of
            Inl why \<Rightarrow> refuse_with why
          | Inr (admission, _) \<Rightarrow>
              if admission = Replay \<and> j_result (journal (control v)) \<noteq> None then
                bind (publish w i state None) (\<lambda>_. ret held)
              else if admission = New \<and> latched (control v) then
                refuse_with (lit ''automatic actuation is latched: ''
                  @ (case latch_reason (control v) of None \<Rightarrow> [] | Some why \<Rightarrow> why))
              else ret (Ready \<lparr>rd_base_ram = base_ram, rd_state = state, rd_request = r, rd_admission = admission\<rparr>)))))"

definition observe_converged :: "env \<Rightarrow> nat \<Rightarrow> virtio_mem_state \<Rightarrow> observed \<Rightarrow> observed act" where
  "observe_converged w i state held =
     bind (modify (\<lambda>v. v\<lparr>pending_since := None, pending_progress := None, unowned_divergence_reported := False,
                          widened := (if current_bytes state = 0 then False else widened v)\<rparr>)) (\<lambda>_.
     bind (gets widen_due) (\<lambda>due.
     bind (if due then widen_usable_region w i state else ret Wait) (\<lambda>step.
       case step of
         Stop e \<Rightarrow> ret (Stopping e)
       | Wait \<Rightarrow>
           bind (read_request w i state) (\<lambda>input.
             case input of
               Inr (Some r, base_ram) \<Rightarrow> consider_request w i state held r base_ram
             | _ \<Rightarrow> bind (publish w i state None) (\<lambda>_. ret held)))))"

definition observe_unreadable :: "env \<Rightarrow> nat \<Rightarrow> rust_str \<Rightarrow> observed act" where
  "observe_unreadable w i e =
     bind (gets (\<lambda>v. v)) (\<lambda>v.
     bind (if intent (control v) \<noteq> None
           then latch w i (lit ''live state unavailable during an owned operation: '' @ e)
           else if state_unavailable_reported v then ret ()
           else bind (log i ''live_state_unavailable'') (\<lambda>_.
                  modify (\<lambda>v. v\<lparr>state_unavailable_reported := True\<rparr>))) (\<lambda>_.
       gets (\<lambda>v. Held (last_charge v))))"

definition observe :: "env \<Rightarrow> nat \<Rightarrow> observed act" where
  "observe w i =
     bind (attempt (live_state w i)) (\<lambda>live.
       case live of
         Inl e \<Rightarrow> observe_unreadable w i e
       | Inr state \<Rightarrow>
           bind (modify (\<lambda>v. (charge_state state v)\<lparr>state_unavailable_reported := False\<rparr>)) (\<lambda>_.
           bind (gets (\<lambda>v. Held (last_charge v))) (\<lambda>held.
           bind (resolve_intent w i state) (\<lambda>_.
             if requested_bytes state \<noteq> current_bytes state then
               bind (observe_pending w i state) (\<lambda>step.
               bind (publish w i state None) (\<lambda>_.
                 ret (case step of Wait \<Rightarrow> held | Stop e \<Rightarrow> Stopping e)))
             else observe_converged w i state held))))"

section \<open>Acting\<close>

definition free_bytes :: "u64 list \<Rightarrow> u64" where
  "free_bytes caps = (case caps of [] \<Rightarrow> 0 | c # cs \<Rightarrow> fold min cs c)"

definition grow_caps :: "host_config \<Rightarrow> ready \<Rightarrow> u64 option \<Rightarrow> u64 \<Rightarrow> u64 \<Rightarrow> u64 list" where
  "grow_caps hc rd ceiling available committed =
     (let current = current_bytes (rd_state rd) in
      [req_bytes (rd_request rd),
       saturating_sub (saturating_sub (hc_max_ram hc) (rd_base_ram rd)) current,
       saturating_sub (device_maximum_target (rd_state rd)) current,
       (case ceiling of None \<Rightarrow> - 1 | Some c \<Rightarrow> saturating_sub c current),
       saturating_sub (saturating_sub (saturating_sub available committed) (hc_host_min_headroom_bytes hc))
         GROW_ADMISSION_MARGIN_BYTES])"

definition grant_bytes :: "env \<Rightarrow> nat \<Rightarrow> ready \<Rightarrow> u64 option \<Rightarrow> u64 act" where
  "grant_bytes w i rd ceiling =
     bind (gets vc_config) (\<lambda>hc.
       let block = block_size_bytes (rd_state rd) in
       case operation (rd_request rd) of
         Add \<Rightarrow>
           bind (map_error HostMemoryError (io (host_available w i))) (\<lambda>available.
           bind (\<lambda>c. (Inr (host_committed c), c)) (\<lambda>committed.
             let free = free_bytes (grow_caps hc rd ceiling available committed) in
             bind (log i ''grant_limits'') (\<lambda>_. ret (free - free mod block))))
       | Remove \<Rightarrow>
           let minimum = saturating_sub (hc_min_ram hc) (rd_base_ram rd);
               removable = saturating_sub (current_bytes (rd_state rd)) minimum;
               grant = min (req_bytes (rd_request rd)) removable in
           bind (log i ''grant_limits'') (\<lambda>_. ret (grant - grant mod block)))"

definition grow_authorization ::
    "env \<Rightarrow> nat \<Rightarrow> u64 \<Rightarrow> u64 \<Rightarrow> u64 \<Rightarrow> u64 \<Rightarrow> (history, rust_str, unit) prog" where
  "grow_authorization w i previously_committed headroom current tgt =
     bind (host_available w i) (\<lambda>available.
       lift_result (validate_grow_headroom current tgt (saturating_sub available previously_committed) headroom))"

definition resize_outcome ::
    "env \<Rightarrow> nat \<Rightarrow> ready \<Rightarrow> u64 \<Rightarrow> command_direction \<Rightarrow> resize_sink_error + unit \<Rightarrow> step act" where
  "resize_outcome w i rd t dir command =
     (case command of
        Inr _ \<Rightarrow>
          bind (io (instant_now w i)) (\<lambda>since.
          bind (modify (\<lambda>v. v\<lparr>pending_since := Some since\<rparr>)) (\<lambda>_.
          bind (publish w i (rd_state rd) None) (\<lambda>_. ret Wait)))
      | Inl (SinkRejected why) \<Rightarrow>
          bind (modify (\<lambda>v. v\<lparr>control := (control v)\<lparr>intent := None\<rparr>, outstanding_growth := Some 0\<rparr>)) (\<lambda>_.
            record_unexecuted w i (rd_state rd) Replay (rejected_result (rd_request rd) t why))
      | Inl (CommandUnknown m) \<Rightarrow>
          bind (latch w i (lit ''resize command failed: '' @ display_resize_sink_error (CommandUnknown m))) (\<lambda>_.
          bind (publish w i (rd_state rd) None) (\<lambda>_.
            ret (if dir = Grow then Stop (ResizeError (display_resize_sink_error (CommandUnknown m))) else Wait))))"

definition command_for :: "ready \<Rightarrow> u64 \<Rightarrow> command_direction \<times> u64" where
  "command_for rd grant =
     (case operation (rd_request rd) of
        Add \<Rightarrow> (Grow, current_bytes (rd_state rd) + grant)
      | Remove \<Rightarrow> (Shrink, current_bytes (rd_state rd) - grant))"

definition execute :: "env \<Rightarrow> nat \<Rightarrow> ready \<Rightarrow> u64 \<Rightarrow> duration \<Rightarrow> u64 \<Rightarrow> step act" where
  "execute w i rd t started grant =
     (let state = rd_state rd; (dir, tgt) = command_for rd grant in
      bind (io (stop_requested w i)) (\<lambda>stopped.
        if stopped then ret Wait
        else
          bind (next_operation_id w) (\<lambda>op.
          bind (if rd_admission rd = New then admit_journal (rd_request rd) t else ret ()) (\<lambda>_.
          bind (set_control (\<lambda>c. c\<lparr>intent := Some
              \<lparr>operation_id = op, started_unix_millis = t, direction = dir,
               prior_requested_bytes = requested_bytes state, prior_current_bytes = current_bytes state,
               target_bytes = tgt\<rparr>\<rparr>)) (\<lambda>_.
          bind (save w i) (\<lambda>_.
          bind (\<lambda>c. (Inr (host_committed c), c)) (\<lambda>previously_committed.
            let growth = saturating_sub tgt (current_bytes state) in
            bind (\<lambda>c. (Inr (), c\<lparr>host_committed := saturating_add (host_committed c) growth\<rparr>)) (\<lambda>_.
            bind (modify (\<lambda>v. v\<lparr>outstanding_growth := Some growth\<rparr>)) (\<lambda>_.
            bind (gets (\<lambda>v. v)) (\<lambda>v.
            bind (io (elapsed w i started)) (\<lambda>_.
            bind (io (instant_now w i)) (\<lambda>command_started.
            bind (io (attempt (request_resize_guarded w (vm_sink i v) state tgt
                (grow_authorization w i previously_committed (hc_host_min_headroom_bytes (vc_config v))
                   (current_bytes state) tgt)))) (\<lambda>command.
            bind (io (elapsed w i command_started)) (\<lambda>_.
            bind (log i ''resize_requested'') (\<lambda>_.
              resize_outcome w i rd t dir command)))))))))))))))"

definition unexecuted_result :: "memory_request \<Rightarrow> u64 \<Rightarrow> memory_result" where
  "unexecuted_result r t =
     (case operation r of
        Add \<Rightarrow> \<lparr>request = r, outcome = PoolEmpty, actual_bytes = 0, result_observed_unix_millis = t,
                 reason = Some (lit ''no free pool, device or host-reserve bytes remain'')\<rparr>
      | Remove \<Rightarrow> rejected_result r t (lit ''the device has no plugged memory to remove''))"

definition act :: "env \<Rightarrow> nat \<Rightarrow> ready \<Rightarrow> u64 option \<Rightarrow> step act" where
  "act w i rd ceiling =
     bind (now w i) (\<lambda>t.
     bind (io (instant_now w i)) (\<lambda>started.
     bind future_tolerance_millis (\<lambda>tolerance.
     bind (gets vc_config) (\<lambda>hc.
       case validate_at (rd_request rd) (hc_vm_name hc) (raw_telemetry_service_name hc) t tolerance of
         Inl why \<Rightarrow> refuse w i (rd_state rd) (rd_request rd) (rd_admission rd) why
       | Inr _ \<Rightarrow>
           if \<not> is_multiple_of (req_bytes (rd_request rd)) (block_size_bytes (rd_state rd)) then
             refuse w i (rd_state rd) (rd_request rd) (rd_admission rd)
               (lit ''request is not a multiple of the device block size'')
           else
             bind (grant_bytes w i rd ceiling) (\<lambda>grant.
             bind (log i ''controller_decision'') (\<lambda>_.
               if hc_observe_only hc then
                 refuse w i (rd_state rd) (rd_request rd) (rd_admission rd)
                   (lit ''observe_only: would grant '' @ show_u64 grant @ lit '' bytes'')
               else if grant = 0 then
                 record_unexecuted w i (rd_state rd) (rd_admission rd) (unexecuted_result (rd_request rd) t)
               else execute w i rd t started grant))))))"

end
