(* ===== verification/Host_Loop.thy ===== *)
theory Host_Loop
  imports Runtime
begin

text \<open>
  The round over all VMs and the loop of the daemon: \<open>HostRuntime\<close> of \<open>runtime.rs\<close>. Every VM is
  observed, the pool is allocated, then ready requests are executed, highest priority first. The loop
  runs until shutdown is requested or every VM has stopped; its model takes the number of rounds it may
  run, so a theorem about it for every number holds at every moment of a run of any length.
\<close>

record host_runtime =
  rt_vms :: "vm_controller list"
  rt_pool_bytes :: "u64 option"
  rt_committed :: u64
  rt_hist :: history

type_synonym 'a rt = "(host_runtime, host_runtime_error, 'a) prog"

definition rt_io :: "(history, 'e, 'a) prog \<Rightarrow> (host_runtime, 'e, 'a) prog" where
  "rt_io m = (\<lambda>s. case m (rt_hist s) of (r, h) \<Rightarrow> (r, s\<lparr>rt_hist := h\<rparr>))"

text \<open>A step of one VM, which also sees the round's host budget.\<close>

definition with_vm :: "nat \<Rightarrow> 'a act \<Rightarrow> 'a rt" where
  "with_vm i m = (\<lambda>s.
     case m \<lparr>vm = rt_vms s ! i, host_committed = rt_committed s, hist = rt_hist s\<rparr> of
       (r, c) \<Rightarrow> (r, s\<lparr>rt_vms := (rt_vms s)[i := vm c], rt_committed := host_committed c, rt_hist := hist c\<rparr>))"

definition new_runtime :: "vm_controller list \<Rightarrow> u64 option \<Rightarrow> host_runtime_error + host_runtime" where
  "new_runtime vms pool =
     (if vms = [] then Inl (ControllerError (lit ''no VMs to control''))
      else Inr \<lparr>rt_vms = vms, rt_pool_bytes = pool, rt_committed = 0, rt_hist = []\<rparr>)"

section \<open>The pool's view of a VM\<close>

definition wanted_growth :: "host_config \<Rightarrow> ready \<Rightarrow> u64" where
  "wanted_growth hc rd =
     (case operation (rd_request rd) of
        Add \<Rightarrow> min (req_bytes (rd_request rd))
                   (saturating_sub (saturating_sub (hc_max_ram hc) (rd_base_ram rd)) (current_bytes (rd_state rd)))
      | Remove \<Rightarrow> 0)"

definition pool_charge :: "host_config \<Rightarrow> observed \<Rightarrow> u64 \<Rightarrow> u64 \<times> u64 \<times> u64" where
  "pool_charge hc seen pool =
     (case seen of
        Held charge \<Rightarrow> (case charge of None \<Rightarrow> (pool, MIN_BLOCK_SIZE_BYTES, 0) | Some (charged, block) \<Rightarrow> (charged, block, 0))
      | Stopping _ \<Rightarrow> (pool, MIN_BLOCK_SIZE_BYTES, 0)
      | Ready rd \<Rightarrow> (current_bytes (rd_state rd), block_size_bytes (rd_state rd), wanted_growth hc rd))"

definition member_of :: "host_config \<Rightarrow> observed \<Rightarrow> u64 \<Rightarrow> pool_member" where
  "member_of hc seen pool =
     (case pool_charge hc seen pool of (charged, block, wanted) \<Rightarrow>
        pool_member.make (hc_priority hc) charged (saturating_add charged wanted) block)"

fun display_pool_error :: "pool_error \<Rightarrow> rust_str" where
  "display_pool_error InvalidBlock = lit ''pool member block size must be a non-zero power of two''"
| "display_pool_error Pool.Overflow = lit ''pool accounting overflowed''"

definition allocate :: "vm_controller list \<Rightarrow> u64 option \<Rightarrow> observed list \<Rightarrow> host_runtime_error + u64 list option" where
  "allocate vms pool seen =
     (case pool of
        None \<Rightarrow> Inr None
      | Some bytes \<Rightarrow>
          and_then (map_err (\<lambda>e. ControllerError (display_pool_error e))
              (allocate_pool bytes (map (\<lambda>(v, o'). member_of (vc_config v) o' bytes) (zip vms seen)))) (\<lambda>shares.
            Inr (Some (map ceiling_bytes shares))))"

section \<open>One round\<close>

definition observe_vm :: "env \<Rightarrow> nat \<Rightarrow> (observed \<times> host_runtime_error option) act" where
  "observe_vm w i =
     bind (gets vc_stopped) (\<lambda>stopped.
       if stopped then bind (observe_stopped w i) (\<lambda>seen. ret (seen, None))
       else
         bind (observe w i) (\<lambda>seen.
           case seen of
             Stopping e \<Rightarrow>
               bind (stop_vm i) (\<lambda>_. bind (observe_stopped w i) (\<lambda>held. ret (held, Some e)))
           | _ \<Rightarrow> ret (seen, None)))"

text \<open>\<open>None\<close> when shutdown was requested during the observations.\<close>

fun observe_all :: "env \<Rightarrow> nat list \<Rightarrow> (observed list \<times> host_runtime_error option) option rt" where
  "observe_all w [] = ret (Some ([], None))"
| "observe_all w (i # is) =
     bind (rt_io (stop_requested w i)) (\<lambda>stopped.
       if stopped then ret None
       else
         bind (with_vm i (observe_vm w i)) (\<lambda>(seen, failed).
         bind (observe_all w is) (\<lambda>rest.
           case rest of
             None \<Rightarrow> ret None
           | Some (all_seen, later) \<Rightarrow>
               ret (Some (seen # all_seen, case later of None \<Rightarrow> failed | Some e \<Rightarrow> Some e)))))"

definition act_order :: "vm_controller list \<Rightarrow> nat list" where
  "act_order vms = sort_key (\<lambda>i. - uint (hc_priority (vc_config (vms ! i)))) [0..<length vms]"

definition outstanding_total :: "vm_controller list \<Rightarrow> u64" where
  "outstanding_total vms =
     fold (\<lambda>v total. saturating_add total (case outstanding_growth v of None \<Rightarrow> - 1 | Some g \<Rightarrow> g)) vms 0"

definition act_vm :: "env \<Rightarrow> nat \<Rightarrow> ready \<Rightarrow> u64 option \<Rightarrow> host_runtime_error option act" where
  "act_vm w i rd ceiling =
     bind (act w i rd ceiling) (\<lambda>step.
       case step of
         Wait \<Rightarrow> ret None
       | Stop e \<Rightarrow> bind (stop_vm i) (\<lambda>_. ret (Some e)))"

fun act_all ::
    "env \<Rightarrow> observed list \<Rightarrow> u64 list option \<Rightarrow> nat list \<Rightarrow> host_runtime_error option \<Rightarrow>
     host_runtime_error option rt" where
  "act_all w seen ceilings [] failed = ret failed"
| "act_all w seen ceilings (i # is) failed =
     bind (rt_io (stop_requested w i)) (\<lambda>stopped.
       if stopped then ret failed
       else
         case seen ! i of
           Ready rd \<Rightarrow>
             bind (with_vm i (act_vm w i rd (map_option (\<lambda>cs. cs ! i) ceilings))) (\<lambda>r.
               act_all w seen ceilings is (case r of None \<Rightarrow> failed | Some e \<Rightarrow> Some e))
         | _ \<Rightarrow> act_all w seen ceilings is failed)"

definition round :: "env \<Rightarrow> step rt" where
  "round w =
     bind (\<lambda>s. (Inr (length (rt_vms s)), s)) (\<lambda>n.
     bind (observe_all w [0..<n]) (\<lambda>observations.
       case observations of
         None \<Rightarrow> ret Wait
       | Some (seen, failed) \<Rightarrow>
           bind (rt_io (stop_requested w 0)) (\<lambda>stopped.
             if stopped then ret Wait
             else
               bind (\<lambda>s. (allocate (rt_vms s) (rt_pool_bytes s) seen, s)) (\<lambda>ceilings.
               bind (\<lambda>s. (Inr (act_order (rt_vms s)), s\<lparr>rt_committed := outstanding_total (rt_vms s)\<rparr>)) (\<lambda>order.
               bind (act_all w seen ceilings order failed) (\<lambda>last_stop.
               bind (\<lambda>s. (Inr (list_all vc_stopped (rt_vms s)), s)) (\<lambda>all_stopped.
                 case last_stop of
                   Some e \<Rightarrow> if all_stopped then ret (Stop e) else ret Wait
                 | None \<Rightarrow> ret Wait)))))))"

text \<open>
  The loop, for at most a number of rounds: \<open>True\<close> when it ended because shutdown was requested. The
  wait between rounds is an event of its own, so that the clocks may move.
\<close>

fun run :: "env \<Rightarrow> nat \<Rightarrow> bool rt" where
  "run w 0 = ret False"
| "run w (Suc n) =
     bind (rt_io (stop_requested w 0)) (\<lambda>stopped.
       if stopped then ret True
       else
         bind (round w) (\<lambda>step.
           case step of
             Stop e \<Rightarrow> raise e
           | Wait \<Rightarrow>
               bind (\<lambda>s. (Inr (poll_interval (vc_config (hd (rt_vms s)))), s)) (\<lambda>interval.
               bind (rt_io (tell 0 (Waited interval))) (\<lambda>_. run w n))))"

section \<open>A sample daemon\<close>

text \<open>One VM whose guest asks for two more MiB, on a host with room for them.\<close>

definition running_config :: host_config where
  "running_config = sample_host_config\<lparr>raw_telemetry_service_name := lit ''VirtioMem''\<rparr>"

definition sample_controller :: "host_config \<Rightarrow> vm_controller" where
  "sample_controller hc =
     new_controller (with_clock (lit ''/run/guest.jsonl'') (hc_vm_name hc) (raw_telemetry_service_name hc) 30000 5000) hc
       sample_checkpoint default_control"

definition asking_envelope :: raw_telemetry_envelope where
  "asking_envelope =
     (new_envelope (lit ''win11'') (lit ''VirtioMem'') (lit ''s1'') 1009000 1 1 sample_memory)
       \<lparr>env_request := Some (sample_request 1 1005000)\<rparr>"

definition asking_env :: env where
  "asking_env = (sample_env sample_live)
     \<lparr>world_publication := (\<lambda>_ _. PubContents (lit ''x'' @ [10])), parse_envelope := (\<lambda>_. Inr asking_envelope)\<rparr>"

definition sample_runtime :: "host_config \<Rightarrow> host_runtime" where
  "sample_runtime hc = \<lparr>rt_vms = [sample_controller hc], rt_pool_bytes = Some 4294967296, rt_committed = 0, rt_hist = []\<rparr>"

lemma sample_runtime_new: "new_runtime [sample_controller hc] (Some 4294967296) = Inr (sample_runtime hc)"
  by (simp add: new_runtime_def sample_runtime_def)

end
