(* ===== verification/Runtime_Invariants.thy ===== *)
theory Runtime_Invariants
  imports Runtime
begin

text \<open>
  How invariants travel through the steps of a controller. An invariant is a predicate on the history
  that no event other than a command can break, together with a predicate on the configuration and the
  control state. The locale carries it through every step that sends no command; what remains for an
  interpretation are the few places of the code that do.
\<close>

definition inv_of :: "(history \<Rightarrow> bool) \<Rightarrow> (vm_controller \<Rightarrow> bool) \<Rightarrow> ctx \<Rightarrow> bool" where
  "inv_of P R c \<longleftrightarrow> P (hist c) \<and> R (vm c)"

lemma keeps_io [keeps_rules]: "keeps P m \<Longrightarrow> keeps (inv_of P R) (io m)"
  by (auto simp: triple_def inv_of_def wp_simps elim: wp_mono)

lemma keeps_gets [keeps_rules]: "maintains I E (gets f)"
  by (simp add: triple_def wp_simps)

text \<open>A value read from the state satisfies what the invariant says of it.\<close>

lemma keeps_gets_bind: "(\<And>v. R v \<Longrightarrow> triple (inv_of P R) Q E (g (f v))) \<Longrightarrow> triple (inv_of P R) Q E (bind (gets f) g)"
  by (auto simp: triple_def inv_of_def wp_simps)

lemma keeps_modify: "(\<And>v. R v \<Longrightarrow> R (f v)) \<Longrightarrow> maintains (inv_of P R) E (modify f)"
  by (auto simp: triple_def inv_of_def wp_simps)

lemma keeps_peek [keeps_rules]: "maintains I E (\<lambda>c. (Inr (f c), c))"
  by (simp add: triple_def wp_def)

lemma keeps_commit: "maintains (inv_of P R) E (\<lambda>c. (Inr (), c\<lparr>host_committed := f c\<rparr>))"
  by (simp add: triple_def wp_def inv_of_def)

lemma keeps_observed [keeps_rules]:
  "(\<And>x. o' = Held x \<Longrightarrow> triple I Q E (f x)) \<Longrightarrow> (\<And>x. o' = Ready x \<Longrightarrow> triple I Q E (g x)) \<Longrightarrow>
   (\<And>x. o' = Stopping x \<Longrightarrow> triple I Q E (k x)) \<Longrightarrow> triple I Q E (case o' of Held x \<Rightarrow> f x | Ready x \<Rightarrow> g x | Stopping x \<Rightarrow> k x)"
  by (cases o') simp_all

lemma keeps_step [keeps_rules]:
  "(s = Wait \<Longrightarrow> triple I Q E m) \<Longrightarrow> (\<And>e. s = Stop e \<Longrightarrow> triple I Q E (g e)) \<Longrightarrow> triple I Q E (case s of Wait \<Rightarrow> m | Stop e \<Rightarrow> g e)"
  by (cases s) simp_all

lemma keeps_direction [keeps_rules]:
  "(d = Grow \<Longrightarrow> triple I Q E m1) \<Longrightarrow> (d = Shrink \<Longrightarrow> triple I Q E m2) \<Longrightarrow> (d = SettleShrink \<Longrightarrow> triple I Q E m3) \<Longrightarrow>
   (d = SettleGrow \<Longrightarrow> triple I Q E m4) \<Longrightarrow>
   triple I Q E (case d of Grow \<Rightarrow> m1 | Shrink \<Rightarrow> m2 | SettleShrink \<Rightarrow> m3 | SettleGrow \<Rightarrow> m4)"
  by (cases d) simp_all

lemma keeps_ownership [keeps_rules]:
  "(d = OwnershipNone \<Longrightarrow> triple I Q E m1) \<Longrightarrow> (d = OwnedPending \<Longrightarrow> triple I Q E m2) \<Longrightarrow>
   (d = OwnedConvergedUnresolved \<Longrightarrow> triple I Q E m3) \<Longrightarrow> (d = UnownedPending \<Longrightarrow> triple I Q E m4) \<Longrightarrow>
   (d = RecordedNotApplied \<Longrightarrow> triple I Q E m5) \<Longrightarrow> (d = OwnershipConflict \<Longrightarrow> triple I Q E m6) \<Longrightarrow>
   triple I Q E (case d of OwnershipNone \<Rightarrow> m1 | OwnedPending \<Rightarrow> m2 | OwnedConvergedUnresolved \<Rightarrow> m3
     | UnownedPending \<Rightarrow> m4 | RecordedNotApplied \<Rightarrow> m5 | OwnershipConflict \<Rightarrow> m6)"
  by (cases d) simp_all

lemma keeps_operation [keeps_rules]:
  "(d = Add \<Longrightarrow> triple I Q E m1) \<Longrightarrow> (d = Remove \<Longrightarrow> triple I Q E m2) \<Longrightarrow> triple I Q E (case d of Add \<Rightarrow> m1 | Remove \<Rightarrow> m2)"
  by (cases d) simp_all

lemma keeps_let [keeps_rules]: "triple I Q E (f x) \<Longrightarrow> triple I Q E (let y = x in f y)"
  by simp

lemma keeps_sink_error [keeps_rules]:
  "(\<And>x. e = SinkRejected x \<Longrightarrow> triple I Q E (f x)) \<Longrightarrow> (\<And>x. e = CommandUnknown x \<Longrightarrow> triple I Q E (g x)) \<Longrightarrow>
   triple I Q E (case e of SinkRejected x \<Rightarrow> f x | CommandUnknown x \<Rightarrow> g x)"
  by (cases e) simp_all

text \<open>Predicates on the configuration alone, and on the configuration and the control state.\<close>

abbreviation on_config :: "(host_config \<Rightarrow> bool) \<Rightarrow> vm_controller \<Rightarrow> bool" where
  "on_config G \<equiv> (\<lambda>v. G (vc_config v))"

abbreviation on_control :: "(host_config \<Rightarrow> durable_control_state \<Rightarrow> bool) \<Rightarrow> vm_controller \<Rightarrow> bool" where
  "on_control G \<equiv> (\<lambda>v. G (vc_config v) (control v))"

lemma keeps_set_control: "keeps (inv_of P (on_config G)) (set_control f)"
  unfolding set_control_def by (rule keeps_modify) simp

text \<open>An error leaves the history good; the controller's own state no longer matters.\<close>

abbreviation survives :: "(history \<Rightarrow> bool) \<Rightarrow> (vm_controller \<Rightarrow> bool) \<Rightarrow> 'a act \<Rightarrow> bool" where
  "survives P R \<equiv> maintains (inv_of P R) (\<lambda>c. P (hist c))"

lemma keeps_survives: "keeps (inv_of P R) m \<Longrightarrow> survives P R m"
  by (erule triple_mono) (simp_all add: inv_of_def)

text \<open>The journal's own operations, for predicates on the control state that they keep.\<close>

lemma keeps_record_journal_on:
  assumes "\<And>hc c j'. G hc c \<Longrightarrow> record_result (journal c) x = Inr j' \<Longrightarrow> G hc (c\<lparr>journal := j'\<rparr>)"
  shows "keeps (inv_of P (on_control G)) (record_journal x)"
  by (rule tripleI) (use assms in \<open>auto simp: record_journal_def wp_simps inv_of_def set_control_def result_simps split: sum.splits\<close>)

lemma keeps_admit_journal_on:
  assumes "\<And>hc c j. G hc c \<Longrightarrow> G hc (c\<lparr>journal := j\<rparr>)"
  shows "keeps (inv_of P (on_control G)) (admit_journal r t)"
  unfolding admit_journal_def future_tolerance_millis_def set_control_def
  by (intro keeps_rules keeps_modify) (use assms in auto)

lemma keeps_set_control_on:
  "(\<And>hc c. G hc c \<Longrightarrow> G hc (f c)) \<Longrightarrow> maintains (inv_of P (on_control G)) E (set_control f)"
  unfolding set_control_def by (rule keeps_modify) simp

text \<open>A latched controller has no request without a result.\<close>

definition latch_settled :: "durable_control_state \<Rightarrow> bool" where
  "latch_settled c \<longleftrightarrow> (latched c \<longrightarrow> j_request (journal c) = None \<or> j_result (journal c) \<noteq> None)"

abbreviation settled_inv :: "(host_config \<Rightarrow> bool) \<Rightarrow> vm_controller \<Rightarrow> bool" where
  "settled_inv G \<equiv> on_control (\<lambda>hc c. G hc \<and> latch_settled c)"

abbreviation free_inv :: "(host_config \<Rightarrow> bool) \<Rightarrow> vm_controller \<Rightarrow> bool" where
  "free_inv G \<equiv> on_control (\<lambda>hc c. G hc \<and> \<not> latched c)"

lemma record_result_answers: "record_result j x = Inr j' \<Longrightarrow> j_result j' \<noteq> None \<and> j_request j' = j_request j"
  by (auto simp: record_result_iff)

lemma latched_update [simp]: "latched (c\<lparr>journal := j\<rparr>) = latched c" "latched (c\<lparr>intent := it\<rparr>) = latched c"
  by (simp_all add: latched_def)

locale event_invariant =
  fixes P :: "history \<Rightarrow> bool"
  assumes event: "P h \<Longrightarrow> \<not> is_command e \<Longrightarrow> P (e # h)"
begin

lemma keeps_ask: "\<not> is_command (i, e) \<Longrightarrow> keeps P (ask i e f)"
  by (auto simp: triple_def wp_simps event split: sum.splits)

lemma keeps_tell: "\<not> is_command (i, e) \<Longrightarrow> keeps P (tell i e)"
  by (auto simp: triple_def wp_simps event)

lemma keeps_effects:
  "keeps P (now_unix_millis w i)" "keeps P (instant_now w i)" "keeps P (elapsed w i t)"
  "keeps P (stop_requested w i)" "keeps P (host_available w i)" "keeps P (compatibility w i)"
  "keeps P (dump_xml w i name)"
  unfolding effect_defs dump_xml_def by (intro keeps_rules keeps_ask; simp)+

lemma keeps_memory_state: "keeps P (memory_state w i name alias)"
  unfolding memory_state_def by (intro keeps_rules keeps_effects)

lemma keeps_guest_read: "keeps P (guest_read w i ch)"
  unfolding guest_read_def read_file_def by (intro keeps_rules keeps_effects keeps_ask; simp)

lemma keeps_publish_status: "keeps P (publish_status w i ch s)"
  unfolding publish_status_def refresh_due_def
  by (intro keeps_rules keeps_effects keeps_ask keeps_tell; simp)

lemma keeps_persist_control: "keeps P (persist_control w i cp c)"
  by (auto simp: triple_def wp_def persist_control_def Let_def event split: sum.splits)

text \<open>Steps that leave the control state as it is.\<close>

lemma keeps_log: "keeps (inv_of P R) (log i ev)"
  unfolding log_def by (intro keeps_io keeps_tell) simp

lemma keeps_now: "keeps (inv_of P R) (now w i)"
  unfolding now_def by (intro keeps_rules keeps_effects)

lemma keeps_tolerance: "keeps I future_tolerance_millis"
  unfolding future_tolerance_millis_def by (intro keeps_rules)

lemma keeps_operation_id: "keeps (inv_of P (on_control G)) (next_operation_id w)"
  unfolding next_operation_id_def by (intro keeps_rules keeps_modify) simp

lemma keeps_save: "keeps (inv_of P R) (save w i)"
  unfolding save_def by (intro keeps_rules keeps_persist_control)

lemmas basic_steps = keeps_rules keeps_effects keeps_ask keeps_tell keeps_log keeps_now keeps_tolerance
  keeps_operation_id keeps_save keeps_modify keeps_guest_read keeps_publish_status keeps_memory_state

lemma keeps_publish: "keeps (inv_of P (on_control G)) (publish w i state refusal)"
  unfolding publish_def by (intro basic_steps; simp)

lemma keeps_command_stalled: "keeps (inv_of P (on_control G)) (command_stalled w i state)"
  unfolding command_stalled_def Let_def by (intro basic_steps; simp)

lemma keeps_pending_elapsed: "keeps (inv_of P (on_control G)) (pending_elapsed w i)"
  unfolding pending_elapsed_def Let_def by (intro basic_steps; simp)

lemma keeps_log_health: "keeps (inv_of P (on_control G)) (log_pending_health w i state)"
  unfolding log_pending_health_def by (intro basic_steps; simp)

lemma keeps_live_state: "keeps (inv_of P R) (live_state w i)"
  unfolding live_state_def by (intro basic_steps)

lemma keeps_observe_stopped: "keeps (inv_of P (on_control G)) (observe_stopped w i)"
  unfolding observe_stopped_def by (intro basic_steps keeps_live_state) (simp add: charge_state_def)

lemma keeps_stop_vm: "keeps (inv_of P (on_control G)) (stop_vm i)"
  unfolding stop_vm_def by (intro basic_steps) simp

lemma keeps_read_request: "keeps (inv_of P (on_control G)) (read_request w i state)"
  unfolding read_request_def by (intro basic_steps; simp)

lemma keeps_note_request: "keeps (inv_of P (on_control G)) (note_request i r)"
  unfolding note_request_def by (intro basic_steps; simp)

lemma keeps_consider: "keeps (inv_of P (on_control G)) (consider_request w i state held r base)"
  unfolding consider_request_def Let_def by (intro basic_steps keeps_note_request keeps_publish; simp)

lemma keeps_grant: "keeps (inv_of P (on_control G)) (grant_bytes w i rd ceiling)"
  unfolding grant_bytes_def Let_def by (intro basic_steps)

lemma keeps_authorization: "keeps P (grow_authorization w i committed headroom current tgt)"
  unfolding grow_authorization_def by (intro basic_steps)

text \<open>Steps that change the control state.\<close>

lemma keeps_record_journal: "keeps (inv_of P (on_config G)) (record_journal x)"
  unfolding record_journal_def by (intro keeps_rules keeps_set_control)

lemma keeps_admit_journal: "keeps (inv_of P (on_config G)) (admit_journal r t)"
  unfolding admit_journal_def by (intro keeps_rules keeps_set_control keeps_tolerance)

lemma keeps_latch: "keeps (inv_of P (on_config G)) (latch w i why)"
  unfolding latch_def Let_def by (intro basic_steps keeps_set_control keeps_record_journal)

lemma keeps_convergence_stop: "keeps (inv_of P (on_config G)) (convergence_timeout_stop w i name)"
  unfolding convergence_timeout_stop_def by (intro keeps_rules keeps_latch)

lemma keeps_record_unexecuted: "keeps (inv_of P (on_config G)) (record_unexecuted w i state a x)"
  unfolding record_unexecuted_def
  by (intro basic_steps keeps_record_journal keeps_admit_journal keeps_publish [where G = "\<lambda>hc _. G hc"])

lemma keeps_refuse: "keeps (inv_of P (on_config G)) (refuse w i state r a why)"
  unfolding refuse_def Let_def
  by (intro basic_steps keeps_record_unexecuted keeps_publish [where G = "\<lambda>hc _. G hc"])

lemma keeps_resolve_intent: "keeps (inv_of P (on_config G)) (resolve_intent w i live)"
  unfolding resolve_intent_def
  by (intro basic_steps keeps_set_control keeps_record_journal keeps_latch; simp)

lemma keeps_unreadable: "keeps (inv_of P (on_config G)) (observe_unreadable w i e)"
  unfolding observe_unreadable_def by (intro basic_steps keeps_latch; simp)

lemma keeps_resize_outcome: "keeps (inv_of P (on_config G)) (resize_outcome w i rd t dir command)"
  unfolding resize_outcome_def
  by (intro basic_steps keeps_latch keeps_record_unexecuted keeps_publish [where G = "\<lambda>hc _. G hc"]; simp)

lemma keeps_finish_held: "keeps (inv_of P (on_control G)) (finish_pending w i state dir False)"
  unfolding finish_pending_def by (simp add: keeps_bind keeps_log_health keeps_ret)

lemma keeps_finish_settling:
  "dir = SettleGrow \<or> dir = SettleShrink \<Longrightarrow> keeps (inv_of P (on_config G)) (finish_pending w i state dir b)"
  unfolding finish_pending_def
  by (auto intro!: keeps_rules keeps_convergence_stop keeps_log_health [where G = "\<lambda>hc _. G hc"])

text \<open>Latching gives an unresolved request its result, so it keeps latched controllers settled.\<close>

lemma survives_latch: "survives P (on_control (\<lambda>hc c. G hc \<and> latch_settled c)) (latch w i why)"
proof (rule tripleI)
  let ?R = "on_control (\<lambda>hc c. G hc \<and> latch_settled c)"
  fix c assume c: "inv_of P ?R c"
  have saving: "wp (save w i) (\<lambda>_. wp (log i ''actuation_latched'' :: unit act) (\<lambda>_. inv_of P ?R) (\<lambda>_ c. P (hist c))) (\<lambda>_ c. P (hist c)) c'"
    if "inv_of P ?R c'" for c'
    by (rule wp_mono [OF tripleD [OF keeps_survives [OF keeps_save] that]])
      (auto intro: tripleD [OF keeps_survives [OF keeps_log]])
  let ?c1 = "c\<lparr>vm := (vm c)\<lparr>control := (control (vm c))\<lparr>latch_reason := Some (bounded_reason why)\<rparr>\<rparr>\<rparr>"
  have c1: "P (hist ?c1)" "G (vc_config (vm ?c1))" using c by (simp_all add: inv_of_def)
  have recording: "wp (now w i) (\<lambda>t. wp (record_journal (x t)) (\<lambda>_. inv_of P ?R) (\<lambda>_ c. P (hist c))) (\<lambda>_ c. P (hist c)) ?c1" for x
    using c1 event [OF c1(1), of "(i, ReadClock)"]
    by (auto simp: now_def now_unix_millis_def record_journal_def set_control_def wp_simps inv_of_def latch_settled_def result_simps
        dest: record_result_answers split: sum.splits)
  show "wp (latch w i why) (\<lambda>_. inv_of P ?R) (\<lambda>_ c. P (hist c)) c"
  proof (cases "latched (control (vm c)) \<or> j_request (journal (control (vm c))) = None \<or> j_result (journal (control (vm c))) \<noteq> None")
    case True
    then show ?thesis
      using c c1 saving [of ?c1]
      by (auto simp: latch_def wp_simps set_control_def Let_def inv_of_def latch_settled_def split: option.split)
  next
    case False
    then obtain r where r: "\<not> latched (control (vm c))" "j_result (journal (control (vm c))) = None"
      "j_request (journal (control (vm c))) = Some r" by auto
    show ?thesis
      unfolding latch_def wp_bind wp_gets set_control_def wp_modify Let_def if_not_P [OF r(1)] r(2,3) prod.case option.case
      by (rule wp_mono [OF recording], rule wp_mono, assumption) (simp_all add: saving)
  qed
qed

text \<open>Steps that may latch, between settled controllers.\<close>

lemma keeps_record_settled: "keeps (inv_of P (settled_inv G)) (record_journal x)"
  by (rule keeps_record_journal_on) (auto simp: latch_settled_def dest: record_result_answers)

lemma keeps_record_free: "keeps (inv_of P (free_inv G)) (record_journal x)"
  by (rule keeps_record_journal_on) simp

lemma keeps_admit_free: "keeps (inv_of P (free_inv G)) (admit_journal r t)"
  by (rule keeps_admit_journal_on) simp

lemma keeps_intent_settled: "maintains (inv_of P (settled_inv G)) E (set_control (\<lambda>c. c\<lparr>intent := f c\<rparr>))"
  by (rule keeps_set_control_on) (simp add: latch_settled_def)

lemma keeps_intent_free: "maintains (inv_of P (free_inv G)) E (set_control (\<lambda>c. c\<lparr>intent := f c\<rparr>))"
  by (rule keeps_set_control_on) simp

lemma keeps_unexecuted_replay: "keeps (inv_of P (settled_inv G)) (record_unexecuted w i state Replay x)"
  unfolding record_unexecuted_def by (simp, intro basic_steps keeps_record_settled keeps_publish)

lemma keeps_unexecuted_free: "keeps (inv_of P (free_inv G)) (record_unexecuted w i state a x)"
  unfolding record_unexecuted_def
  by (intro basic_steps keeps_record_free keeps_admit_free keeps_publish)

lemma keeps_refuse_free: "keeps (inv_of P (free_inv G)) (refuse w i state r a why)"
  unfolding refuse_def Let_def by (intro basic_steps keeps_unexecuted_free keeps_publish)

lemmas surviving = keeps_gets keeps_modify keeps_intent_settled survives_latch
  keeps_survives [OF keeps_now] keeps_survives [OF keeps_save] keeps_survives [OF keeps_log]
  keeps_survives [OF keeps_record_settled] keeps_survives [OF keeps_publish]
  keeps_survives [OF keeps_io [OF keeps_effects(2)]] keeps_survives [OF keeps_io [OF keeps_effects(3)]]
  keeps_survives [OF keeps_unexecuted_replay] keeps_survives [OF keeps_log_health]
  keeps_live_state keeps_survives [OF keeps_pending_elapsed]

lemma survives_convergence_stop: "survives P (settled_inv G) (convergence_timeout_stop w i name)"
  unfolding convergence_timeout_stop_def by (intro keeps_rules surviving)

lemma survives_resolve_intent: "survives P (settled_inv G) (resolve_intent w i live)"
  unfolding resolve_intent_def by (intro keeps_rules surviving) simp

lemma survives_unreadable: "survives P (settled_inv G) (observe_unreadable w i e)"
  unfolding observe_unreadable_def by (intro keeps_rules surviving) simp

lemma survives_resize_outcome: "survives P (settled_inv G) (resize_outcome w i rd t dir command)"
  unfolding resize_outcome_def by (intro keeps_rules surviving) (simp_all add: latch_settled_def)

lemma survives_settling:
  "dir = SettleGrow \<or> dir = SettleShrink \<Longrightarrow> survives P (settled_inv G) (finish_pending w i state dir b)"
  unfolding finish_pending_def by (auto intro!: keeps_rules survives_convergence_stop surviving)

end

end
