(* ===== verification/Round_Invariants.thy ===== *)
theory Round_Invariants
  imports Host_Loop Runtime_Invariants
begin

text \<open>
  How an invariant of one controller's steps becomes one of the rounds over all VMs and of the loop.
  The contract is a locale: what observing a VM must establish for a request that is ready, and that
  acting on it keeps the invariant. An error ends the daemon, so only the history has to be good then.
\<close>

lemma wp_with_vm [wp_simps]:
  "wp (with_vm i m) Q E s =
     wp m (\<lambda>x c. Q x (s\<lparr>rt_vms := (rt_vms s)[i := vm c], rt_committed := host_committed c, rt_hist := hist c\<rparr>))
          (\<lambda>e c. E e (s\<lparr>rt_vms := (rt_vms s)[i := vm c], rt_committed := host_committed c, rt_hist := hist c\<rparr>))
       \<lparr>vm = rt_vms s ! i, host_committed = rt_committed s, hist = rt_hist s\<rparr>"
  by (simp add: wp_def with_vm_def split: prod.splits sum.splits)

lemma wp_rt_io [wp_simps]:
  "wp (rt_io m) Q E s = wp m (\<lambda>x h. Q x (s\<lparr>rt_hist := h\<rparr>)) (\<lambda>e h. E e (s\<lparr>rt_hist := h\<rparr>)) (rt_hist s)"
  by (simp add: wp_def rt_io_def split: prod.splits sum.splits)

lemma wp_fun [wp_simps]: "wp (\<lambda>s. (f s, g s)) Q E s = (case f s of Inl e \<Rightarrow> E e (g s) | Inr x \<Rightarrow> Q x (g s))"
  by (simp add: wp_def split: sum.splits)

definition all_inv :: "(history \<Rightarrow> bool) \<Rightarrow> (nat \<Rightarrow> vm_controller \<Rightarrow> bool) \<Rightarrow> host_runtime \<Rightarrow> bool" where
  "all_inv P R s \<longleftrightarrow> P (rt_hist s) \<and> (\<forall>i<length (rt_vms s). R i (rt_vms s ! i))"

definition frame :: "nat set \<Rightarrow> host_runtime \<Rightarrow> host_runtime \<Rightarrow> bool" where
  "frame A s s' \<longleftrightarrow> length (rt_vms s') = length (rt_vms s) \<and> rt_pool_bytes s' = rt_pool_bytes s
     \<and> (\<forall>k. k \<notin> A \<longrightarrow> rt_vms s' ! k = rt_vms s ! k)"

lemma frame_refl [simp]: "frame A s s"
  by (simp add: frame_def)

lemma frame_trans: "frame A s t \<Longrightarrow> frame B t u \<Longrightarrow> frame (A \<union> B) s u"
  by (simp add: frame_def)

lemma frame_update: "i \<in> A \<Longrightarrow> frame A s (s\<lparr>rt_vms := (rt_vms s)[i := v], rt_committed := c, rt_hist := h\<rparr>)"
  unfolding frame_def by (simp, metis nth_list_update_neq)

locale round_invariant = event_invariant P for P :: "history \<Rightarrow> bool" +
  fixes w :: env
    and R :: "nat \<Rightarrow> vm_controller \<Rightarrow> bool"
    and OK :: "nat \<Rightarrow> ready \<Rightarrow> vm_controller \<Rightarrow> bool"
  assumes observe_law: "inv_of P (R i) c \<Longrightarrow>
      wp (observe w i) (\<lambda>seen c'. inv_of P (R i) c' \<and> (\<forall>rd. seen = Ready rd \<longrightarrow> OK i rd (vm c'))) (\<lambda>_ c'. P (hist c')) c"
    and act_law: "inv_of P (R i) c \<Longrightarrow> OK i rd (vm c) \<Longrightarrow>
      wp (act w i rd ceiling) (\<lambda>_. inv_of P (R i)) (\<lambda>_ c'. P (hist c')) c"
    and stopped_law: "survives P (R i) (observe_stopped w i)"
    and stop_law: "survives P (R i) (stop_vm i)"
begin

lemma stopped_not_ready:
  assumes "inv_of P (R i) c"
  shows "wp (observe_stopped w i) (\<lambda>seen c'. inv_of P (R i) c' \<and> (\<forall>rd. seen \<noteq> Ready rd)) (\<lambda>_ c'. P (hist c')) c"
proof -
  have "wp (observe_stopped w i) (\<lambda>seen _. \<forall>rd. seen \<noteq> Ready rd) (\<lambda>_ _. True) c"
    by (rule wpI) (auto simp: observe_stopped_def bind_def gets_def split: prod.splits sum.splits)
  from wp_conj [OF tripleD [OF stopped_law assms] this] show ?thesis by (rule wp_mono) auto
qed

abbreviation seen_post :: "nat \<Rightarrow> observed \<times> host_runtime_error option \<Rightarrow> ctx \<Rightarrow> bool" where
  "seen_post i r c' \<equiv> inv_of P (R i) c' \<and> (\<forall>rd. fst r = Ready rd \<longrightarrow> OK i rd (vm c'))"

lemma wp_stopped_observation:
  "inv_of P (R i) c \<Longrightarrow> wp (observe_stopped w i) (\<lambda>seen. wp (ret (seen, e)) (seen_post i) (\<lambda>_ c'. P (hist c'))) (\<lambda>_ c'. P (hist c')) c"
  by (rule wp_mono [OF stopped_not_ready]) (simp_all add: wp_ret)

lemma observe_vm_law:
  assumes "inv_of P (R i) c"
  shows "wp (observe_vm w i) (seen_post i) (\<lambda>_ c'. P (hist c')) c"
proof (cases "vc_stopped (vm c)")
  case True
  then show ?thesis using wp_stopped_observation [OF assms] by (simp add: observe_vm_def wp_bind wp_gets)
next
  case False
  show ?thesis
    unfolding observe_vm_def wp_bind wp_gets if_not_P [OF False] wp_if
  proof (rule wp_mono [OF observe_law [OF assms]], goal_cases)
    case (1 seen c')
    show ?case
    proof (cases seen)
      case (Stopping e)
      show ?thesis unfolding Stopping observed.case wp_bind
        by (rule wp_mono [OF tripleD [OF stop_law]]) (use 1 wp_stopped_observation in auto)
    qed (use 1 in \<open>simp_all add: wp_ret\<close>)
  qed
qed

lemma all_inv_update:
  "all_inv P R s \<Longrightarrow> inv_of P (R i) c \<Longrightarrow>
     all_inv P R (s\<lparr>rt_vms := (rt_vms s)[i := vm c], rt_committed := host_committed c, rt_hist := hist c\<rparr>)"
  unfolding all_inv_def inv_of_def by (simp, metis nth_list_update_eq nth_list_update_neq)

lemma all_inv_ctx:
  "all_inv P R s \<Longrightarrow> i < length (rt_vms s) \<Longrightarrow>
     inv_of P (R i) \<lparr>vm = rt_vms s ! i, host_committed = rt_committed s, hist = rt_hist s\<rparr>"
  by (simp add: all_inv_def inv_of_def)

lemma all_inv_event: "all_inv P R s \<Longrightarrow> \<not> is_command e \<Longrightarrow> all_inv P R (s\<lparr>rt_hist := e # rt_hist s\<rparr>)"
  by (simp add: all_inv_def event)

text \<open>What the observations of a list of VMs give: every request that is ready may be acted on.\<close>

definition observations_ok :: "nat list \<Rightarrow> observed list \<Rightarrow> host_runtime \<Rightarrow> bool" where
  "observations_ok is seen s \<longleftrightarrow> length seen = length is
     \<and> (\<forall>j<length is. \<forall>rd. seen ! j = Ready rd \<longrightarrow> OK (is ! j) rd (rt_vms s ! (is ! j)))"

lemma observations_Cons:
  "observations_ok is seen s \<Longrightarrow> (\<forall>rd. x = Ready rd \<longrightarrow> OK i rd (rt_vms s ! i)) \<Longrightarrow> observations_ok (i # is) (x # seen) s"
  by (auto simp: observations_ok_def less_Suc_eq_0_disj)

lemma observe_all_law:
  assumes "distinct is" and "\<forall>i\<in>set is. i < length (rt_vms s)" and "all_inv P R s"
  shows "wp (observe_all w is)
    (\<lambda>r s'. all_inv P R s' \<and> frame (set is) s s' \<and> (\<forall>seen failed. r = Some (seen, failed) \<longrightarrow> observations_ok is seen s'))
    (\<lambda>_ s'. P (rt_hist s')) s"
  using assms
proof (induction "is" arbitrary: s)
  case Nil
  then show ?case by (simp add: wp_simps observations_ok_def)
next
  case (Cons i "is")
  let ?s1 = "s\<lparr>rt_hist := (i, ReadStop) # rt_hist s\<rparr>"
  let ?upd = "\<lambda>c. ?s1\<lparr>rt_vms := (rt_vms ?s1)[i := vm c], rt_committed := host_committed c, rt_hist := hist c\<rparr>"
  have s1: "all_inv P R ?s1" using Cons.prems(3) by (simp add: all_inv_event)
  have obs: "inv_of P (R i) \<lparr>vm = rt_vms ?s1 ! i, host_committed = rt_committed ?s1, hist = rt_hist ?s1\<rparr>"
    using s1 Cons.prems(2) all_inv_ctx [of ?s1 i] by simp
  have later: "wp (observe_all w is) (\<lambda>r s'. all_inv P R s' \<and> frame (set is) (?upd c) s'
      \<and> (\<forall>seen failed. r = Some (seen, failed) \<longrightarrow> observations_ok is seen s')) (\<lambda>_ s'. P (rt_hist s')) (?upd c)"
    if "inv_of P (R i) c" for c
    by (rule Cons.IH) (use Cons.prems all_inv_update [OF s1 that] in simp_all)
  show ?case
  proof (cases "world_stop w (rt_hist s)")
    case True
    then show ?thesis using s1 by (simp add: wp_simps stop_requested_def frame_def)
  next
    case False
    show ?thesis
      unfolding observe_all.simps wp_bind stop_requested_def wp_rt_io wp_ask sum.case if_not_P [OF False] wp_with_vm
    proof (rule wp_mono [OF observe_vm_law [OF obs]], goal_cases)
      case (1 r c)
      obtain x failed where r: "r = (x, failed)" by (cases r)
      from 1 have c: "inv_of P (R i) c" "\<forall>rd. x = Ready rd \<longrightarrow> OK i rd (vm c)" by (simp_all add: r)
      show ?case
        unfolding r prod.case wp_bind
      proof (rule wp_mono [OF later [OF c(1)]], goal_cases)
        case (1 rest s')
        have fr: "frame (set (i # is)) s s'" "rt_vms s' ! i = vm c"
          using 1 Cons.prems(1,2) by (auto simp: frame_def)
        then show ?case
          using 1 c(2) by (auto simp: wp_ret split: option.split intro!: observations_Cons)
      qed
    qed (simp add: inv_of_def)
  qed
qed

lemma act_vm_law:
  assumes "inv_of P (R i) c" and "OK i rd (vm c)"
  shows "wp (act_vm w i rd ceiling) (\<lambda>_. inv_of P (R i)) (\<lambda>_ c'. P (hist c')) c"
  unfolding act_vm_def wp_bind
  by (rule wp_mono [OF act_law [OF assms]])
    (auto simp: wp_bind wp_ret [abs_def] split: step.split intro: wp_mono [OF tripleD [OF stop_law]])

text \<open>Acting on one VM leaves the others, so what was observed of them still holds.\<close>

lemma act_all_law:
  assumes "distinct is" and "\<forall>i\<in>set is. i < length (rt_vms s)" and "all_inv P R s"
    and "\<forall>i\<in>set is. \<forall>rd. seen ! i = Ready rd \<longrightarrow> OK i rd (rt_vms s ! i)"
  shows "wp (act_all w seen ceilings is failed) (\<lambda>_ s'. all_inv P R s' \<and> frame (set is) s s') (\<lambda>_ s'. P (rt_hist s')) s"
  using assms
proof (induction "is" arbitrary: s failed)
  case Nil
  then show ?case by (simp add: wp_simps)
next
  case (Cons i "is")
  let ?s1 = "s\<lparr>rt_hist := (i, ReadStop) # rt_hist s\<rparr>"
  let ?upd = "\<lambda>c. ?s1\<lparr>rt_vms := (rt_vms ?s1)[i := vm c], rt_committed := host_committed c, rt_hist := hist c\<rparr>"
  have s1: "all_inv P R ?s1" using Cons.prems(3) by (simp add: all_inv_event)
  have obs: "inv_of P (R i) \<lparr>vm = rt_vms ?s1 ! i, host_committed = rt_committed ?s1, hist = rt_hist ?s1\<rparr>"
    using s1 Cons.prems(2) all_inv_ctx [of ?s1 i] by simp
  have later: "wp (act_all w seen ceilings is f) (\<lambda>_ s'. all_inv P R s' \<and> frame (set (i # is)) s s') (\<lambda>_ s'. P (rt_hist s')) t"
    if "all_inv P R t" "frame {i} s t" for f t
  proof (rule wp_mono [OF Cons.IH [of t f]])
    show "\<forall>k\<in>set is. \<forall>rd. seen ! k = Ready rd \<longrightarrow> OK k rd (rt_vms t ! k)"
      using Cons.prems(1,4) that(2) by (auto simp: frame_def)
  qed (use Cons.prems that frame_trans [OF that(2)] in \<open>auto simp: frame_def\<close>)
  show ?case
  proof (cases "world_stop w (rt_hist s)")
    case True
    then show ?thesis using s1 by (simp add: wp_simps stop_requested_def frame_def)
  next
    case False
    show ?thesis
    proof (cases "seen ! i")
      case (Ready rd)
      show ?thesis
        unfolding act_all.simps wp_bind stop_requested_def wp_rt_io wp_ask sum.case if_not_P [OF False] Ready observed.case wp_with_vm
      proof (rule wp_mono [OF act_vm_law [OF obs]], goal_cases)
        case (2 r c)
        show ?case
          by (rule later) (use 2 all_inv_update [OF s1, of i c] frame_update [of i "{i}" ?s1] in \<open>auto simp: frame_def\<close>)
      qed (use Cons.prems Ready in \<open>simp_all add: inv_of_def\<close>)
    qed (use False later [OF s1] in \<open>simp_all add: wp_simps stop_requested_def frame_def\<close>)
  qed
qed

lemma act_order_indices: "distinct (act_order vms)" "set (act_order vms) = {0..<length vms}"
  by (simp_all add: act_order_def)

lemma round_law:
  assumes "all_inv P R s"
  shows "wp (round w) (\<lambda>_. all_inv P R) (\<lambda>_ s'. P (rt_hist s')) s"
  unfolding round_def wp_bind wp_fun sum.case
proof (rule wp_mono [OF observe_all_law [OF _ _ assms]], goal_cases)
  case (3 r s1)
  show ?case
  proof (cases r)
    case None
    then show ?thesis using 3 by (simp add: wp_simps)
  next
    case (Some p)
    then obtain seen failed where r: "r = Some (seen, failed)" by (cases p) auto
    let ?s2 = "s1\<lparr>rt_hist := (0, ReadStop) # rt_hist s1\<rparr>"
    let ?s3 = "?s2\<lparr>rt_committed := outstanding_total (rt_vms ?s2)\<rparr>"
    have ok: "observations_ok [0..<length (rt_vms s)] seen s1" and len: "length (rt_vms s1) = length (rt_vms s)"
      using 3 by (auto simp: r frame_def)
    have s3: "all_inv P R ?s2" "all_inv P R ?s3" using 3 all_inv_event [of s1 "(0, ReadStop)"] by (auto simp: all_inv_def)
    have acts: "wp (act_all w seen ceilings (act_order (rt_vms ?s2)) failed) (\<lambda>_. all_inv P R) (\<lambda>_ s'. P (rt_hist s')) ?s3" for ceilings
      by (rule wp_mono [OF act_all_law])
        (use ok len s3 in \<open>auto simp: act_order_indices observations_ok_def\<close>)
    show ?thesis
      unfolding r option.case prod.case wp_bind stop_requested_def wp_rt_io wp_ask sum.case
      using s3 by (auto simp: wp_simps all_inv_def split: sum.split option.split
          intro!: wp_mono [OF acts, simplified])
  qed
qed simp_all

lemma run_law: "all_inv P R s \<Longrightarrow> wp (run w n) (\<lambda>_. all_inv P R) (\<lambda>_ s'. P (rt_hist s')) s"
proof (induction n arbitrary: s)
  case 0
  then show ?case by (simp add: wp_simps)
next
  case (Suc n)
  have s1: "all_inv P R (s\<lparr>rt_hist := (0, ReadStop) # rt_hist s\<rparr>)" using Suc.prems by (simp add: all_inv_event)
  show ?case
    unfolding run.simps wp_bind stop_requested_def wp_rt_io wp_ask sum.case wp_if wp_ret
    using s1 by (auto simp: wp_simps split: step.split intro!: wp_mono [OF round_law [OF s1]] Suc.IH all_inv_event)
      (simp_all add: all_inv_def)
qed

end

end
