(* ===== verification/Runtime_Safety.thy ===== *)
theory Runtime_Safety
  imports Round_Invariants
begin

text \<open>
  What the control loop guarantees of the commands it sends, for every environment: an observe-only
  controller sends none, and every command that changes a device's size is backed by the durable state
  of its VM.
\<close>

section \<open>Observe only\<close>

interpretation silent: event_invariant "\<lambda>h. commands h = K" for K
  by unfold_locales simp

abbreviation silent_inv :: "history \<Rightarrow> ctx \<Rightarrow> bool" where
  "silent_inv K \<equiv> inv_of (\<lambda>h. commands h = K) (on_config hc_observe_only)"

lemmas silent_control = silent.keeps_publish [where G = "\<lambda>hc _. hc_observe_only hc"]
  silent.keeps_pending_elapsed [where G = "\<lambda>hc _. hc_observe_only hc"]
  silent.keeps_finish_held [where G = "\<lambda>hc _. hc_observe_only hc"]
  silent.keeps_read_request [where G = "\<lambda>hc _. hc_observe_only hc"]
  silent.keeps_consider [where G = "\<lambda>hc _. hc_observe_only hc"]
  silent.keeps_observe_stopped [where G = "\<lambda>hc _. hc_observe_only hc"]
  silent.keeps_stop_vm [where G = "\<lambda>hc _. hc_observe_only hc"]
  silent.keeps_grant [where G = "\<lambda>hc _. hc_observe_only hc"]

lemma silent_observe_pending: "keeps (silent_inv K) (observe_pending w i state)"
  unfolding observe_pending_def
proof (rule keeps_gets_bind, goal_cases)
  case (1 v)
  then show ?case
    by (auto simp: Let_def intro!: keeps_rules silent.keeps_log keeps_modify silent_control
        silent.keeps_finish_settling split: option.splits command_direction.splits)
qed

lemma silent_widen: "keeps (silent_inv K) (widen_usable_region w i state)"
  unfolding widen_usable_region_def
  by (intro keeps_bind [OF keeps_modify] keeps_gets_bind; simp add: keeps_ret)

lemma silent_observe: "keeps (silent_inv K) (observe w i)"
  unfolding observe_def observe_converged_def
  by (intro keeps_rules silent.keeps_live_state silent.keeps_unreadable keeps_modify silent_control
      silent.keeps_resolve_intent silent_observe_pending silent_widen; simp add: charge_state_def)

lemma silent_act: "keeps (silent_inv K) (act w i rd ceiling)"
  unfolding act_def
proof (intro keeps_bind [OF silent.keeps_now] keeps_bind [OF keeps_io [OF silent.keeps_effects(2)]]
    keeps_bind [OF silent.keeps_tolerance] keeps_gets_bind, goal_cases)
  case (1 t started tolerance v)
  then show ?case
    by (auto intro!: keeps_rules silent.keeps_refuse silent_control silent.keeps_log)
qed

interpretation silent_round:
  round_invariant "\<lambda>h. commands h = K" w "\<lambda>_. on_config hc_observe_only" "\<lambda>_ _ _. True" for K w
  by unfold_locales
    (auto intro: tripleD [OF keeps_survives] silent_observe silent_act keeps_survives [OF silent_control(6)]
      keeps_survives [OF silent_control(7)])

text \<open>
  C2. With every VM configured to observe only, the daemon never sends a command that changes a
  domain, whatever the guests, the host, the disk and the clocks do and however long it runs: not for a
  new request, not to settle or extend a resize it finds pending, not to widen.
\<close>

theorem observe_only_never_commands:
  assumes "new_runtime vms pool = Inr s" and "\<forall>v\<in>set vms. hc_observe_only (vc_config v)"
    and "run w n s = (r, s')"
  shows "commands (rt_hist s') = []"
proof -
  have "all_inv (\<lambda>h. commands h = []) (\<lambda>_. on_config hc_observe_only) s"
    using assms(1,2) by (auto simp: new_runtime_def all_inv_def split: if_splits)
  from silent_round.run_law [OF this, of w n] show ?thesis
    using assms(3) by (cases r) (auto simp: wp_def all_inv_def)
qed

theorem observe_only_never_commands_witness:
  "commands (rt_hist (snd (run asking_env 3 (sample_runtime (running_config\<lparr>hc_observe_only := True\<rparr>))))) = []"
proof -
  let ?hc = "running_config\<lparr>hc_observe_only := True\<rparr>"
  have "\<forall>v\<in>set [sample_controller ?hc]. hc_observe_only (vc_config v)"
    by (simp add: sample_controller_def new_controller_def)
  from observe_only_never_commands [OF sample_runtime_new this prod.collapse [symmetric]] show ?thesis .
qed

end
