(* ===== verification/Command_Safety.thy ===== *)
theory Command_Safety
  imports Runtime_Safety
begin

text \<open>
  Every command the daemon sends is backed by durable state: it asks for exactly the target of the
  unlatched intent its VM saved last, or restores a domain the daemon itself has paused.
\<close>

section \<open>Covered histories\<close>

text \<open>The domain of a VM is paused: its newest suspend or resume was a suspend libvirt accepted.\<close>

fun paused :: "env \<Rightarrow> nat \<Rightarrow> history \<Rightarrow> bool" where
  "paused w i [] \<longleftrightarrow> False"
| "paused w i ((k, Virsh args) # h) \<longleftrightarrow>
     (if k = i \<and> args \<noteq> [] \<and> hd args = lit ''suspend'' then is_ok (world_virsh w i args h)
      else if k = i \<and> args \<noteq> [] \<and> hd args = lit ''resume'' then False
      else paused w i h)"
| "paused w i (e # h) \<longleftrightarrow> paused w i h"

text \<open>The newest saved state of a VM is unlatched and records a command with this target.\<close>

definition recorded :: "nat \<Rightarrow> u64 \<Rightarrow> history \<Rightarrow> bool" where
  "recorded i tgt h \<longleftrightarrow>
     (case durable i h of
        None \<Rightarrow> False
      | Some c \<Rightarrow> \<not> latched c \<and> (case intent c of None \<Rightarrow> False | Some it \<Rightarrow> target_bytes it = tgt))"

definition allowed :: "env \<Rightarrow> resize_sink \<Rightarrow> rust_str list \<Rightarrow> history \<Rightarrow> bool" where
  "allowed w sink args h \<longleftrightarrow>
     args = [lit ''suspend'', sink_vm_name sink] \<or> args = [lit ''resume'', sink_vm_name sink]
     \<or> (\<exists>tgt kib. bytes_to_kibibytes tgt = Some kib \<and> args = update_args sink kib
          \<and> (paused w (sink_index sink) h \<or> recorded (sink_index sink) tgt h))"

fun covered :: "env \<Rightarrow> (nat \<Rightarrow> resize_sink) \<Rightarrow> history \<Rightarrow> bool" where
  "covered w sinks [] \<longleftrightarrow> True"
| "covered w sinks ((i, Virsh args) # h) \<longleftrightarrow> covered w sinks h \<and> (mutating args \<longrightarrow> allowed w (sinks i) args h)"
| "covered w sinks (e # h) \<longleftrightarrow> covered w sinks h"

lemma covered_event: "covered w sinks h \<Longrightarrow> \<not> is_command e \<Longrightarrow> covered w sinks (e # h)"
  by (cases e rule: is_command.cases) auto

interpretation cover: event_invariant "covered w sinks" for w sinks
  by unfold_locales (rule covered_event)

lemma covered_quiet: "quiet h h' \<Longrightarrow> covered w sinks h \<Longrightarrow> covered w sinks h'"
proof -
  have "\<forall>e\<in>set g. \<not> is_command e \<Longrightarrow> covered w sinks h \<Longrightarrow> covered w sinks (g @ h)" for g
    by (induction g) (simp_all add: covered_event)
  then show "quiet h h' \<Longrightarrow> covered w sinks h \<Longrightarrow> covered w sinks h'" by (auto simp: quiet_def)
qed

lemma paused_event: "\<not> is_command e \<Longrightarrow> paused w i (e # h) = paused w i h"
proof (cases e rule: is_command.cases)
  case (1 k args)
  have "lit ''suspend'' \<noteq> lit ''dumpxml''" "lit ''resume'' \<noteq> lit ''dumpxml''" by code_simp+
  then show "\<not> is_command e \<Longrightarrow> paused w i (e # h) = paused w i h" using 1 by (auto simp: mutating_def)
qed auto

lemma paused_quiet: "quiet h h' \<Longrightarrow> paused w i h' = paused w i h"
proof -
  have "\<forall>e\<in>set g. \<not> is_command e \<Longrightarrow> paused w i (g @ h) = paused w i h" for g
    by (induction g) (simp_all add: paused_event)
  then show "quiet h h' \<Longrightarrow> paused w i h' = paused w i h" by (auto simp: quiet_def)
qed

lemma recorded_quiet: "quiet h h' \<Longrightarrow> recorded i tgt h' = recorded i tgt h"
  by (simp add: recorded_def quiet_durable)

lemma covered_sent:
  assumes "sent sink tgt h h'" and "covered w sinks h" and "sinks (sink_index sink) = sink"
    and "paused w (sink_index sink) h \<or> recorded (sink_index sink) tgt h"
  shows "covered w sinks h'"
proof -
  from assms(1) obtain g kib where g: "quiet h g" "bytes_to_kibibytes tgt = Some kib"
      "h' = (sink_index sink, Virsh (update_args sink kib)) # g"
    by (auto simp: sent_def)
  have "allowed w sink (update_args sink kib) g"
    unfolding allowed_def using assms(4) g by (auto simp: paused_quiet recorded_quiet)
  then show ?thesis using g assms(2,3) by (simp add: covered_quiet)
qed

section \<open>Commands\<close>

text \<open>A guarded resize of a recorded target keeps the history covered, whatever its outcome.\<close>

lemma covered_resize:
  assumes "guarded_resize resize sink" and "covered w sinks h" and "sinks (sink_index sink) = sink"
    and "recorded (sink_index sink) tgt h"
  shows "wp (resize expected tgt) (\<lambda>_. covered w sinks) (\<lambda>_. covered w sinks) h"
  by (rule wp_mono [OF guarded_resize.resize_law [OF assms(1)]])
    (use assms(2-) covered_sent covered_quiet in \<open>auto split: resize_sink_error.splits\<close>)

text \<open>Widening pauses first; what it requests while paused is covered by the pause.\<close>

lemma covered_update:
  assumes "covered w sinks h" and "paused w (sink_index sink) h" and "sinks (sink_index sink) = sink"
    and "bytes_to_kibibytes tgt = Some kib"
  shows "wp (apply_prepared w sink (update_args sink kib))
    (\<lambda>_ h'. covered w sinks h' \<and> paused w (sink_index sink) h') (\<lambda>_ h'. covered w sinks h' \<and> paused w (sink_index sink) h') h"
proof -
  have neq: "lit ''update-memory-device'' \<noteq> lit ''suspend''" "lit ''update-memory-device'' \<noteq> lit ''resume''" by code_simp+
  have "allowed w sink (update_args sink kib) h" using assms(2,4) by (auto simp: allowed_def)
  then have "covered w sinks ((sink_index sink, Virsh (update_args sink kib)) # h)"
    and "paused w (sink_index sink) ((sink_index sink, Virsh (update_args sink kib)) # h)"
    using assms(1-3) neq by (simp_all add: update_args_def)
  then show ?thesis
    unfolding apply_prepared_def run_virsh_def wp_bind wp_ask wp_ret by (auto split: sum.split simp del: paused.simps covered.simps)
qed

lemma covered_restore:
  assumes "covered w sinks h" and "paused w (sink_index sink) h" and "sinks (sink_index sink) = sink"
    and "bytes_to_kibibytes (requested_bytes expected) = Some kib"
  shows "wp (restore_request w sink expected (update_args sink kib)) (\<lambda>_. covered w sinks) (\<lambda>_. covered w sinks) h"
  unfolding restore_request_def wp_bind wp_attempt
proof (rule wp_mono [OF covered_update [OF assms]], goal_cases)
  case (2 e h1)
  show ?case
    unfolding sum.case wp_bind prepare_restore_def
  proof (rule wp_mono [OF wp_prepare], goal_cases)
    case (1 args h2)
    then obtain kib' where "args = update_args sink kib'" "bytes_to_kibibytes (requested_bytes expected) = Some kib'"
      and h2: "covered w sinks h2" "paused w (sink_index sink) h2"
      using 2 by (auto simp: covered_quiet paused_quiet)
    then show ?case using wp_mono [OF covered_update [OF h2 assms(3)]] by simp
  qed (use 2 covered_quiet in blast)
qed (simp add: wp_ret)

lemma covered_domain:
  assumes "covered w sinks h" and "sinks (sink_index sink) = sink" and "op = ''suspend'' \<or> op = ''resume''"
  shows "wp (domain w sink op) (\<lambda>_ h'. covered w sinks h' \<and> (op = ''suspend'' \<longrightarrow> paused w (sink_index sink) h'))
    (\<lambda>_. covered w sinks) h"
proof -
  have "covered w sinks ((sink_index sink, Virsh [lit op, sink_vm_name sink]) # h)"
    using assms by (auto simp: allowed_def)
  then show ?thesis by (auto simp: domain_def run_virsh_def wp_simps is_ok_iff split: sum.split)
qed

lemma covered_widen:
  assumes "covered w sinks h" and "sinks (sink_index sink) = sink"
  shows "wp (widen_usable_region_guarded w sink expected) (\<lambda>_. covered w sinks) (\<lambda>_. covered w sinks) h"
  unfolding widen_usable_region_guarded_def Let_def
proof (subst wp_bind, subst wp_map_error, rule wp_mono [OF wp_prepare], goal_cases)
  case (1 widen h1)
  then obtain k1 where k1: "widen = update_args sink k1" "bytes_to_kibibytes (device_maximum_target expected) = Some k1" by blast
  have h1: "covered w sinks h1" using 1 assms(1) covered_quiet by blast
  show ?case
  proof (subst wp_bind, subst wp_map_error, rule wp_mono [OF wp_prepare], goal_cases)
    case (1 restore h2)
    then obtain k2 where k2: "restore = update_args sink k2" "bytes_to_kibibytes (requested_bytes expected) = Some k2" by blast
    let ?h3 = "(sink_index sink, ReadStop) # h2"
    have h3: "covered w sinks ?h3" using 1 h1 covered_quiet by auto
    show ?case
      unfolding wp_bind stop_requested_def wp_ask sum.case wp_if wp_map_error
    proof (simp add: wp_raise h3 [simplified], intro impI, rule wp_mono [OF covered_domain [OF h3 assms(2)]], goal_cases)
      case (2 u h4)
      then have h4: "covered w sinks h4" "paused w (sink_index sink) h4" by simp_all
      have resumed: "wp (domain w sink ''resume'') (\<lambda>_. wp (case r of Inr _ \<Rightarrow> ret () | Inl e \<Rightarrow> raise (g e))
          (\<lambda>_. covered w sinks) (\<lambda>_. covered w sinks)) (\<lambda>_. covered w sinks) h'"
        if "covered w sinks h'" for h' r and g :: "rust_str \<Rightarrow> resize_sink_error"
        by (rule wp_mono [OF covered_domain [OF that assms(2)]]) (auto simp: wp_simps split: sum.split)
      have restored: "wp (restore_request w sink expected (update_args sink k2)) (\<lambda>_. wp (domain w sink ''resume'')
          (\<lambda>_. wp (case r of Inr _ \<Rightarrow> ret () | Inl e \<Rightarrow> raise (g e)) (\<lambda>_. covered w sinks) (\<lambda>_. covered w sinks))
            (\<lambda>_. covered w sinks)) (\<lambda>_. covered w sinks) h'"
        if "covered w sinks h' \<and> paused w (sink_index sink) h'" for h' r and g :: "rust_str \<Rightarrow> resize_sink_error"
        by (rule wp_mono [OF covered_restore [where sinks = sinks and sink = sink, OF _ _ assms(2) k2(2)]]) (use that resumed in auto)
      show ?case
        unfolding wp_attempt k1(1) k2(1) by (rule wp_mono [OF covered_update [OF h4 assms(2) k1(2)] restored restored])
    qed simp_all
  qed (use h1 covered_quiet in blast)
qed (use assms covered_quiet in blast)

section \<open>Steps that command\<close>

text \<open>The resize adapter of a configuration, and the invariant of the controllers.\<close>

definition config_sink :: "nat \<Rightarrow> host_config \<Rightarrow> resize_sink" where
  "config_sink i hc = \<lparr>sink_index = i, sink_vm_name = hc_vm_name hc, sink_alias = hc_alias hc\<rparr>"

lemma vm_sink_config: "vm_sink i v = config_sink i (vc_config v)"
  by (simp add: vm_sink_def config_sink_def)

abbreviation own :: "(nat \<Rightarrow> resize_sink) \<Rightarrow> nat \<Rightarrow> host_config \<Rightarrow> bool" where
  "own sinks i hc \<equiv> config_sink i hc = sinks i"

lemma own_index: "own sinks i hc \<Longrightarrow> sink_index (sinks i) = i"
  by (metis config_sink_def resize_sink.select_convs(1))

abbreviation "held w sinks i \<equiv> inv_of (covered w sinks) (settled_inv (own sinks i))"

abbreviation "free w sinks i \<equiv> inv_of (covered w sinks) (free_inv (own sinks i))"

abbreviation "leads w sinks i \<equiv> triple (free w sinks i) (held w sinks i) (\<lambda>c. covered w sinks (hist c))"

lemma free_held: "free w sinks i c \<Longrightarrow> held w sinks i c"
  by (simp add: inv_of_def latch_settled_def)

lemma leads_survives: "survives (covered w sinks) (settled_inv (own sinks i)) m \<Longrightarrow> leads w sinks i m"
  by (erule triple_mono) (use free_held in auto)

lemma leads_keeps: "keeps (free w sinks i) m \<Longrightarrow> leads w sinks i m"
  by (erule triple_mono) (use free_held in \<open>auto simp: inv_of_def\<close>)

text \<open>After a save the recorded command is durable, and the resize of its target is covered.\<close>

lemma save_records:
  assumes "free w sinks i c" and "intent (control (vm c)) = Some it"
  shows "wp (save w i) (\<lambda>_ c'. free w sinks i c' \<and> vm c' = vm c \<and> host_committed c' = host_committed c
      \<and> recorded i (target_bytes it) (hist c')) (\<lambda>_ c'. covered w sinks (hist c')) c"
  using assms
  by (auto simp: save_def persist_control_def wp_def bind_def gets_def io_def map_error_def Let_def inv_of_def
      recorded_def checkpoint_contents_def split: sum.split prod.split)

lemma recorded_resize:
  assumes "free w sinks i c" and "recorded i tgt (hist c)" and "guarded_resize resize (vm_sink i (vm c))"
  shows "wp (io (attempt (resize expected tgt)) :: (resize_sink_error + unit) act)
    (\<lambda>_. free w sinks i) (\<lambda>_ c'. covered w sinks (hist c')) c"
proof -
  have "wp (resize expected tgt) (\<lambda>_. covered w sinks) (\<lambda>_. covered w sinks) (hist c)"
    by (rule covered_resize [OF assms(3)]) (use assms(1,2) in \<open>auto simp: inv_of_def vm_sink_config own_index\<close>)
  then show ?thesis
    unfolding wp_io wp_attempt by (rule wp_mono) (use assms(1) in \<open>auto simp: inv_of_def\<close>)
qed

text \<open>Saving, retargeting and logging, as settling and extending do.\<close>

lemma retarget_saved:
  assumes c: "free w sinks i c" "intent (control (vm c)) = Some it" "target_bytes it = tgt"
    and f: "\<And>v. vc_config (f v) = vc_config v" "\<And>v. control (f v) = control v"
    and rest: "\<And>r. leads w sinks i (rest r)"
  shows "wp (bind (save w i) (\<lambda>_. bind (modify f) (\<lambda>_. bind (gets (vm_sink i)) (\<lambda>sink.
      bind (io (attempt (retarget_pending_guarded w sink state tgt))) (\<lambda>command. bind (log i ev) (\<lambda>_. rest command))))))
    (\<lambda>_. held w sinks i) (\<lambda>_ c. covered w sinks (hist c)) c"
  unfolding wp_bind wp_modify wp_gets
proof (rule wp_mono [OF save_records [OF c(1,2)]], goal_cases)
  case (1 u c1)
  have "free w sinks i (c1\<lparr>vm := f (vm c1)\<rparr>)" "recorded i tgt (hist (c1\<lparr>vm := f (vm c1)\<rparr>))"
    using 1 c(3) f by (auto simp: inv_of_def)
  then show ?case
    by (rule wp_mono [OF recorded_resize [OF _ _ retarget.guarded_resize_axioms]])
      (auto intro: tripleD [OF keeps_bind [OF keeps_survives [OF cover.keeps_log] rest], unfolded wp_bind])
qed

lemmas cover_then = keeps_bind [OF keeps_survives [OF keeps_io [OF cover.keeps_effects(4)]]]
  keeps_bind [OF keeps_survives [OF keeps_io [OF cover.keeps_effects(2)]]]
  keeps_bind [OF keeps_survives [OF keeps_io [OF cover.keeps_effects(3)]]]
  keeps_bind [OF keeps_survives [OF cover.keeps_operation_id]] keeps_bind [OF keeps_survives [OF cover.keeps_now]]
  keeps_bind [OF keeps_survives [OF cover.keeps_log]] keeps_bind [OF keeps_survives [OF cover.keeps_tolerance]]

lemma settle_short_leads: "leads w sinks i (settle_short w i dir state)"
  unfolding settle_short_def
proof (intro cover_then keeps_if leads_keeps [OF keeps_ret], goal_cases)
  case (1 stopped op t)
  show ?case
    by (rule tripleI, subst wp_bind, subst set_control_def, subst wp_modify, rule retarget_saved)
      (auto simp: inv_of_def settle_intent_def intro!: keeps_rules leads_survives cover.surviving)
qed

lemma send_extension_leads:
  assumes "free w sinks i c" and "intent (control (vm c)) = Some it"
  shows "wp (send_extension w i state op step_bytes tgt) (\<lambda>_. held w sinks i) (\<lambda>_ c. covered w sinks (hist c)) c"
  unfolding send_extension_def
  by (subst wp_bind, subst set_control_def, subst wp_modify, rule retarget_saved [where it = "it\<lparr>target_bytes := tgt\<rparr>"])
    (use assms in \<open>auto simp: inv_of_def intro!: keeps_rules leads_survives cover.surviving\<close>)

lemma stall_at_floor_leads: "leads w sinks i (stall_at_floor w i state)"
  unfolding stall_at_floor_def
  by (intro keeps_bind [OF keeps_gets] keeps_bind [OF keeps_option] cover_then keeps_if settle_short_leads
      leads_survives [OF keeps_bind [OF keeps_survives [OF cover.keeps_log_health] keeps_ret]] keeps_prod keeps_ret)

lemma extend_shrink_leads: "leads w sinks i (extend_shrink w i state base_ram)"
proof (rule tripleI)
  fix c assume c: "free w sinks i c"
  show "wp (extend_shrink w i state base_ram) (\<lambda>_. held w sinks i) (\<lambda>_ c. covered w sinks (hist c)) c"
  proof (cases "intent (control (vm c))")
    case None
    then show ?thesis using free_held [OF c] by (simp add: extend_shrink_def wp_simps)
  next
    case (Some it)
    let ?c1 = "c\<lparr>vm := (vm c)\<lparr>extension := None\<rparr>\<rparr>"
    let ?c2 = "?c1\<lparr>hist := (i, ReadStop) # hist ?c1\<rparr>"
    have c1: "free w sinks i ?c1" "free w sinks i ?c2" using c by (simp_all add: inv_of_def)
    have sending: "wp (send_extension w i state (operation_id it) step_bytes tgt) (\<lambda>_. held w sinks i)
        (\<lambda>_ c. covered w sinks (hist c)) ?c2" for step_bytes tgt
      by (rule send_extension_leads [OF c1(2)]) (simp add: Some)
    have at_goal: "wp (bind (log i ''shrink_extension_done'') (\<lambda>_. settle_short w i Shrink state))
        (\<lambda>_. held w sinks i) (\<lambda>_ c. covered w sinks (hist c)) c"
      by (rule tripleD [where I = "free w sinks i"]) (intro cover_then settle_short_leads c)+
    show ?thesis
      unfolding extend_shrink_def wp_bind wp_gets Some option.case Let_def wp_if
      using tripleD [OF stall_at_floor_leads c1(1)] sending free_held [OF c1(2)] at_goal
      by (auto simp: wp_simps stop_requested_def split: option.split)
  qed
qed

lemma finish_pending_leads: "leads w sinks i (finish_pending w i state dir b)"
  unfolding finish_pending_def
  by (intro keeps_if keeps_direction settle_short_leads
      leads_survives [OF keeps_bind [OF keeps_survives [OF cover.keeps_log_health] keeps_ret]]
      leads_survives [OF keeps_bind [OF cover.survives_convergence_stop keeps_ret]])

lemma pending_shrink_leads: "leads w sinks i (pending_shrink w i state)"
  unfolding pending_shrink_def
  by (intro keeps_bind [OF keeps_gets] keeps_bind [OF keeps_io [OF keeps_attempt [OF cover.keeps_guest_read]]] cover_then
      keeps_bind [OF keeps_survives [OF keeps_io [OF keeps_attempt [OF cover.keeps_guest_read]]]]
      keeps_bind [OF keeps_survives [OF cover.keeps_command_stalled]]
      keeps_if keeps_option finish_pending_leads extend_shrink_leads)

lemma pending_grow_leads: "leads w sinks i (pending_grow w i state)"
  unfolding pending_grow_def
  by (intro keeps_bind [OF keeps_gets] keeps_if finish_pending_leads
      keeps_bind [OF keeps_survives [OF cover.keeps_command_stalled]])

text \<open>From any settled controller: the commanding branches are taken only when it is not latched.\<close>

lemma unlatched_leads:
  assumes "leads w sinks i m" and "held w sinks i c" and "\<not> latched (control (vm c))"
  shows "wp m (\<lambda>_. held w sinks i) (\<lambda>_ c. covered w sinks (hist c)) c"
  using assms(2,3) by (intro tripleD [OF assms(1)]) (simp add: inv_of_def)

lemma observe_pending_survives: "survives (covered w sinks) (settled_inv (own sinks i)) (observe_pending w i state)"
proof (rule tripleI)
  fix c assume c: "held w sinks i c"
  have settling: "wp (bind (pending_elapsed w i) (finish_pending w i state dir)) (\<lambda>_. held w sinks i) (\<lambda>_ c. covered w sinks (hist c)) c"
    if "dir = SettleGrow \<or> dir = SettleShrink" for dir
    by (rule tripleD [where I = "held w sinks i", OF _ c])
      (intro keeps_bind [OF keeps_survives [OF cover.keeps_pending_elapsed]] cover.survives_settling [OF that])
  have holding: "wp (finish_pending w i state dir False) (\<lambda>_. held w sinks i) (\<lambda>_ c. covered w sinks (hist c)) c" for dir
    by (rule tripleD [OF keeps_survives [OF cover.keeps_finish_held] c])
  have reporting: "wp (bind (log i ''ownership_conflict'') (\<lambda>_. bind (modify (\<lambda>v. v\<lparr>unowned_divergence_reported := True\<rparr>)) (\<lambda>_. ret Wait)) :: step act)
      (\<lambda>_. held w sinks i) (\<lambda>_ c. covered w sinks (hist c)) c"
    by (rule tripleD [where I = "held w sinks i", OF _ c]) (intro cover_then keeps_bind [OF keeps_modify] keeps_ret; simp)
  show "wp (observe_pending w i state) (\<lambda>_. held w sinks i) (\<lambda>_ c. covered w sinks (hist c)) c"
    unfolding observe_pending_def wp_bind [of "gets f" for f] wp_gets Let_def
    using c settling holding reporting unlatched_leads [OF pending_grow_leads c] unlatched_leads [OF pending_shrink_leads c]
    by (auto simp: wp_ret split: option.split command_direction.split)
qed

lemma widen_survives: "survives (covered w sinks) (settled_inv (own sinks i)) (widen_usable_region w i state)"
  unfolding widen_usable_region_def
proof (intro keeps_bind [OF keeps_modify] keeps_gets_bind cover_then keeps_if keeps_ret, goal_cases)
  case (3 u v stopped u' started)
  have "keeps (covered w sinks) (widen_usable_region_guarded w (vm_sink i v) state)"
    using 3(1) covered_widen [where sinks = sinks and sink = "vm_sink i v"]
    by (intro tripleI) (auto simp: vm_sink_config own_index)
  then have "survives (covered w sinks) (settled_inv (own sinks i)) (io (attempt (widen_usable_region_guarded w (vm_sink i v) state)))"
    by (intro keeps_survives keeps_io keeps_attempt)
  then show ?case
    by (rule keeps_bind) (intro cover_then keeps_rules cover.surviving)
qed simp_all

text \<open>A request is ready only on an unlatched controller.\<close>

abbreviation "ready_post w sinks i seen c \<equiv>
  held w sinks i c \<and> (\<forall>rd. seen = Ready rd \<longrightarrow> own sinks i (vc_config (vm c)) \<and> \<not> latched (control (vm c)))"

lemma wp_not_ready:
  assumes "survives (covered w sinks) (settled_inv (own sinks i)) m" and "held w sinks i c" and "\<And>rd. x \<noteq> Ready rd"
  shows "wp (bind m (\<lambda>_. ret x)) (ready_post w sinks i) (\<lambda>_ c. covered w sinks (hist c)) c"
  by (rule wp_then [OF assms(1,2)]) (use assms(3) in \<open>simp add: wp_ret\<close>)

lemma admission_cases:
  fixes x :: "'e + request_admission \<times> 'b"
  obtains e where "x = Inl e" | j where "x = Inr (New, j)" | j where "x = Inr (Replay, j)"
proof (cases x)
  case (Inr p)
  then show ?thesis using that(2,3) by (cases p; cases "fst p") auto
qed (rule that(1))

lemma consider_ready:
  assumes "held w sinks i c" and "\<And>rd. obs \<noteq> Ready rd"
  shows "wp (consider_request w i state obs r base) (ready_post w sinks i) (\<lambda>_ c. covered w sinks (hist c)) c"
  unfolding consider_request_def
proof (rule wp_then [OF keeps_survives [OF cover.keeps_note_request] assms(1)],
    rule wp_then [OF keeps_survives [OF cover.keeps_now]], assumption,
    rule wp_then [OF keeps_survives [OF cover.keeps_tolerance]], assumption, goal_cases)
  case (1 u c1 t c2 tolerance c3)
  let ?v = "vm c3"
  have refusing: "wp (bind (log i ''controller_decision'') (\<lambda>_. bind (publish w i state x) (\<lambda>_. ret obs)))
      (ready_post w sinks i) (\<lambda>_ c. covered w sinks (hist c)) c3" for x
    by (rule wp_then [OF keeps_survives [OF cover.keeps_log] 1(3)])
      (rule wp_not_ready [OF keeps_survives [OF cover.keeps_publish] _ assms(2)])
  have replay: "\<not> latched (control ?v)"
    if "admit (journal (control ?v)) r vn sn t tolerance = Inr (Replay, j)" "j_result (journal (control ?v)) = None" for vn sn j
    using that 1(3) by (auto simp: admit_Replay_iff inv_of_def latch_settled_def)
  let ?a = "admit (journal (control ?v)) r (hc_vm_name (vc_config ?v)) (raw_telemetry_service_name (vc_config ?v)) t tolerance"
  consider e where "?a = Inl e" | j where "?a = Inr (New, j)" | j where "?a = Inr (Replay, j)"
    by (rule admission_cases)
  then show ?case
  proof cases
    case (2 j)
    then show ?thesis using 1(3) refusing by (auto simp: wp_gets_bind wp_ret inv_of_def)
  next
    case (3 j)
    then show ?thesis
      using 1(3) replay wp_not_ready [OF keeps_survives [OF cover.keeps_publish] 1(3) assms(2)] by (auto simp: wp_gets_bind wp_ret inv_of_def)
  qed (use refusing in \<open>simp add: wp_gets_bind\<close>)
qed

lemma observe_converged_ready:
  assumes "held w sinks i c" and "\<And>rd. obs \<noteq> Ready rd"
  shows "wp (observe_converged w i state obs) (ready_post w sinks i) (\<lambda>_ c. covered w sinks (hist c)) c"
  unfolding observe_converged_def
proof (rule wp_then [OF keeps_modify assms(1)], simp, rule wp_then [OF keeps_gets], assumption,
    rule wp_then [where I = "held w sinks i" and M = "held w sinks i"], goal_cases)
  case (1 u c1 due c2)
  show ?case by (intro keeps_if widen_survives keeps_ret)
next
  case (3 u c1 due c2 step c3)
  have publishing: "wp (bind (publish w i state x) (\<lambda>_. ret obs)) (ready_post w sinks i) (\<lambda>_ c. covered w sinks (hist c)) c"
    if "held w sinks i c" for x c
    by (rule wp_not_ready [OF keeps_survives [OF cover.keeps_publish] that assms(2)])
  show ?case
  proof (cases step)
    case Wait
    show ?thesis
      unfolding Wait step.case
    proof (rule wp_then [OF keeps_survives [OF cover.keeps_read_request] 3(3)], goal_cases)
      case (1 input c4)
      then show ?case
        using publishing consider_ready [OF _ assms(2)]
        by (cases input) (auto split: option.split prod.split)
    qed
  qed (use 3 in \<open>simp add: wp_ret\<close>)
qed

lemma observe_pending_ready:
  assumes "held w sinks i c" and "\<And>rd. obs \<noteq> Ready rd"
  shows "wp (bind (observe_pending w i state) (\<lambda>step. bind (publish w i state None) (\<lambda>_.
      ret (case step of Wait \<Rightarrow> obs | Stop e \<Rightarrow> Stopping e)))) (ready_post w sinks i) (\<lambda>_ c. covered w sinks (hist c)) c"
  by (rule wp_then [OF observe_pending_survives assms(1)], rule wp_not_ready [OF keeps_survives [OF cover.keeps_publish]], assumption)
    (use assms(2) in \<open>auto split: step.split\<close>)

lemma observe_unreadable_ready:
  assumes "held w sinks i c"
  shows "wp (observe_unreadable w i e) (ready_post w sinks i) (\<lambda>_ c. covered w sinks (hist c)) c"
proof -
  have "wp (observe_unreadable w i e) (\<lambda>seen _. \<forall>rd. seen \<noteq> Ready rd) (\<lambda>_ _. True) c"
    by (rule wpI) (auto simp: observe_unreadable_def bind_def gets_def split: prod.splits sum.splits if_splits)
  from wp_conj [OF tripleD [OF cover.survives_unreadable assms] this] show ?thesis by (rule wp_mono) auto
qed

lemma observe_ready:
  assumes "held w sinks i c"
  shows "wp (observe w i) (ready_post w sinks i) (\<lambda>_ c. covered w sinks (hist c)) c"
  unfolding observe_def
proof (rule wp_then [where I = "held w sinks i" and M = "held w sinks i", OF _ assms], goal_cases)
  case 1
  show ?case by (intro keeps_rules cover.surviving)
next
  case (2 live c1)
  show ?case
  proof (cases live)
    case (Inl e)
    then show ?thesis using observe_unreadable_ready [OF 2] by simp
  next
    case (Inr state)
    show ?thesis
      unfolding Inr sum.case
      by (rule wp_then [OF keeps_modify 2], simp add: charge_state_def, subst wp_bind, subst wp_gets,
          rule wp_then [OF cover.survives_resolve_intent], assumption)
        (simp only: split: if_split, intro conjI impI observe_pending_ready observe_converged_ready; (assumption | simp))
  qed
qed

section \<open>Acting\<close>

lemma authorization_quiet: "wp (grow_authorization w i p hr cur tgt) (\<lambda>_. quiet h) (\<lambda>_. quiet h) h"
  by (auto simp: grow_authorization_def host_available_def wp_simps split: sum.split)

lemma request_guarded:
  "guarded_resize (\<lambda>expected tgt. request_resize_guarded w sink expected tgt (grow_authorization w i p hr (cur expected) tgt)) sink"
  by unfold_locales (rule wp_request_resize [OF authorization_quiet])

text \<open>Between the save and the command the recorded target stays durable.\<close>

abbreviation "poised w sinks i tgt \<equiv> inv_of (\<lambda>h. covered w sinks h \<and> recorded i tgt h) (free_inv (own sinks i))"

lemma poised_instants:
  "maintains (poised w sinks i tgt) (\<lambda>c. covered w sinks (hist c)) (io (instant_now w k) :: duration act)"
  "maintains (poised w sinks i tgt) (\<lambda>c. covered w sinks (hist c)) (io (elapsed w k t) :: duration act)"
  by (rule tripleI, auto simp: effect_defs wp_simps inv_of_def recorded_def)+

lemma poised_resize:
  assumes "guarded_resize resize (sinks i)"
  shows "triple (poised w sinks i tgt) (free w sinks i) (\<lambda>c. covered w sinks (hist c))
    (io (attempt (resize expected tgt)) :: (resize_sink_error + unit) act)"
proof (rule tripleI)
  fix c assume c: "poised w sinks i tgt c"
  then have "free w sinks i c" "recorded i tgt (hist c)" "vm_sink i (vm c) = sinks i"
    by (auto simp: inv_of_def vm_sink_config)
  with recorded_resize [of w sinks i c tgt resize expected] assms
  show "wp (io (attempt (resize expected tgt)) :: (resize_sink_error + unit) act)
    (\<lambda>_. free w sinks i) (\<lambda>_ c'. covered w sinks (hist c')) c" by simp
qed

lemma execute_command:
  fixes rest :: "resize_sink_error + unit \<Rightarrow> step act"
  assumes "\<And>r. leads w sinks i (rest r)"
  shows "triple (poised w sinks i tgt) (held w sinks i) (\<lambda>c. covered w sinks (hist c))
    (bind (\<lambda>c. (Inr (host_committed c), c)) (\<lambda>previously.
     bind (\<lambda>c. (Inr (), c\<lparr>host_committed := add c\<rparr>)) (\<lambda>_.
     bind (modify (\<lambda>v. v\<lparr>outstanding_growth := Some g\<rparr>)) (\<lambda>_.
     bind (gets (\<lambda>v. v)) (\<lambda>v.
     bind (io (elapsed w i started)) (\<lambda>_.
     bind (io (instant_now w i)) (\<lambda>t0.
     bind (io (attempt (request_resize_guarded w (vm_sink i v) state tgt
         (grow_authorization w i previously (hc_host_min_headroom_bytes (vc_config v)) (current_bytes state) tgt)))) (\<lambda>r.
     bind (io (elapsed w i t0)) (\<lambda>_. bind (log i ev) (\<lambda>_. rest r))))))))))"
proof (intro keeps_bind [OF keeps_peek] keeps_bind [OF keeps_commit] keeps_bind [OF keeps_modify] keeps_gets_bind
    keeps_bind [OF poised_instants(1)] keeps_bind [OF poised_instants(2)], goal_cases)
  case (2 previously u u' v e t0)
  then have v: "vm_sink i v = sinks i" by (simp add: vm_sink_config)
  show ?case
    unfolding v
    by (rule triple_bind [OF poised_resize [OF request_guarded [where cur = current_bytes]]]) (intro cover_then assms)
qed simp

lemma save_poised:
  assumes "free w sinks i c" and "intent (control (vm c)) = Some it" and "target_bytes it = tgt"
  shows "wp (save w i) (\<lambda>_. poised w sinks i tgt) (\<lambda>_ c'. covered w sinks (hist c')) c"
  by (rule wp_mono [OF save_records [OF assms(1,2)]]) (use assms(3) in \<open>auto simp: inv_of_def\<close>)

lemma execute_leads: "leads w sinks i (execute w i rd t started grant)"
  unfolding execute_def Let_def
proof (rule keeps_prod, intro cover_then keeps_if leads_keeps [OF keeps_ret], goal_cases)
  case (1 dir tgt stopped op)
  show ?case
  proof (rule keeps_bind, goal_cases)
    case 1
    show ?case by (intro keeps_if keeps_ret keeps_survives [OF cover.keeps_admit_free])
  next
    case (2 u)
    show ?case
      proof (rule tripleI, subst wp_bind, subst set_control_def, subst wp_modify, subst wp_bind, rule wp_mono [OF save_poised [where w = w and sinks = sinks and i = i and tgt = tgt]], goal_cases)
        case (4 c u c')
        then show ?case
          by (intro tripleD [OF execute_command [OF leads_survives [OF cover.survives_resize_outcome]]]) simp
      qed (auto simp: inv_of_def)
  qed
qed

lemma act_leads: "leads w sinks i (act w i rd ceiling)"
  unfolding act_def
  by (intro cover_then keeps_bind [OF keeps_gets] keeps_sum keeps_if leads_keeps [OF cover.keeps_refuse_free]
      keeps_bind [OF keeps_survives [OF cover.keeps_grant]] leads_keeps [OF cover.keeps_unexecuted_free] execute_leads)

interpretation covered_round:
  round_invariant "covered w sinks" w "\<lambda>i. settled_inv (own sinks i)"
    "\<lambda>i _ v. own sinks i (vc_config v) \<and> \<not> latched (control v)" for w sinks
proof (unfold_locales, goal_cases)
  case (2 i c rd ceiling)
  then show ?case using unlatched_leads [OF act_leads] by simp
qed (rule observe_ready, assumption, rule keeps_survives [OF cover.keeps_observe_stopped],
    rule keeps_survives [OF cover.keeps_stop_vm])

section \<open>Property\<close>

text \<open>
  C1. However long the daemon runs and whatever the guests, the host, libvirt, the disk and the clocks
  do, every command it ever sends for a VM names that VM and its device, and is one of these: a pause or
  a resume; a resize to exactly the target of the intent in the newest checkpoint the VM has durably
  written, which is not latched; or a resize while the domain is paused by the daemon. So a crash at any
  moment leaves the command that may have been sent recorded, and a latched VM is never resized.
\<close>

theorem commands_are_durable:
  assumes "new_runtime vms pool = Inr s" and "\<forall>v\<in>set vms. wf_control (control v)"
    and "run w n s = (r, s')"
  shows "covered w (\<lambda>i. vm_sink i (vms ! i)) (rt_hist s')"
proof -
  let ?sinks = "\<lambda>i. vm_sink i (vms ! i)"
  have "all_inv (covered w ?sinks) (\<lambda>i. settled_inv (own ?sinks i)) s"
    using assms(1,2)
    by (auto simp: new_runtime_def all_inv_def vm_sink_config wf_control_def latch_settled_def split: if_splits)
  from covered_round.run_law [OF this, of n] show ?thesis
    using assms(3) by (cases r) (auto simp: wp_def all_inv_def)
qed

theorem commands_are_durable_witness:
  "covered asking_env (\<lambda>i. vm_sink i ([sample_controller running_config] ! i))
     (rt_hist (snd (run asking_env 3 (sample_runtime running_config))))"
proof -
  have "\<forall>v\<in>set [sample_controller running_config]. wf_control (control v)"
    by (simp add: sample_controller_def new_controller_def wf_control_default)
  from commands_are_durable [OF sample_runtime_new this prod.collapse [symmetric]] show ?thesis .
qed

end
