(* ===== verification/Control_Refinement.thy ===== *)
theory Control_Refinement
  imports Round_Invariants
begin

text \<open>
  The control state the daemon keeps on disk refines a small abstract machine: a journal and a latch that
  is set once. The locale below states what a relation between the history, the configuration and the
  control state must satisfy to survive every step of a controller; the refinement is one of its
  instances, and that the other VMs do not disturb it is another.
\<close>

section \<open>Relations between the history and the control state\<close>

type_synonym control_rel = "history \<Rightarrow> host_config \<Rightarrow> checkpoint \<Rightarrow> durable_control_state \<Rightarrow> bool"

definition related :: "control_rel \<Rightarrow> ctx \<Rightarrow> bool" where
  "related G c \<longleftrightarrow> G (hist c) (vc_config (vm c)) (vc_checkpoint (vm c)) (control (vm c))"

locale control_relation =
  fixes i :: nat
    and G :: control_rel
  assumes event: "G h hc cp c \<Longrightarrow> \<not> is_persist e \<Longrightarrow> G (e # h) hc cp c"
    and saved: "G h hc cp c \<Longrightarrow> G ((i, Persist (checkpoint_contents cp c) r) # h) hc cp c"
    and concluded: "G h hc cp c \<Longrightarrow> record_result (journal c) x = Inr j \<Longrightarrow> G h hc cp (c\<lparr>journal := j\<rparr>)"
    and admitted: "G h hc cp c \<Longrightarrow> admit (journal c) rq (hc_vm_name hc) (raw_telemetry_service_name hc) t tolerance = Inr (a, j) \<Longrightarrow>
      G h hc cp (c\<lparr>journal := j\<rparr>)"
    and latching: "G h hc cp c \<Longrightarrow> \<not> latched c \<Longrightarrow> G h hc cp (c\<lparr>latch_reason := Some why\<rparr>)"
    and intended: "G h hc cp c \<Longrightarrow> G h hc cp (c\<lparr>intent := it\<rparr>)"
begin

abbreviation rel_keeps :: "(ctx, 'e, 'a) prog \<Rightarrow> bool" where
  "rel_keeps m \<equiv> keeps (related G) m"

lemma hist_ask: "\<not> is_persist (k, e) \<Longrightarrow> keeps (\<lambda>h. G h hc cp c) (ask k e f)"
  by (auto simp: triple_def wp_simps event split: sum.splits)

lemma hist_tell: "\<not> is_persist (k, e) \<Longrightarrow> keeps (\<lambda>h. G h hc cp c) (tell k e)"
  by (auto simp: triple_def wp_simps event)

lemma rel_io: "(\<And>hc cp c. keeps (\<lambda>h. G h hc cp c) m) \<Longrightarrow> rel_keeps (io m)"
  by (auto simp: triple_def related_def wp_simps elim: wp_mono)

lemma hist_effects:
  "keeps (\<lambda>h. G h hc cp c) (now_unix_millis w k)" "keeps (\<lambda>h. G h hc cp c) (instant_now w k)"
  "keeps (\<lambda>h. G h hc cp c) (elapsed w k t)" "keeps (\<lambda>h. G h hc cp c) (stop_requested w k)"
  "keeps (\<lambda>h. G h hc cp c) (run_virsh w k args)" "keeps (\<lambda>h. G h hc cp c) (host_available w k)"
  "keeps (\<lambda>h. G h hc cp c) (compatibility w k)"
  unfolding effect_defs by (intro keeps_rules hist_ask; simp)+

lemma hist_memory_state: "keeps (\<lambda>h. G h hc cp c) (memory_state w k name alias)"
  unfolding memory_state_def dump_xml_def by (intro keeps_rules hist_effects)

lemma hist_guest_read: "keeps (\<lambda>h. G h hc cp c) (guest_read w k ch)"
  unfolding guest_read_def read_file_def by (intro keeps_rules hist_effects hist_ask; simp)

lemma hist_publish_status: "keeps (\<lambda>h. G h hc cp c) (publish_status w k ch s)"
  unfolding publish_status_def refresh_due_def by (intro keeps_rules hist_effects hist_ask hist_tell; simp)

lemma hist_prepare: "keeps (\<lambda>h. G h hc cp c) (prepare w sink tgt pre)"
  unfolding prepare_def dump_xml_def by (intro keeps_rules hist_effects)

lemma hist_apply: "keeps (\<lambda>h. G h hc cp c) (apply_prepared w sink args)"
  unfolding apply_prepared_def by (intro keeps_rules hist_effects)

lemma hist_apply_unless_stopped: "keeps (\<lambda>h. G h hc cp c) (apply_unless_stopped w sink args)"
  unfolding apply_unless_stopped_def by (intro keeps_rules hist_effects hist_apply)

lemma hist_retarget: "keeps (\<lambda>h. G h hc cp c) (retarget_pending_guarded w sink expected tgt)"
  unfolding retarget_pending_guarded_def by (intro keeps_rules hist_prepare hist_apply_unless_stopped)

lemma hist_authorization: "keeps (\<lambda>h. G h hc cp c) (grow_authorization w k p hr cur tgt)"
  unfolding grow_authorization_def by (intro keeps_rules hist_effects)

lemma hist_request: "keeps (\<lambda>h. G h hc cp c) (request_resize_guarded w sink expected tgt (grow_authorization w k p hr cur tgt))"
  unfolding request_resize_guarded_def by (intro keeps_rules hist_prepare hist_apply_unless_stopped hist_authorization)

lemma hist_widen: "keeps (\<lambda>h. G h hc cp c) (widen_usable_region_guarded w sink expected)"
  unfolding widen_usable_region_guarded_def restore_request_def prepare_restore_def domain_def Let_def
  by (intro keeps_rules hist_prepare hist_apply hist_effects)

text \<open>Steps of the controller.\<close>

lemma rel_modify: "(\<And>v. vc_config (f v) = vc_config v \<and> vc_checkpoint (f v) = vc_checkpoint v \<and> control (f v) = control v) \<Longrightarrow> rel_keeps (modify f)"
  by (simp add: triple_def related_def wp_simps)

lemma rel_commit: "rel_keeps (\<lambda>c. (Inr (), c\<lparr>host_committed := f c\<rparr>))"
  by (simp add: triple_def wp_def related_def)

lemma rel_log: "rel_keeps (log k ev)"
  unfolding log_def by (intro rel_io hist_tell) simp

lemma rel_now: "rel_keeps (now w k)"
  unfolding now_def by (intro keeps_rules rel_io hist_effects)

lemma rel_tolerance: "rel_keeps future_tolerance_millis"
  unfolding future_tolerance_millis_def by (intro keeps_rules)

lemma rel_operation_id: "rel_keeps (next_operation_id w)"
  unfolding next_operation_id_def by (intro keeps_rules rel_modify) simp

lemma rel_save: "rel_keeps (save w i)"
  by (auto simp: triple_def related_def wp_def save_def persist_control_def bind_def gets_def io_def map_error_def
      Let_def saved split: sum.splits)

lemma rel_intent: "rel_keeps (set_control (\<lambda>c. c\<lparr>intent := f c\<rparr>))"
  by (simp add: triple_def related_def wp_simps set_control_def intended)

lemma rel_record: "rel_keeps (record_journal x)"
  by (auto simp: triple_def related_def wp_simps record_journal_def set_control_def concluded result_simps split: sum.splits)

lemma rel_admit: "rel_keeps (admit_journal r t)"
  unfolding admit_journal_def
  by (rule keeps_bind [OF rel_tolerance])
    (auto simp: triple_def related_def wp_simps set_control_def result_simps split: sum.splits intro: admitted)

lemma rel_latch_reason:
  "\<not> latched (control (vm c)) \<Longrightarrow> related G c \<Longrightarrow>
     related G (c\<lparr>vm := (vm c)\<lparr>control := (control (vm c))\<lparr>latch_reason := Some why\<rparr>\<rparr>\<rparr>)"
  by (simp add: related_def latching)

lemmas rel_steps = keeps_rules rel_io hist_effects hist_ask hist_tell rel_modify rel_log rel_now rel_tolerance
  rel_operation_id rel_save rel_intent rel_record rel_admit rel_commit hist_memory_state hist_guest_read hist_publish_status
  hist_retarget hist_request hist_widen

lemma rel_latch: "rel_keeps (latch w i why)"
proof (rule tripleI)
  fix c assume c: "related G c"
  let ?c1 = "c\<lparr>vm := (vm c)\<lparr>control := (control (vm c))\<lparr>latch_reason := Some (bounded_reason why)\<rparr>\<rparr>\<rparr>"
  have "rel_keeps (bind (case (j_request (journal (control (vm c))), j_result (journal (control (vm c)))) of
                 (Some r, None) \<Rightarrow> bind (now w i) (\<lambda>t. record_journal \<lparr>request = r, outcome = Uncertain, actual_bytes = 0,
                                     result_observed_unix_millis = t, reason = Some (bounded_reason why)\<rparr>)
               | _ \<Rightarrow> ret ()) (\<lambda>_. bind (save w i) (\<lambda>_. log i ''actuation_latched'')))"
    by (intro rel_steps)
  from tripleD [OF this, of ?c1] show "wp (latch w i why) (\<lambda>_. related G) (\<lambda>_. related G) c"
    using c rel_latch_reason [OF _ c]
    by (simp add: latch_def Let_def wp_bind [of "gets f" for f] wp_bind [of "set_control f" for f] wp_gets set_control_def
        wp_bind [of "modify f" for f] wp_modify wp_ret)
qed

lemma rel_publish: "rel_keeps (publish w k state refusal)"
  unfolding publish_def by (intro rel_steps; simp)

lemma rel_record_unexecuted: "rel_keeps (record_unexecuted w i state a x)"
  unfolding record_unexecuted_def by (intro rel_steps rel_publish)

lemma rel_refuse: "rel_keeps (refuse w i state r a why)"
  unfolding refuse_def Let_def by (intro rel_steps rel_publish rel_record_unexecuted)

lemma rel_convergence_stop: "rel_keeps (convergence_timeout_stop w i name)"
  unfolding convergence_timeout_stop_def by (intro rel_steps rel_latch)

lemma rel_command_stalled: "rel_keeps (command_stalled w k state)"
  unfolding command_stalled_def Let_def by (intro rel_steps; simp)

lemma rel_pending_elapsed: "rel_keeps (pending_elapsed w k)"
  unfolding pending_elapsed_def Let_def by (intro rel_steps; simp)

lemma rel_log_health: "rel_keeps (log_pending_health w k state)"
  unfolding log_pending_health_def by (intro rel_steps; simp)

lemma rel_settle_short: "rel_keeps (settle_short w i dir state)"
  unfolding settle_short_def by (intro rel_steps rel_latch; simp)

lemma rel_send_extension: "rel_keeps (send_extension w i state op step_bytes tgt)"
  unfolding send_extension_def by (intro rel_steps rel_latch; simp)

lemma rel_stall_at_floor: "rel_keeps (stall_at_floor w i state)"
  unfolding stall_at_floor_def by (intro rel_steps rel_settle_short rel_log_health)

lemma rel_extend_shrink: "rel_keeps (extend_shrink w i state base)"
  unfolding extend_shrink_def Let_def by (intro rel_steps rel_settle_short rel_stall_at_floor rel_send_extension; simp)

lemma rel_widen: "rel_keeps (widen_usable_region w i state)"
  unfolding widen_usable_region_def by (intro rel_steps rel_latch; simp)

lemma rel_resolve_intent: "rel_keeps (resolve_intent w i live)"
  unfolding resolve_intent_def by (intro rel_steps rel_latch; simp)

lemma rel_finish_pending: "rel_keeps (finish_pending w i state dir b)"
  unfolding finish_pending_def by (intro rel_steps rel_log_health rel_convergence_stop rel_settle_short)

lemma rel_observe_pending: "rel_keeps (observe_pending w i state)"
  unfolding observe_pending_def pending_grow_def pending_shrink_def Let_def
  by (intro rel_steps rel_finish_pending rel_command_stalled rel_extend_shrink rel_pending_elapsed; simp)

lemma rel_live_state: "rel_keeps (live_state w k)"
  unfolding live_state_def by (intro rel_steps)

lemma rel_observe_stopped: "rel_keeps (observe_stopped w k)"
  unfolding observe_stopped_def by (intro rel_steps rel_live_state) (simp add: charge_state_def)

lemma rel_stop_vm: "rel_keeps (stop_vm k)"
  unfolding stop_vm_def by (intro rel_steps) simp

lemma rel_read_request: "rel_keeps (read_request w k state)"
  unfolding read_request_def by (intro rel_steps; simp)

lemma rel_note_request: "rel_keeps (note_request k r)"
  unfolding note_request_def by (intro rel_steps; simp)

lemma rel_consider: "rel_keeps (consider_request w k state held r base)"
  unfolding consider_request_def Let_def by (intro rel_note_request rel_steps rel_publish; simp)

lemma rel_observe_converged: "rel_keeps (observe_converged w i state held)"
  unfolding observe_converged_def by (intro rel_steps rel_widen rel_read_request rel_consider rel_publish; simp)

lemma rel_observe: "rel_keeps (observe w i)"
  unfolding observe_def observe_unreadable_def
  by (intro rel_steps rel_live_state rel_latch rel_resolve_intent rel_observe_pending rel_publish rel_observe_converged;
      simp add: charge_state_def)

lemma rel_resize_outcome: "rel_keeps (resize_outcome w i rd t dir command)"
proof -
  have clear: "rel_keeps (modify (\<lambda>v. v\<lparr>control := (control v)\<lparr>intent := None\<rparr>, outstanding_growth := Some 0\<rparr>))"
    by (simp add: triple_def related_def wp_simps intended)
  show ?thesis
    unfolding resize_outcome_def
    by (intro keeps_bind [OF clear] rel_steps rel_latch rel_publish rel_record_unexecuted; simp)
qed

lemma rel_execute: "rel_keeps (execute w i rd t started grant)"
  unfolding execute_def Let_def by (intro rel_steps rel_resize_outcome; simp)

lemma rel_act: "rel_keeps (act w i rd ceiling)"
  unfolding act_def grant_bytes_def Let_def by (intro rel_steps rel_refuse rel_record_unexecuted rel_execute)

lemma rel_observe_vm: "rel_keeps (observe_vm w i)"
  unfolding observe_vm_def by (intro rel_steps rel_observe rel_observe_stopped rel_stop_vm)

lemma rel_act_vm: "rel_keeps (act_vm w i rd ceiling)"
  unfolding act_vm_def by (intro rel_steps rel_act rel_stop_vm)

end

section \<open>Rounds\<close>

definition all_related :: "(nat \<Rightarrow> control_rel) \<Rightarrow> nat \<Rightarrow> host_runtime \<Rightarrow> bool" where
  "all_related Gs n s \<longleftrightarrow> length (rt_vms s) = n
     \<and> (\<forall>k<n. Gs k (rt_hist s) (vc_config (rt_vms s ! k)) (vc_checkpoint (rt_vms s ! k)) (control (rt_vms s ! k)))"

text \<open>A relation per VM that no other VM's checkpoint disturbs holds over every run of the daemon.\<close>

locale control_relations =
  fixes Gs :: "nat \<Rightarrow> control_rel"
  assumes each: "control_relation i (Gs i)"
    and others: "k \<noteq> i \<Longrightarrow> Gs k h hc cp c \<Longrightarrow> Gs k ((i, Persist f r) # h) hc cp c"
begin

text \<open>For a step of one VM, the relation of another is a constant one.\<close>

lemma bystander: "k \<noteq> i \<Longrightarrow> control_relation i (\<lambda>h _ _ _. Gs k h hc cp c)"
  using others by unfold_locales (auto intro: control_relation.event [OF each])

lemma with_vm_related:
  assumes own: "\<And>G. control_relation i G \<Longrightarrow> keeps (related G) m" and i: "i < n"
  shows "keeps (all_related Gs n) (with_vm i m)"
proof (rule tripleI)
  fix s assume s: "all_related Gs n s"
  let ?c = "\<lparr>vm = rt_vms s ! i, host_committed = rt_committed s, hist = rt_hist s\<rparr>"
  obtain r c' where m: "m ?c = (r, c')" by (cases "m ?c")
  let ?s' = "s\<lparr>rt_vms := (rt_vms s)[i := vm c'], rt_committed := host_committed c', rt_hist := hist c'\<rparr>"
  have "Gs k (hist c') (vc_config (rt_vms ?s' ! k)) (vc_checkpoint (rt_vms ?s' ! k)) (control (rt_vms ?s' ! k))" if k: "k < n" for k
  proof (cases "k = i")
    case True
    have "related (Gs i) ?c" using s i by (simp add: all_related_def related_def)
    from keeps_state [OF own [OF each] this m] show ?thesis
      using True s i by (simp add: related_def all_related_def)
  next
    case False
    have "related (\<lambda>h _ _ _. Gs k h (vc_config (rt_vms s ! k)) (vc_checkpoint (rt_vms s ! k)) (control (rt_vms s ! k))) ?c"
      using s k by (simp add: all_related_def related_def)
    from keeps_state [OF own [OF bystander [OF False]] this m] show ?thesis
      using False by (simp add: related_def)
  qed
  then have "all_related Gs n ?s'" using s by (simp add: all_related_def)
  then show "wp (with_vm i m) (\<lambda>_. all_related Gs n) (\<lambda>_. all_related Gs n) s"
    by (simp add: wp_def with_vm_def m split: sum.split)
qed

lemma rt_event: "\<not> is_persist e \<Longrightarrow> all_related Gs n s \<Longrightarrow> all_related Gs n (s\<lparr>rt_hist := e # rt_hist s\<rparr>)"
  by (auto simp: all_related_def intro: control_relation.event [OF each])

lemma rt_stop: "keeps (all_related Gs n) (rt_io (stop_requested w k))"
  by (rule tripleI) (simp add: wp_simps stop_requested_def rt_event)

lemma rt_read: "keeps (all_related Gs n) (\<lambda>s. (f s, s))"
  by (rule tripleI) (simp add: wp_def split: sum.split)

lemma observe_all_related: "\<forall>i\<in>set is. i < n \<Longrightarrow> keeps (all_related Gs n) (observe_all w is)"
proof (induction "is")
  case (Cons i "is")
  have "keeps (all_related Gs n) (with_vm i (observe_vm w i))"
    by (rule with_vm_related [OF control_relation.rel_observe_vm]) (use Cons in simp_all)
  then show ?case using Cons by (auto intro!: keeps_rules rt_stop)
qed (simp add: keeps_ret)

lemma act_all_related: "\<forall>i\<in>set is. i < n \<Longrightarrow> keeps (all_related Gs n) (act_all w seen ceilings is failed)"
proof (induction "is" arbitrary: failed)
  case (Cons i "is")
  have "keeps (all_related Gs n) (with_vm i (act_vm w i rd ceiling))" for rd ceiling
    by (rule with_vm_related [OF control_relation.rel_act_vm]) (use Cons in simp_all)
  then show ?case using Cons by (auto intro!: keeps_rules keeps_observed rt_stop)
qed (simp add: keeps_ret)

lemma act_order_below: "i \<in> set (act_order vms) \<Longrightarrow> i < length vms"
  by (simp add: act_order_def)

lemma round_related: "keeps (all_related Gs n) (round w)"
proof -
  have acting: "keeps (all_related Gs n) (bind (\<lambda>s. (Inr (act_order (rt_vms s)), s\<lparr>rt_committed := outstanding_total (rt_vms s)\<rparr>))
      (\<lambda>order. bind (act_all w seen ceilings order failed) rest))"
    if "\<And>x. keeps (all_related Gs n) (rest x)" for seen ceilings failed and rest :: "host_runtime_error option \<Rightarrow> step rt"
  proof (rule tripleI, subst wp_bind, subst wp_fun, subst sum.case, rule tripleD)
    fix s assume s: "all_related Gs n s"
    then show "all_related Gs n (s\<lparr>rt_committed := outstanding_total (rt_vms s)\<rparr>)" by (simp add: all_related_def)
    have "\<forall>i\<in>set (act_order (rt_vms s)). i < n" using act_order_below s by (auto simp: all_related_def)
    then show "keeps (all_related Gs n) (bind (act_all w seen ceilings (act_order (rt_vms s)) failed) rest)"
      by (intro keeps_bind act_all_related that)
  qed
  show ?thesis
    unfolding round_def
  proof (rule tripleI, subst wp_bind, subst wp_fun, subst sum.case, rule tripleD [where I = "all_related Gs n"], goal_cases)
    case (1 s)
    then have "length (rt_vms s) = n" by (simp add: all_related_def)
    then show ?case
      by (intro keeps_bind [OF observe_all_related] keeps_option keeps_prod keeps_ret keeps_bind [OF rt_stop] keeps_if
          keeps_bind [OF rt_read] acting) simp_all
  qed
qed

lemma run_related: "keeps (all_related Gs n) (run w m)"
proof (induction m)
  case (Suc m)
  have "keeps (all_related Gs n) (rt_io (tell 0 (Waited d)))" for d
    by (rule tripleI) (simp add: wp_simps rt_event)
  then show ?case using Suc by (auto intro!: keeps_rules keeps_step rt_stop rt_read round_related)
qed (simp add: keeps_ret)

end

section \<open>The abstract machine\<close>

text \<open>
  What an operator may rely on of the checkpoints of a VM: a journal that moves only by its own
  operations, and a latch that is set at most once and never changed. Intents, and everything the daemon
  keeps in memory, are invisible at this level.
\<close>

record latched_journal =
  lj_latch :: "rust_str option"
  lj_journal :: memory_request_journal

inductive spec_step :: "rust_str \<Rightarrow> rust_str \<Rightarrow> latched_journal \<Rightarrow> latched_journal \<Rightarrow> bool" for name service where
  spec_admit: "admit (lj_journal a) r name service t tolerance = Inr (d, j) \<Longrightarrow> spec_step name service a (a\<lparr>lj_journal := j\<rparr>)"
| spec_conclude: "record_result (lj_journal a) x = Inr j \<Longrightarrow> spec_step name service a (a\<lparr>lj_journal := j\<rparr>)"
| spec_latch: "lj_latch a = None \<Longrightarrow> spec_step name service a (a\<lparr>lj_latch := Some why\<rparr>)"

inductive_cases spec_stepE: "spec_step name service a b"

definition abs_control :: "durable_control_state \<Rightarrow> latched_journal" where
  "abs_control c = \<lparr>lj_latch = latch_reason c, lj_journal = journal c\<rparr>"

lemma abs_control_sel [simp]: "lj_latch (abs_control c) = latch_reason c" "lj_journal (abs_control c) = journal c"
  by (simp_all add: abs_control_def)

lemma abs_control_update [simp]:
  "abs_control (c\<lparr>intent := it\<rparr>) = abs_control c"
  "abs_control (c\<lparr>journal := j\<rparr>) = (abs_control c)\<lparr>lj_journal := j\<rparr>"
  "abs_control (c\<lparr>latch_reason := l\<rparr>) = (abs_control c)\<lparr>lj_latch := l\<rparr>"
  by (simp_all add: abs_control_def)

definition spec_reaches :: "host_config \<Rightarrow> durable_control_state \<Rightarrow> durable_control_state \<Rightarrow> bool" where
  "spec_reaches hc old c \<longleftrightarrow>
     (spec_step (hc_vm_name hc) (raw_telemetry_service_name hc))\<^sup>*\<^sup>* (abs_control old) (abs_control c)"

lemma spec_reaches_refl [simp]: "spec_reaches hc c c"
  by (simp add: spec_reaches_def)

lemma spec_reaches_trans: "spec_reaches hc a b \<Longrightarrow> spec_reaches hc b c \<Longrightarrow> spec_reaches hc a c"
  unfolding spec_reaches_def by (rule rtranclp_trans)

lemma spec_reaches_step:
  "spec_reaches hc a b \<Longrightarrow> spec_step (hc_vm_name hc) (raw_telemetry_service_name hc) (abs_control b) (abs_control c) \<Longrightarrow> spec_reaches hc a c"
  unfolding spec_reaches_def by (rule rtranclp.rtrancl_into_rtrancl)

text \<open>The control states a VM has written, the newest first.\<close>

fun written :: "nat \<Rightarrow> history \<Rightarrow> durable_control_state list" where
  "written i [] = []"
| "written i ((k, Persist f r) # h) = (if k = i then cf_control f # written i h else written i h)"
| "written i (e # h) = written i h"

lemma written_event: "\<not> is_persist e \<Longrightarrow> written i (e # h) = written i h"
  by (cases e rule: is_persist.cases) auto

definition refines :: "host_config list \<Rightarrow> durable_control_state list \<Rightarrow> nat \<Rightarrow> control_rel" where
  "refines hcs cs k h hc cp c \<longleftrightarrow> hc = hcs ! k
     \<and> successively (\<lambda>new old. spec_reaches hc old new) (written k h @ [cs ! k])
     \<and> spec_reaches hc (hd (written k h @ [cs ! k])) c"

lemma refines_step:
  assumes "refines hcs cs k h hc cp c" and "spec_step (hc_vm_name hc) (raw_telemetry_service_name hc) (abs_control c) (abs_control c')"
  shows "refines hcs cs k h hc cp c'"
  using assms by (auto simp: refines_def intro: spec_reaches_step)

interpretation refinement: control_relations "refines hcs cs" for hcs cs
proof (unfold_locales, goal_cases)
  case (1 i h hc cp c e)
  then show ?case by (auto simp: refines_def written_event)
next
  case (2 i h hc cp c r)
  then show ?case
    by (cases "written i h") (auto simp: refines_def checkpoint_contents_def)
next
  case (3 i h hc cp c x j)
  then show ?case by (auto intro!: refines_step [OF 3(1)] spec_conclude [where a = "abs_control c", simplified])
next
  case (4 i h hc cp c r t tolerance a j)
  then show ?case by (auto intro!: refines_step [OF 4(1)] spec_admit [where a = "abs_control c", simplified])
next
  case (5 i h hc cp c why)
  then show ?case by (auto intro!: refines_step [OF 5(1)] spec_latch [where a = "abs_control c", simplified] simp: latched_def)
next
  case (6 i h hc cp c it)
  then show ?case by (auto simp: refines_def spec_reaches_def)
next
  case (7 k i h hc cp c f r)
  then show ?case by (auto simp: refines_def)
qed

lemma run_refines:
  assumes "new_runtime vms pool = Inr s" and "k < length vms" and "run w n s = (r, s')"
  shows "successively (\<lambda>new old. spec_reaches (vc_config (vms ! k)) old new) (written k (rt_hist s') @ [control (vms ! k)])"
proof -
  let ?hcs = "map vc_config vms" and ?cs = "map control vms"
  have s: "s = \<lparr>rt_vms = vms, rt_pool_bytes = pool, rt_committed = 0, rt_hist = []\<rparr>"
    using assms(1) by (simp add: new_runtime_def split: if_splits)
  have "all_related (refines ?hcs ?cs) (length vms) s" by (simp add: s all_related_def refines_def)
  from keeps_state [OF refinement.run_related this assms(3)] show ?thesis
    using assms(2) by (auto simp: all_related_def refines_def)
qed

section \<open>Properties\<close>

text \<open>
  C3. Over every run the control states a VM writes, from the one it was started with to the newest,
  refine the abstract machine: each follows from the one before it by admissions and results of the
  journal, for this VM and its service, and by setting the latch once. This holds for every VM of the
  daemon, whatever the others do, and for writes that fail as well as for those that succeed.
\<close>

theorem checkpoints_refine_journal:
  assumes "new_runtime vms pool = Inr s" and "k < length vms" and "run w n s = (r, s')"
  shows "successively (\<lambda>new old. spec_reaches (vc_config (vms ! k)) old new) (written k (rt_hist s') @ [control (vms ! k)])"
  using assms by (rule run_refines)

theorem checkpoints_refine_journal_witness:
  "successively (\<lambda>new old. spec_reaches running_config old new)
     (written 0 (rt_hist (snd (run asking_env 3 (sample_runtime running_config)))) @ [default_control])"
  using checkpoints_refine_journal [OF sample_runtime_new [of running_config] _ prod.collapse [symmetric], of 0 asking_env 3]
  by (simp add: sample_controller_def new_controller_def)

text \<open>What the abstract machine guarantees passes to the checkpoints.\<close>

lemma spec_step_latch: "spec_step name service a b \<Longrightarrow> lj_latch a \<noteq> None \<Longrightarrow> lj_latch b = lj_latch a"
  by (auto elim: spec_stepE)

lemma spec_steps_latch: "(spec_step name service)\<^sup>*\<^sup>* a b \<Longrightarrow> lj_latch a \<noteq> None \<Longrightarrow> lj_latch b = lj_latch a"
  by (induction rule: rtranclp_induct) (auto dest: spec_step_latch)

text \<open>The admitted request of a journal only ever gives way to one issued later.\<close>

definition watermark_le :: "memory_request_journal \<Rightarrow> memory_request_journal \<Rightarrow> bool" where
  "watermark_le old new \<longleftrightarrow>
     (case j_request old of
        None \<Rightarrow> True
      | Some p \<Rightarrow> (case j_request new of None \<Rightarrow> False | Some r \<Rightarrow> r = p \<or> issued_unix_millis p < issued_unix_millis r))"

lemma watermark_refl: "watermark_le j j"
  by (simp add: watermark_le_def split: option.split)

lemma watermark_trans: "watermark_le a b \<Longrightarrow> watermark_le b c \<Longrightarrow> watermark_le a c"
  by (auto simp: watermark_le_def split: option.splits)

lemma admit_watermark: "admit j r vn sn t tolerance = Inr (d, j') \<Longrightarrow> watermark_le j j'"
  by (cases d) (auto simp: admit_New_iff admit_Replay_iff watermark_le_def split: option.split)

lemma record_watermark: "record_result j x = Inr j' \<Longrightarrow> watermark_le j j'"
  using record_result_answers [of j x j'] by (auto simp: watermark_le_def split: option.split)

lemma spec_step_watermark: "spec_step name service a b \<Longrightarrow> watermark_le (lj_journal a) (lj_journal b)"
  by (elim spec_stepE) (auto intro: admit_watermark record_watermark watermark_refl)

lemma spec_steps_watermark: "(spec_step name service)\<^sup>*\<^sup>* a b \<Longrightarrow> watermark_le (lj_journal a) (lj_journal b)"
  by (induction rule: rtranclp_induct) (auto intro: watermark_refl watermark_trans spec_step_watermark)

text \<open>
  C6. Once a checkpoint of a VM carries a latch, every later checkpoint of the run carries the same latch
  with the same reason, so that only the operator's command ends it; and the admitted request is never
  forgotten: a later checkpoint holds the same request or one that was issued later.
\<close>

theorem latch_and_watermark_are_permanent:
  assumes "new_runtime vms pool = Inr s" and "k < length vms" and "run w n s = (r, s')"
  shows "sorted_wrt (\<lambda>new old. (latched old \<longrightarrow> latch_reason new = latch_reason old)
      \<and> watermark_le (journal old) (journal new)) (written k (rt_hist s') @ [control (vms ! k)])"
proof -
  let ?R = "\<lambda>new old. spec_reaches (vc_config (vms ! k)) old new"
  have "transp ?R" by (intro transpI) (rule spec_reaches_trans)
  then have "sorted_wrt ?R (written k (rt_hist s') @ [control (vms ! k)])"
    using run_refines [OF assms] successively_conv_sorted_wrt by blast
  then show ?thesis
    by (rule sorted_wrt_mono_rel [rotated])
      (auto simp: spec_reaches_def latched_def dest: spec_steps_latch spec_steps_watermark)
qed

theorem latch_and_watermark_are_permanent_witness:
  "sorted_wrt (\<lambda>new old. (latched old \<longrightarrow> latch_reason new = latch_reason old)
      \<and> watermark_le (journal old) (journal new))
     (written 0 (rt_hist (snd (run asking_env 3 (sample_runtime running_config)))) @ [default_control])"
  using latch_and_watermark_are_permanent [OF sample_runtime_new [of running_config] _ prod.collapse [symmetric], of 0 asking_env 3]
  by (simp add: sample_controller_def new_controller_def)

end
