(* ===== verification/Command_Resolution.thy ===== *)
theory Command_Resolution
  imports Control_Refinement
begin

text \<open>
  A command that has converged is resolved by the next observation: its request gets a terminal result,
  durably, and the intent is released. This is the progress a guest relies on, since it issues nothing
  new before it has seen the result.
\<close>

section \<open>Programs that do not fail\<close>

abbreviation total :: "('s, 'e, 'a) prog \<Rightarrow> bool" where
  "total \<equiv> triple (\<lambda>_. True) (\<lambda>_. True) (\<lambda>_. False)"

lemma anything: "triple I (\<lambda>_. True) (\<lambda>_. True) m"
  by (auto simp: triple_def wp_def split: prod.split sum.split)

lemma total_keeps: "keeps I m \<Longrightarrow> total m \<Longrightarrow> maintains I (\<lambda>_. False) m"
  by (force simp: triple_def wp_def split: prod.splits sum.splits)

lemma total_attempt: "total (attempt m)"
  by (rule keeps_attempt [OF anything])

lemma total_io: "total m \<Longrightarrow> total (io m)"
  by (auto simp: triple_def wp_simps elim: wp_mono)

lemma total_modify: "total (modify f)"
  by (simp add: triple_def wp_simps)

lemma total_tell: "total (tell i e)"
  by (simp add: triple_def wp_simps)

lemma total_effects: "total (instant_now w i)" "total (elapsed w i t)" "total (stop_requested w i)"
  by (simp_all add: triple_def effect_defs wp_simps)

lemma total_log: "total (log i ev)"
  unfolding log_def by (intro total_io total_tell)

lemmas total_rules = keeps_rules total_attempt total_io total_modify total_tell total_effects total_log

lemma total_publish: "total (publish w i state refusal)"
  unfolding publish_def by (intro total_rules)

lemma total_read_request: "total (read_request w i state)"
  unfolding read_request_def by (intro total_rules)

lemma total_note_request: "total (note_request i r)"
  unfolding note_request_def by (intro total_rules)

section \<open>A healthy host\<close>

text \<open>The clock answers and a checkpoint below a directory can be written; the guest and libvirt may do anything.\<close>

definition healthy :: "env \<Rightarrow> bool" where
  "healthy w \<longleftrightarrow> (\<forall>h. is_ok (world_clock w h))
     \<and> (\<forall>i h cp c. has_parent (cp_path cp) \<longrightarrow> fst (save_checkpoint (encode_checkpoint w) (world_disk w i h) cp c None) = Inr ())"

definition tolerance_ok :: "host_config \<Rightarrow> bool" where
  "tolerance_ok hc \<longleftrightarrow> 0 \<le> raw_telemetry_future_tolerance hc \<and> raw_telemetry_future_tolerance hc < 2 ^ 64"

lemma healthy_clock: "healthy w \<Longrightarrow> \<exists>t. world_clock w h = Inr t"
  by (simp add: healthy_def is_ok_iff)

lemma total_now:
  assumes "healthy w"
  shows "total (now w i)"
proof (rule tripleI)
  fix c :: ctx
  obtain t where "world_clock w (hist c) = Inr t" using healthy_clock [OF assms] by blast
  then show "wp (now w i) (\<lambda>_ _. True) (\<lambda>_ _. False) c" by (simp add: now_def now_unix_millis_def wp_simps)
qed

section \<open>Resolution\<close>

text \<open>A durable checkpoint released the command and holds the terminal result of the request.\<close>

definition resolved_in :: "nat \<Rightarrow> memory_request \<Rightarrow> history \<Rightarrow> bool" where
  "resolved_in i r h \<longleftrightarrow> (\<exists>f x. (i, Persist f (Inr ())) \<in> set h \<and> intent (cf_control f) = None
     \<and> j_result (journal (cf_control f)) = Some x \<and> terminal x \<and> request x = r)"

interpretation resolving: event_invariant "resolved_in i r" for i r
  by unfold_locales (auto simp: resolved_in_def)

lemma resolved_any: "resolved_in i r h \<Longrightarrow> resolved_in i r (e # h)"
  by (auto simp: resolved_in_def)

interpretation kept: control_relation i "\<lambda>h _ _ _. resolved_in i r h" for i r
  by unfold_locales (simp_all add: resolved_any)

interpretation parent: control_relation i "\<lambda>_ _ cp _. has_parent (cp_path cp)" for i
  by unfold_locales

abbreviation "answered i r c \<equiv>
  inv_of (resolved_in i r) (on_control (\<lambda>hc c. tolerance_ok hc \<and> j_result (journal c) \<noteq> None)) c
  \<and> related (\<lambda>_ _ cp _. has_parent (cp_path cp)) c"

abbreviation "sound i r \<equiv> maintains (answered i r) (\<lambda>_. False)"

lemma total_sound:
  assumes "keeps (inv_of (resolved_in i r) (on_control (\<lambda>hc c. tolerance_ok hc \<and> j_result (journal c) \<noteq> None))) m"
    and "keeps (related (\<lambda>_ _ cp _. has_parent (cp_path cp))) m" and "total m"
  shows "sound i r m"
  using assms by (force simp: triple_def wp_def split: prod.splits sum.splits)

lemma sound_tolerance: "sound i r future_tolerance_millis"
  by (auto simp: triple_def inv_of_def related_def future_tolerance_millis_def tolerance_ok_def wp_simps)

lemma sound_save:
  assumes "healthy w"
  shows "sound i r (save w i)"
  using assms
  by (auto simp: healthy_def triple_def wp_def save_def persist_control_def bind_def gets_def io_def map_error_def Let_def
      inv_of_def related_def resolved_any)

lemma sound_modify:
  "(\<And>v. vc_config (f v) = vc_config v \<and> vc_checkpoint (f v) = vc_checkpoint v \<and> control (f v) = control v) \<Longrightarrow>
   sound i r (modify f)"
  by (simp add: triple_def wp_simps inv_of_def related_def)

lemmas sound_log = total_sound [OF resolving.keeps_log parent.rel_log total_log]

lemma sound_latch:
  assumes "healthy w"
  shows "sound i r (latch w i why)"
proof (rule tripleI)
  fix c assume c: "answered i r c"
  have tail: "sound i r (bind (save w i) (\<lambda>_. log i ''actuation_latched''))"
    by (rule keeps_bind [OF sound_save [OF assms] sound_log])
  let ?c1 = "c\<lparr>vm := (vm c)\<lparr>control := (control (vm c))\<lparr>latch_reason := Some (bounded_reason why)\<rparr>\<rparr>\<rparr>"
  have "answered i r ?c1" using c by (simp add: inv_of_def related_def)
  note latching = tripleD [OF tail this]
  show "wp (latch w i why) (\<lambda>_. answered i r) (\<lambda>_ _. False) c"
  proof (cases "latched (control (vm c))")
    case True
    then show ?thesis using c by (simp add: latch_def wp_gets_bind wp_ret)
  next
    case False
    obtain x where x: "j_result (journal (control (vm c))) = Some x" using c by (auto simp: inv_of_def)
    have none: "(case (a, Some x) of (Some q, None) \<Rightarrow> g q | _ \<Rightarrow> ret ()) = ret ()"
      for a :: "memory_request option" and g :: "memory_request \<Rightarrow> unit act"
      by (simp split: option.split)
    show ?thesis
      unfolding latch_def wp_gets_bind if_not_P [OF False] Let_def set_control_def wp_modify_bind x none
      by (subst wp_bind, subst wp_ret, rule latching)
  qed
qed

lemmas sound_then = keeps_bind [OF sound_modify] keeps_bind [OF keeps_gets] keeps_bind [OF sound_log]
  keeps_bind [OF total_sound [OF keeps_io [OF resolving.keeps_effects(4)] parent.rel_io [OF parent.hist_effects(4)]
    total_io [OF total_effects(3)]]]
  keeps_bind [OF total_sound [OF keeps_io [OF resolving.keeps_effects(2)] parent.rel_io [OF parent.hist_effects(2)]
    total_io [OF total_effects(1)]]]
  keeps_bind [OF total_sound [OF keeps_io [OF resolving.keeps_effects(3)] parent.rel_io [OF parent.hist_effects(3)]
    total_io [OF total_effects(2)]]]
  keeps_bind [OF total_sound [OF resolving.keeps_publish parent.rel_publish total_publish]]
  keeps_bind [OF total_sound [OF resolving.keeps_read_request parent.rel_read_request total_read_request]]
  keeps_bind [OF total_sound [OF resolving.keeps_note_request parent.rel_note_request total_note_request]]
  keeps_bind [OF total_sound [OF keeps_io [OF keeps_attempt [OF kept.hist_widen]]
    parent.rel_io [OF keeps_attempt [OF parent.hist_widen]] total_io [OF total_attempt]]]
  keeps_bind [OF sound_tolerance]

lemmas sound_cases = keeps_if keeps_option keeps_sum keeps_prod keeps_step keeps_sink_error keeps_let keeps_ret

lemma sound_widen:
  assumes "healthy w"
  shows "sound i r (widen_usable_region w i state)"
  unfolding widen_usable_region_def
  by (intro sound_then sound_cases keeps_bind [OF sound_latch [OF assms]]; simp)

lemma sound_consider:
  assumes "healthy w"
  shows "sound i r (consider_request w i state held rq base)"
  unfolding consider_request_def Let_def
  by (intro keeps_bind [OF total_sound [OF resolving.keeps_now parent.rel_now total_now [OF assms]]] sound_then sound_cases; simp)

lemma sound_converged:
  assumes "healthy w"
  shows "sound i r (observe_converged w i state held)"
  unfolding observe_converged_def
  by (intro sound_then keeps_bind [OF keeps_if [OF sound_widen [OF assms] keeps_ret]] sound_cases sound_consider [OF assms]; simp)

lemma resolve_answers:
  assumes w: "healthy w" "tolerance_ok (vc_config (vm c))" "has_parent (cp_path (vc_checkpoint (vm c)))"
    and own: "command_ownership (intent (control (vm c))) live = OwnedConvergedUnresolved"
    and j: "wf_journal (journal (control (vm c)))" "j_request (journal (control (vm c))) = Some r"
      "unresolved (journal (control (vm c)))"
    and clock: "world_clock w (hist c) = Inr t" "t \<noteq> 0"
      "\<forall>p. j_result (journal (control (vm c))) = Some p \<longrightarrow> result_observed_unix_millis p \<le> t"
  shows "wp (resolve_intent w i live) (\<lambda>_. answered i r) (\<lambda>_ _. False) c"
proof -
  let ?j = "journal (control (vm c))"
  obtain it where it: "intent (control (vm c)) = Some it"
    using own by (auto simp: command_ownership_def split: option.splits if_splits)
  obtain x where x: "movement_result ?j it live t (short_reason (direction it)) = Some x"
    using j(2) by (auto simp: movement_result_def Let_def)
  have xr: "request x = r" "terminal x" using movement_result_request [OF x] movement_result_terminal [OF x] j(2) by simp_all
  let ?x = "x\<lparr>reason := map_option bounded_reason (reason x)\<rparr>"
  have rec: "record_result ?j x = Inr (?j\<lparr>j_result := Some ?x\<rparr>)"
    by (rule record_movement [OF x j(1,3) clock(2,3)])
  have ends: "terminal ?x" "request ?x = r" using xr by (simp_all add: terminal_def)
  have saved: "wp (save w i) (\<lambda>_. answered i r) (\<lambda>_ _. False) c'"
    if "intent (control (vm c')) = None" "j_result (journal (control (vm c'))) = Some ?x" "vc_config (vm c') = vc_config (vm c)"
      "vc_checkpoint (vm c') = vc_checkpoint (vm c)" for c'
    using w that ends
    by (auto simp: healthy_def wp_def save_def persist_control_def bind_def gets_def io_def map_error_def Let_def inv_of_def
        related_def resolved_in_def checkpoint_contents_def)
  show ?thesis
    unfolding resolve_intent_def wp_gets_bind own
    unfolding command_ownership_state.case it option.case
    using x rec saved clock(1)
    by (simp add: wp_bind set_control_def wp_modify now_def now_unix_millis_def wp_map_error wp_io wp_ask log_def wp_tell
        record_journal_def wp_gets wp_lift_result it)
qed

section \<open>Property\<close>


text \<open>A growth of the sample VM that has reached its target.\<close>

definition converged_control :: durable_control_state where
  "converged_control =
     \<lparr>latch_reason = None,
      intent = Some \<lparr>operation_id = lit ''7-1'', started_unix_millis = 1006000, direction = Grow,
        prior_requested_bytes = 2145386496, prior_current_bytes = 2145386496, target_bytes = 2147483648\<rparr>,
      journal = \<lparr>j_request = Some (sample_request 1 1005000), j_result = None\<rparr>\<rparr>"

definition converged_ctx :: ctx where
  "converged_ctx = \<lparr>vm = (sample_controller running_config)\<lparr>control := converged_control\<rparr>, host_committed = 0, hist = []\<rparr>"

lemma healthy_sample: "healthy (sample_env live)"
  by (simp add: healthy_def sample_env_def is_ok_iff save_checkpoint_def persist_def sample_fs_def result_simps
      MAX_CHECKPOINT_BYTES_def)


end
