(* ===== verification/Runtime_Bounds.thy ===== *)
theory Runtime_Bounds
  imports Host_Loop
begin

text \<open>
  Bounds of what the control loop asks for: the size of a grant, the targets of an extended removal and
  how often one removal can be extended, and the length of the wait between rounds.
\<close>

section \<open>Grants\<close>

text \<open>Rounding a grant down to the device's blocks meets the shared contract.\<close>

interpretation grant_floor: block_floor "\<lambda>v b. v - v mod b"
  by unfold_locales (simp add: unat_minus_mod)

lemma fold_min_le: "unat (fold min cs a) \<le> unat (a :: u64) \<and> (\<forall>x\<in>set cs. unat (fold min cs a) \<le> unat x)"
proof (induction cs arbitrary: a)
  case (Cons x cs)
  have "unat (min x a) \<le> unat x" "unat (min x a) \<le> unat a" by (auto simp: min_def word_le_nat_alt)
  then show ?case using Cons [of "min x a"] by (auto intro: order_trans)
qed simp

lemma free_bytes_le: "x \<in> set caps \<Longrightarrow> unat (free_bytes caps) \<le> unat x"
  using fold_min_le [of "tl caps" "hd caps"] by (cases caps) (auto simp: free_bytes_def)

text \<open>What a positive number of free bytes under the caps of a growth means.\<close>

lemma grow_caps_bound:
  assumes g: "0 < unat g" "unat g \<le> unat (free_bytes (grow_caps hc rd ceiling available committed))"
  shows "unat g \<le> unat (req_bytes (rd_request rd))"
    and "unat (rd_base_ram rd) + unat (current_bytes (rd_state rd)) + unat g \<le> unat (hc_max_ram hc)"
    and "unat (current_bytes (rd_state rd)) + unat g \<le> unat (device_maximum_target (rd_state rd))"
    and "ceiling = Some cl \<Longrightarrow> unat (current_bytes (rd_state rd)) + unat g \<le> unat cl"
    and "unat g + unat committed + unat (hc_host_min_headroom_bytes hc) + unat GROW_ADMISSION_MARGIN_BYTES \<le> unat available"
proof -
  let ?caps = "grow_caps hc rd ceiling available committed"
  have cap: "unat g \<le> unat x" if "x \<in> set ?caps" for x
    using g(2) free_bytes_le [OF that] by simp
  have members: "req_bytes (rd_request rd) \<in> set ?caps"
    "saturating_sub (saturating_sub (hc_max_ram hc) (rd_base_ram rd)) (current_bytes (rd_state rd)) \<in> set ?caps"
    "saturating_sub (device_maximum_target (rd_state rd)) (current_bytes (rd_state rd)) \<in> set ?caps"
    "ceiling = Some cl \<Longrightarrow> saturating_sub cl (current_bytes (rd_state rd)) \<in> set ?caps"
    "saturating_sub (saturating_sub (saturating_sub available committed) (hc_host_min_headroom_bytes hc))
         GROW_ADMISSION_MARGIN_BYTES \<in> set ?caps"
    by (auto simp: grow_caps_def Let_def)
  note bounds = members [THEN cap, unfolded unat_saturating_sub]
  show "unat g \<le> unat (req_bytes (rd_request rd))" by (rule bounds(1))
  show "unat (rd_base_ram rd) + unat (current_bytes (rd_state rd)) + unat g \<le> unat (hc_max_ram hc)"
    using bounds(2) g(1) by linarith
  show "unat (current_bytes (rd_state rd)) + unat g \<le> unat (device_maximum_target (rd_state rd))"
    using bounds(3) g(1) by linarith
  show "unat (current_bytes (rd_state rd)) + unat g \<le> unat cl" if "ceiling = Some cl"
    using bounds(4) [OF that] g(1) by linarith
  show "unat g + unat committed + unat (hc_host_min_headroom_bytes hc) + unat GROW_ADMISSION_MARGIN_BYTES \<le> unat available"
    using bounds(5) g(1) by linarith
qed

lemma grant_add:
  assumes "grant_bytes w i rd ceiling c = (Inr g, c')" and "operation (rd_request rd) = Add"
  shows "\<exists>available. world_available w (hist c) = Inr available
    \<and> g = (let free = free_bytes (grow_caps (vc_config (vm c)) rd ceiling available (host_committed c))
           in free - free mod block_size_bytes (rd_state rd))"
  using assms
  by (auto simp: grant_bytes_def bind_def gets_def io_def map_error_def host_available_def ask_def log_def tell_def
      ret_def Let_def result_simps split: sum.splits prod.splits)

lemma grant_remove:
  assumes "grant_bytes w i rd ceiling c = (Inr g, c')" and "operation (rd_request rd) = Remove"
  shows "g = (let grant = min (req_bytes (rd_request rd)) (saturating_sub (current_bytes (rd_state rd))
             (saturating_sub (hc_min_ram (vc_config (vm c))) (rd_base_ram rd)))
           in grant - grant mod block_size_bytes (rd_state rd))"
  using assms
  by (auto simp: grant_bytes_def bind_def gets_def io_def log_def tell_def ret_def Let_def split: prod.splits)

text \<open>
  C5. A grant turns into a target the device accepts. A growth asks for no more than the request, keeps
  the guest within \<open>max_ram\<close> and within the pool's ceiling of this round, and leaves the host its
  headroom and margin after everything already committed in the round; a removal takes no more than
  asked and never leaves the guest below \<open>min_ram\<close>.
\<close>

theorem granted_target_is_safe:
  assumes "grant_bytes w i rd ceiling c = (Inr g, c')" and "wf_device (rd_state rd)" and "g \<noteq> 0"
    and "command_for rd g = (dir, tgt)"
  shows "validate_target (rd_state rd) tgt = Inr () \<and> g \<le> req_bytes (rd_request rd)
    \<and> (case operation (rd_request rd) of
         Add \<Rightarrow> dir = Grow \<and> unat tgt = unat (current_bytes (rd_state rd)) + unat g
           \<and> unat (rd_base_ram rd) + unat tgt \<le> unat (hc_max_ram (vc_config (vm c)))
           \<and> (case ceiling of None \<Rightarrow> True | Some cl \<Rightarrow> tgt \<le> cl)
           \<and> (\<exists>available. world_available w (hist c) = Inr available
                \<and> unat g + unat (host_committed c) + unat (hc_host_min_headroom_bytes (vc_config (vm c)))
                    + unat GROW_ADMISSION_MARGIN_BYTES \<le> unat available)
       | Remove \<Rightarrow> dir = Shrink \<and> unat tgt + unat g = unat (current_bytes (rd_state rd))
           \<and> unat (hc_min_ram (vc_config (vm c))) \<le> unat (rd_base_ram rd) + unat tgt)"
proof -
  let ?b = "block_size_bytes (rd_state rd)" and ?cur = "current_bytes (rd_state rd)"
  have b: "0 < unat ?b" using assms(2) by (rule wf_device_block_pos)
  have cur: "unat ?b dvd unat ?cur" "unat ?cur \<le> unat (size_bytes (rd_state rd))"
    using assms(2) by (auto simp: wf_device_def is_multiple_of_dvd word_le_nat_alt)
  have g: "0 < unat g" using assms(3) by (simp add: unat_gt_0)
  show ?thesis
  proof (cases "operation (rd_request rd)")
    case Add
    obtain available where av: "world_available w (hist c) = Inr available"
      and gd: "g = (let free = free_bytes (grow_caps (vc_config (vm c)) rd ceiling available (host_committed c))
           in free - free mod ?b)"
      using grant_add [OF assms(1) Add] by blast
    have le: "unat g \<le> unat (free_bytes (grow_caps (vc_config (vm c)) rd ceiling available (host_committed c)))"
      using grant_floor.floor_le [OF b] by (simp add: gd Let_def word_le_nat_alt)
    have mult: "unat ?b dvd unat g"
      using grant_floor.floor_multiple [OF b] by (simp add: gd Let_def is_multiple_of_dvd)
    note caps = grow_caps_bound [OF g le]
    have "unat ?cur + unat g \<le> unat (size_bytes (rd_state rd))"
      using caps(3) wf_device_maximum [OF assms(2)] by simp
    moreover have t: "tgt = ?cur + g" "dir = Grow" using assms(4) Add by (simp_all add: command_for_def)
    moreover have ut: "unat tgt = unat ?cur + unat g"
      using calculation unat_less_bound [of "size_bytes (rd_state rd)"] by (simp add: unat_add_less)
    ultimately show ?thesis
      using assms(2) Add caps(1,2,5) caps(4) av mult cur
      by (auto simp: validate_target_ok is_multiple_of_dvd word_le_nat_alt split: option.split)
  next
    case Remove
    let ?min = "saturating_sub (hc_min_ram (vc_config (vm c))) (rd_base_ram rd)"
    have gd: "g = (let grant = min (req_bytes (rd_request rd)) (saturating_sub ?cur ?min) in grant - grant mod ?b)"
      using grant_remove [OF assms(1) Remove] .
    have le: "unat g \<le> unat (min (req_bytes (rd_request rd)) (saturating_sub ?cur ?min))"
      using grant_floor.floor_le [OF b] by (simp add: gd Let_def word_le_nat_alt)
    have mult: "unat ?b dvd unat g"
      using grant_floor.floor_multiple [OF b] by (simp add: gd Let_def is_multiple_of_dvd)
    have bound: "unat g \<le> unat (req_bytes (rd_request rd))"
        "unat g \<le> unat ?cur - (unat (hc_min_ram (vc_config (vm c))) - unat (rd_base_ram rd))"
      using le by (auto simp: min_def unat_saturating_sub word_le_nat_alt split: if_splits)
    have t: "tgt = ?cur - g" "dir = Shrink" using assms(4) Remove by (simp_all add: command_for_def)
    have ut: "unat tgt = unat ?cur - unat g" using bound t by (simp add: unat_sub word_le_nat_alt)
    show ?thesis
      using assms(2) Remove bound ut t g cur mult
      by (auto simp: validate_target_ok is_multiple_of_dvd word_le_nat_alt)
  qed
qed

text \<open>The sample guest's request of two MiB is granted in full.\<close>

definition sample_ready :: "memory_operation \<Rightarrow> ready" where
  "sample_ready op = \<lparr>rd_base_ram = 4294967296, rd_state = sample_live,
     rd_request = (sample_request 1 1005000)\<lparr>operation := op\<rparr>, rd_admission = New\<rparr>"

theorem granted_target_is_safe_witness:
  "validate_target sample_live 2149580800 = Inr () \<and> (2149580800 :: u64) \<le> 4294967296"
proof -
  let ?c = "\<lparr>vm = sample_controller running_config, host_committed = 0, hist = []\<rparr>"
  let ?x = "grant_bytes asking_env 0 (sample_ready Add) (Some 4294967296) ?c"
  have g: "fst ?x = Inr 2097152" by code_simp
  then have x: "?x = (Inr 2097152, snd ?x)" by (metis prod.collapse)
  have "validate_device sample_live = Inr ()" by code_simp
  then have wf: "wf_device (rd_state (sample_ready Add))" by (simp add: sample_ready_def validate_device_ok)
  have cmd: "command_for (sample_ready Add) 2097152 = (Grow, 2149580800)" by code_simp
  show ?thesis
    using granted_target_is_safe [OF x wf _ cmd] by (simp add: sample_ready_def)
qed

section \<open>Extending a removal\<close>

lemma multiple_gap:
  fixes x y b :: nat
  assumes "b dvd x" and "b dvd y" and "x < y"
  shows "x + b \<le> y"
proof -
  obtain k m where k: "x = b * k" "y = b * m" using assms(1,2) by (elim dvdE)
  then have "Suc k \<le> m" using assms(3) by simp
  then have "b * Suc k \<le> b * m" by (rule mult_le_mono2)
  then show ?thesis by (simp add: k)
qed

lemma block_multiple_times:
  fixes k b :: u64
  assumes "unat k * unat b < 2 ^ 64"
  shows "unat b dvd unat (k * b)"
  using assms by (simp add: unat_mult_lem [THEN iffD1])

lemma extension_step_small:
  assumes "0 < unat block"
  shows "unat (extension_step previous op current block) * unat block < 2 ^ 64"
proof -
  let ?k = "extension_step previous op current block" and ?M = "unat MAX_EXTENSION_BYTES div unat block"
  have "?k \<le> max (MAX_EXTENSION_BYTES div block) 1"
    by (auto simp: extension_step_def split: option.splits)
  then have "unat ?k \<le> ?M \<or> unat ?k \<le> 1"
    by (auto simp: max_def word_le_nat_alt unat_div split: if_splits)
  then have "unat ?k * unat block \<le> ?M * unat block \<or> unat ?k * unat block \<le> 1 * unat block"
    by (meson mult_le_mono1)
  moreover have "?M * unat block < 2 ^ 64"
    by (rule le_less_trans [OF div_times_less_eq_dividend]) (use unat_less_bound [of MAX_EXTENSION_BYTES] in simp)
  moreover have "unat block < 2 ^ 64" using unat_less_bound [of block] by simp
  ultimately show ?thesis by linarith
qed

lemma round_up_small:
  fixes v b c :: u64
  assumes "0 < unat b" and "unat v \<le> unat c" and "unat b dvd unat c"
  shows "unat (div_ceil v b) * unat b \<le> unat c"
proof -
  obtain m where m: "unat c = unat b * m" using assms(3) by blast
  have "unat v + unat b - 1 < unat b * Suc m" using assms(1,2) m by simp
  then have "(unat v + unat b - 1) div unat b < Suc m"
    using assms(1) by (simp add: div_less_iff_less_mult mult.commute)
  then have "unat (div_ceil v b) \<le> m" by (simp add: unat_div_ceil [OF assms(1)])
  then show ?thesis by (simp add: m mult.commute)
qed

lemma extension_bytes_multiple:
  assumes wf: "wf_device s" and goal: "goal \<le> current_bytes s"
  shows "unat (block_size_bytes s) dvd unat (extension_bytes previous op s goal)"
proof -
  let ?b = "block_size_bytes s" and ?c = "current_bytes s"
  have b: "0 < unat ?b" using wf by (rule wf_device_block_pos)
  have cur: "unat ?b dvd unat ?c" using wf by (simp add: wf_device_def is_multiple_of_dvd)
  have "unat (?c - goal) \<le> unat ?c" using goal by (simp add: unat_sub)
  then have "unat (div_ceil (?c - goal) ?b) * unat ?b < 2 ^ 64"
    using round_up_small [OF b _ cur, of "?c - goal"] unat_less_bound [of ?c] by simp
  then show ?thesis
    using block_multiple_times [OF extension_step_small [OF b]] block_multiple_times
    by (simp add: extension_bytes_def Let_def min_def)
qed

lemma shrink_floor_multiple:
  assumes "0 < unat b" and "shrink_floor hc base b \<noteq> - 1"
  shows "unat b dvd unat (shrink_floor hc base b)"
    and "unat (hc_min_ram hc) \<le> unat base + unat (shrink_floor hc base b)"
proof -
  let ?v = "saturating_sub (hc_min_ram hc) base"
  have f: "shrink_floor hc base b = div_ceil ?v b * b" "unat (div_ceil ?v b) * unat b < 2 ^ 64"
    using assms(2) by (auto simp: shrink_floor_def saturating_mul_def split: if_splits)
  show "unat b dvd unat (shrink_floor hc base b)" unfolding f(1) by (rule block_multiple_times [OF f(2)])
  have "unat (shrink_floor hc base b) = (unat ?v + unat b - 1) div unat b * unat b"
    using f by (simp add: unat_mult_lem [THEN iffD1] unat_div_ceil [OF assms(1)])
  then show "unat (hc_min_ram hc) \<le> unat base + unat (shrink_floor hc base b)"
    using div_ceil_mult_ge(1) [OF assms(1), of "unat ?v"] by (simp add: unat_saturating_sub)
qed

text \<open>One extension: a lower target, by at least a block, and not below the administrator's minimum.\<close>

lemma extension_lowers:
  assumes wf: "wf_device s" and goal: "goal \<le> current_bytes s"
    and t: "extension_target s (extension_bytes previous op s goal) (shrink_floor hc base (block_size_bytes s)) = Some t"
  shows "unat t + unat (block_size_bytes s) \<le> unat (requested_bytes s)"
    and "unat (hc_min_ram hc) \<le> unat base + unat t"
proof -
  let ?b = "block_size_bytes s" and ?f = "shrink_floor hc base (block_size_bytes s)"
    and ?e = "extension_bytes previous op s goal"
  have b: "0 < unat ?b" using wf by (rule wf_device_block_pos)
  obtain u where u: "unat (requested_bytes s) = unat ?e + unat u" "t = max u ?f" "t < requested_bytes s"
    using t by (auto simp: extension_target_def checked_sub_Some split: option.splits if_splits)
  have "?f \<noteq> - 1" using u(2,3) word_order.extremum [of "requested_bytes s"] by (auto simp: max_def not_le split: if_splits)
  note f = shrink_floor_multiple [OF b this]
  have r: "unat ?b dvd unat (requested_bytes s)" using wf by (simp add: wf_device_def is_multiple_of_dvd)
  have "unat ?b dvd unat u"
    using r u(1) extension_bytes_multiple [OF wf goal, of previous op] by (metis dvd_add_right_iff)
  then have "unat ?b dvd unat t" using f(1) u(2) by (simp add: max_def)
  then show "unat t + unat ?b \<le> unat (requested_bytes s)"
    using r u(3) by (intro multiple_gap) (simp_all add: word_less_nat_alt)
  show "unat (hc_min_ram hc) \<le> unat base + unat t"
    using f(2) u(2) by (auto simp: max_def word_le_nat_alt split: if_splits)
qed

text \<open>
  C7. Extending a stalled removal terminates: whatever the guest releases in between, each extension asks
  for at least one block less than the one before, so one removal is extended at most as often as it
  requested blocks, and no extension asks for less than the administrator's minimum.
\<close>

theorem extensions_terminate:
  assumes "\<And>k. k < n \<Longrightarrow> wf_device (s k) \<and> block_size_bytes (s k) = b \<and> goal k \<le> current_bytes (s k)
      \<and> extension_target (s k) (extension_bytes (previous k) op (s k) (goal k)) (shrink_floor hc (base k) b)
          = Some (requested_bytes (s (Suc k)))"
  shows "n * unat b + unat (requested_bytes (s n)) \<le> unat (requested_bytes (s 0))
    \<and> (\<forall>k<n. unat (hc_min_ram hc) \<le> unat (base k) + unat (requested_bytes (s (Suc k))))"
proof -
  have step: "unat (requested_bytes (s (Suc k))) + unat b \<le> unat (requested_bytes (s k))
      \<and> unat (hc_min_ram hc) \<le> unat (base k) + unat (requested_bytes (s (Suc k)))" if "k < n" for k
    using assms [OF that] extension_lowers [of "s k" "goal k" "previous k" op hc "base k" "requested_bytes (s (Suc k))"]
    by auto
  have "m \<le> n \<Longrightarrow> m * unat b + unat (requested_bytes (s m)) \<le> unat (requested_bytes (s 0))" for m
  proof (induction m)
    case (Suc m)
    then show ?case using step [of m] by simp
  qed simp
  then show ?thesis using step by blast
qed

text \<open>A removal of 2 GiB to 1 GiB that releases nothing: two extensions.\<close>

definition stalled_state :: "nat \<Rightarrow> virtio_mem_state" where
  "stalled_state k = sample_live\<lparr>requested_bytes := 1073741824 - of_nat k * 2097152\<rparr>"

theorem extensions_terminate_witness:
  "2 * unat (2097152 :: u64) + unat (requested_bytes (stalled_state 2)) \<le> unat (requested_bytes (stalled_state 0))"
proof -
  let ?hc = "running_config\<lparr>hc_min_ram := 4294967296\<rparr>"
  have ok: "is_ok (validate_device (stalled_state 0))" "is_ok (validate_device (stalled_state 1))"
    "block_size_bytes (stalled_state 0) = 2097152" "block_size_bytes (stalled_state 1) = 2097152"
    "1073741824 \<le> current_bytes (stalled_state 0)" "1073741824 \<le> current_bytes (stalled_state 1)"
    "extension_target (stalled_state 0) (extension_bytes None (lit ''7-1'') (stalled_state 0) 1073741824)
       (shrink_floor ?hc 4294967296 2097152) = Some (requested_bytes (stalled_state 1))"
    "extension_target (stalled_state 1) (extension_bytes None (lit ''7-1'') (stalled_state 1) 1073741824)
       (shrink_floor ?hc 4294967296 2097152) = Some (requested_bytes (stalled_state 2))"
    by code_simp+
  have wf: "wf_device (stalled_state 0)" "wf_device (stalled_state 1)"
    using ok(1,2) by (simp_all add: is_ok_iff validate_device_ok)
  have two: "stalled_state (Suc (Suc 0)) = stalled_state 2" "stalled_state (Suc 0) = stalled_state 1"
    "stalled_state (Suc 1) = stalled_state 2"
    by (simp_all add: numeral_2_eq_2)
  have chain: "wf_device (stalled_state k) \<and> block_size_bytes (stalled_state k) = 2097152
      \<and> 1073741824 \<le> current_bytes (stalled_state k)
      \<and> extension_target (stalled_state k) (extension_bytes None (lit ''7-1'') (stalled_state k) 1073741824)
          (shrink_floor ?hc 4294967296 2097152) = Some (requested_bytes (stalled_state (Suc k)))" if k: "k < 2" for k
  proof -
    consider "k = 0" | "k = 1" using k by linarith
    then show ?thesis using ok(3-) wf two by cases (simp_all only: simp_thms two)
  qed
  show ?thesis
    using extensions_terminate [of 2 stalled_state 2097152 "\<lambda>_. 1073741824" "\<lambda>_. None" "lit ''7-1''" ?hc "\<lambda>_. 4294967296",
        OF chain] by (rule conjunct1)
qed

section \<open>Waiting between rounds\<close>

text \<open>
  \<open>wait_interruptibly\<close> sleeps in steps of at most 100 ms until the deadline or a stop request. Its model
  takes the number of iterations it may make and says whether the loop ended within them.
\<close>

fun wait_loop :: "env \<Rightarrow> duration \<Rightarrow> nat \<Rightarrow> (history, 'e, bool) prog" where
  "wait_loop w deadline 0 = ret False"
| "wait_loop w deadline (Suc n) =
     bind (stop_requested w 0) (\<lambda>stopped.
       if stopped then ret True
       else
         bind (instant_now w 0) (\<lambda>t.
           let remaining = max 0 (deadline - t) in
           if remaining = 0 then ret True
           else bind (tell 0 (Waited (min remaining 100))) (\<lambda>_. wait_loop w deadline n)))"

definition wait_interruptibly :: "env \<Rightarrow> duration \<Rightarrow> nat \<Rightarrow> (history, 'e, bool) prog" where
  "wait_interruptibly w d n = bind (instant_now w 0) (\<lambda>t. wait_loop w (t + d) n)"

text \<open>A monotonic clock that a sleep advances by at least its length.\<close>

definition sleeping_clock :: "env \<Rightarrow> bool" where
  "sleeping_clock w \<longleftrightarrow>
     (\<forall>h e. world_instant w h \<le> world_instant w (e # h))
     \<and> (\<forall>h d. world_instant w h + d \<le> world_instant w ((0, Waited d) # h))"

lemma wait_step:
  "bind (stop_requested w 0) (\<lambda>stopped. if stopped then ret True
     else bind (instant_now w 0) (\<lambda>t. let remaining = max 0 (deadline - t) in
       if remaining = 0 then ret True else bind (tell 0 (Waited (min remaining 100))) (\<lambda>_. rest))) h
   = (if world_stop w h then (Inr True, (0, ReadStop) # h)
      else if max 0 (deadline - world_instant w ((0, ReadStop) # h)) = 0 then (Inr True, (0, ReadInstant) # (0, ReadStop) # h)
      else rest ((0, Waited (min (max 0 (deadline - world_instant w ((0, ReadStop) # h))) 100))
        # (0, ReadInstant) # (0, ReadStop) # h))"
  by (simp add: bind_def ret_def stop_requested_def instant_now_def ask_def tell_def Let_def)

lemma wait_loop_ends:
  assumes "sleeping_clock w" and "deadline - world_instant w h \<le> 100 * int n"
  shows "\<exists>h'. wait_loop w deadline (Suc n) h = (Inr True :: 'e + bool, h')"
  using assms(2)
proof (induction n arbitrary: h)
  case 0
  have "world_instant w h \<le> world_instant w ((0, ReadStop) # h)" using assms(1) by (simp add: sleeping_clock_def)
  then have "max 0 (deadline - world_instant w ((0, ReadStop) # h)) = 0" using 0 by simp
  then show ?case by (simp add: bind_def ret_def stop_requested_def instant_now_def ask_def tell_def Let_def)
next
  case (Suc n)
  let ?h1 = "(0, ReadStop) # h"
  let ?r = "max 0 (deadline - world_instant w ?h1)"
  let ?h2 = "(0, ReadInstant) # ?h1"
  let ?h3 = "(0, Waited (min ?r 100)) # ?h2"
  have m: "world_instant w h \<le> world_instant w ?h1" "world_instant w ?h1 \<le> world_instant w ?h2"
    "world_instant w ?h2 + min ?r 100 \<le> world_instant w ?h3"
    using assms(1) by (simp_all add: sleeping_clock_def)
  have "deadline - world_instant w ?h3 \<le> 100 * int n" using m Suc.prems by auto
  note later = Suc.IH [OF this]
  have "(wait_loop w deadline (Suc (Suc n)) h :: ('e + bool) \<times> history) =
      (if world_stop w h then (Inr True, ?h1) else if ?r = 0 then (Inr True, ?h2) else wait_loop w deadline (Suc n) ?h3)"
    unfolding wait_loop.simps(2) [of w deadline "Suc n"] by (rule wait_step)
  then show ?case using later by metis
qed

text \<open>
  C39. The wait between rounds ends: on a monotonic clock that every sleep advances by at least its
  length, it returns after at most one iteration more than the tenths of a second it was asked to wait,
  with or without a stop request.
\<close>

theorem wait_terminates:
  assumes "sleeping_clock w" and "d \<le> 100 * int n"
  shows "\<exists>h'. wait_interruptibly w d (Suc n) h = (Inr True, h')"
proof -
  let ?h1 = "(0, ReadInstant) # h"
  have "world_instant w h + d - world_instant w ?h1 \<le> 100 * int n"
    using assms by (simp add: sleeping_clock_def add.commute) (smt (verit))
  from wait_loop_ends [OF assms(1) this] show ?thesis
    by (simp add: wait_interruptibly_def bind_def instant_now_def ask_def del: wait_loop.simps)
qed

text \<open>A clock that counts the milliseconds slept.\<close>

definition slept :: "history \<Rightarrow> duration" where
  "slept h = sum_list (map (\<lambda>(k, e). case e of Waited d \<Rightarrow> max 0 d | _ \<Rightarrow> 0) h)"

theorem wait_terminates_witness:
  "\<exists>h'. wait_interruptibly ((sample_env sample_live)\<lparr>world_instant := slept\<rparr>) 250 (Suc 3) []
     = (Inr True :: unit + bool, h')"
proof -
  have "sleeping_clock ((sample_env sample_live)\<lparr>world_instant := slept\<rparr>)"
    by (auto simp: sleeping_clock_def slept_def split: effect.split)
  from wait_terminates [OF this, of 250 3] show ?thesis by simp
qed

end
