(* ===== verification/Guest_Effects.thy ===== *)
theory Guest_Effects
  imports Effects
begin

text \<open>
  The world of the Windows guest service and the file handling of \<open>windows/src/demand.rs\<close>: the stop
  signal, the clocks, \<open>replace_file\<close> with its bounded retries, and the publisher. As on the host, every
  interaction is an event of a history, the newest first, and an answer is an arbitrary function of the
  history before the question.

  The service is used on Windows: of the functions with a second body for other systems, which only the
  tests run, the Windows body is modelled. A loop takes the number of iterations it may make; running
  out of them is the outcome \<open>OutOfFuel\<close>, an execution that was cut and that nothing in the code catches.
\<close>

section \<open>Outcomes\<close>

datatype 'e failure = Failed 'e | OutOfFuel

definition map_failed :: "('e \<Rightarrow> 'f) \<Rightarrow> ('s, 'e failure, 'a) prog \<Rightarrow> ('s, 'f failure, 'a) prog" where
  "map_failed f = map_error (\<lambda>x. case x of Failed e \<Rightarrow> Failed (f e) | OutOfFuel \<Rightarrow> OutOfFuel)"

text \<open>The result of a call that the code inspects.\<close>

definition try_failed :: "('s, 'e failure, 'a) prog \<Rightarrow> ('s, 'f failure, 'e + 'a) prog" where
  "try_failed m =
     (\<lambda>s. case m s of
        (Inr x, s') \<Rightarrow> (Inr (Inr x), s')
      | (Inl (Failed e), s') \<Rightarrow> (Inr (Inl e), s')
      | (Inl OutOfFuel, s') \<Rightarrow> (Inl OutOfFuel, s'))"

lemma wp_map_failed [wp_simps]:
  "wp (map_failed f m) Q E s =
     wp m Q (\<lambda>x. E (case x of Failed e \<Rightarrow> Failed (f e) | OutOfFuel \<Rightarrow> OutOfFuel)) s"
  by (simp add: map_failed_def wp_simps)

lemma wp_try_failed [wp_simps]:
  "wp (try_failed m) Q E s =
     wp m (\<lambda>x. Q (Inr x)) (\<lambda>x. case x of Failed e \<Rightarrow> Q (Inl e) | OutOfFuel \<Rightarrow> E OutOfFuel) s"
  by (simp add: wp_def try_failed_def split: prod.splits sum.splits failure.splits)

lemma keeps_map_failed [keeps_rules]: "triple I Q E m \<Longrightarrow> triple I Q E (map_failed f m)"
  by (simp add: triple_def wp_simps)

lemma keeps_try_failed [keeps_rules]: "keeps I m \<Longrightarrow> keeps I (try_failed m)"
  unfolding triple_def by (auto simp: wp_simps elim!: wp_mono split: failure.splits)

lemma keeps_bind_result:
  "(\<And>x. r = Inr x \<Longrightarrow> keeps I (f x)) \<Longrightarrow> keeps I (bind (lift_result r) f)"
  by (cases r) (auto simp: triple_def wp_simps)

section \<open>Events and the world\<close>

type_synonym byte = "8 word"

record os_error =
  os_code :: "int option"
  os_not_found :: bool
  os_text :: rust_str

datatype notification_kind = LowKind | HighKind

text \<open>The handles of the operating system.\<close>

type_synonym handle = nat

datatype guest_effect =
    SessionStarted
  | StopRead bool
  | Slept duration
  | InstantRead
  | SystemTimeRead
  | UptimeRead
  | CountersRead
  | NotificationCreated notification_kind "u32 + handle"
  | NotificationQueried handle
  | NotificationClosed handle
  | ObjectsWaited "handle list" duration
  | DirsCreated rust_str
  | TempOpened rust_str
  | TempWritten rust_str "byte list"
  | TempFlushed rust_str
  | TempMoved rust_str "byte list" bool bool
  | TempRemoved rust_str
  | FileOpened rust_str
  | FileRead rust_str
  | WakePortOpened bool
  | WakeEventCreated bool
  | WakeReadChecked bool
  | WakeReadIssued bool
  | WakeReadJoined
  | WakeWriteIssued bool
  | WakeWriteCancelled
  | WakeWriteJoined
  | WakePortClosed

type_synonym guest_history = "guest_effect list"

record performance_information =
  perf_page_size :: u64
  perf_physical_total :: u64
  perf_physical_available :: u64
  perf_commit_total :: u64
  perf_commit_limit :: u64
  perf_commit_peak :: u64
  perf_system_cache :: u64
  perf_kernel_paged :: u64
  perf_kernel_nonpaged :: u64

text \<open>
  \<open>g_files\<close> answers a file operation with its error, if it fails; \<open>g_applied\<close> says whether a move that
  was reported as failed, or that nobody flushed, is found on the disk all the same.
\<close>

record guest_env =
  g_stop :: "guest_history \<Rightarrow> bool"
  g_instant :: "guest_history \<Rightarrow> duration"
  g_instant_limit :: duration
  g_system_nanos :: "guest_history \<Rightarrow> int"
  g_uptime :: "guest_history \<Rightarrow> u64"
  g_counters :: "guest_history \<Rightarrow> u32 + performance_information"
  g_create :: "notification_kind \<Rightarrow> guest_history \<Rightarrow> u32 + handle"
  g_query :: "handle \<Rightarrow> guest_history \<Rightarrow> u32 + bool"
  g_wait :: "guest_history \<Rightarrow> u32"
  g_last_error :: "guest_history \<Rightarrow> u32"
  g_stop_event :: "handle option"
  g_files :: "guest_effect \<Rightarrow> guest_history \<Rightarrow> os_error option"
  g_move :: "rust_str \<Rightarrow> guest_history \<Rightarrow> os_error option"
  g_applied :: "guest_history \<Rightarrow> bool"
  g_initial :: "rust_str \<Rightarrow> byte list option"
  g_status :: "guest_history \<Rightarrow> os_error + os_error + byte list"
  g_wake_open :: "guest_history \<Rightarrow> os_error + unit"
  g_wake_event :: "guest_history \<Rightarrow> os_error + handle"
  g_wake_result :: "guest_history \<Rightarrow> os_error + u32"
  g_wake_read :: "guest_history \<Rightarrow> os_error option"
  g_wake_write :: "guest_history \<Rightarrow> os_error option"
  encode_state :: "guest_request_state \<Rightarrow> rust_str + byte list"
  decode_state :: "byte list \<Rightarrow> rust_str + guest_request_state"
  encode_envelope :: "raw_telemetry_envelope \<Rightarrow> rust_str + byte list"
  decode_envelope :: "byte list \<Rightarrow> rust_str + raw_telemetry_envelope"
  decode_status :: "byte list \<Rightarrow> rust_str + host_memory_status"
  g_process_id :: u32
  g_driver_version :: "rust_str + rust_str"
  g_build_id :: rust_str

definition observe :: "guest_effect \<Rightarrow> (guest_history \<Rightarrow> 'e + 'a) \<Rightarrow> (guest_history, 'e failure, 'a) prog" where
  "observe e answer = (\<lambda>h. (map_err Failed (answer h), e # h))"

definition emit :: "guest_effect \<Rightarrow> (guest_history, 'e failure, unit) prog" where
  "emit e = (\<lambda>h. (Inr (), e # h))"

lemma wp_observe [wp_simps]:
  "wp (observe e answer) Q E h = (case answer h of Inl err \<Rightarrow> E (Failed err) (e # h) | Inr x \<Rightarrow> Q x (e # h))"
  by (simp add: wp_def observe_def split: sum.splits)

lemma wp_emit [wp_simps]: "wp (emit e) Q E h = Q () (e # h)"
  by (simp add: wp_def emit_def)

subsection \<open>Objects with a state of their own\<close>

text \<open>
  A method works on its object beside the history: \<open>io_of\<close> runs an interaction, \<open>own\<close> and \<open>put_own\<close>
  read and change the object, and \<open>part\<close> runs a method of a field of the object.
\<close>

type_synonym ('o, 'e, 'a) object_method = "('o \<times> guest_history, 'e failure, 'a) prog"

definition io_of :: "(guest_history, 'e failure, 'a) prog \<Rightarrow> ('o, 'e, 'a) object_method" where
  "io_of m = (\<lambda>(x, h). case m h of (r, h') \<Rightarrow> (r, (x, h')))"

definition own :: "('o \<Rightarrow> 'a) \<Rightarrow> ('o, 'e, 'a) object_method" where
  "own f = (\<lambda>(x, h). (Inr (f x), (x, h)))"

definition put_own :: "('o \<Rightarrow> 'o) \<Rightarrow> ('o, 'e, unit) object_method" where
  "put_own f = (\<lambda>(x, h). (Inr (), (f x, h)))"

definition part :: "('o \<Rightarrow> 'p) \<Rightarrow> (('p \<Rightarrow> 'p) \<Rightarrow> 'o \<Rightarrow> 'o) \<Rightarrow> ('p, 'e, 'a) object_method \<Rightarrow> ('o, 'e, 'a) object_method" where
  "part field update m = (\<lambda>(x, h). case m (field x, h) of (r, (y, h')) \<Rightarrow> (r, (update (\<lambda>_. y) x, h')))"

lemma wp_io_of [wp_simps]: "wp (io_of m) Q E (x, h) = wp m (\<lambda>v h'. Q v (x, h')) (\<lambda>e h'. E e (x, h')) h"
  by (simp add: wp_def io_of_def split: prod.splits sum.splits)

lemma wp_own [wp_simps]: "wp (own f) Q E (x, h) = Q (f x) (x, h)"
  by (simp add: wp_def own_def)

lemma wp_put_own [wp_simps]: "wp (put_own f) Q E (x, h) = Q () (f x, h)"
  by (simp add: wp_def put_own_def)

lemma wp_part [wp_simps]:
  "wp (part field update m) Q E (x, h) =
     wp m (\<lambda>v (y, h'). Q v (update (\<lambda>_. y) x, h')) (\<lambda>e (y, h'). E e (update (\<lambda>_. y) x, h')) (field x, h)"
  by (simp add: wp_def part_def split: prod.splits sum.splits)

lemma keeps_io_of: "keeps I m \<Longrightarrow> keeps (\<lambda>(x, h). I h) (io_of m)"
  by (auto simp: triple_def wp_simps)

section \<open>The stop signal and the clocks\<close>

text \<open>
  A stop signal belongs to one run of the service; it is only ever set, so that once it was seen set it
  is seen set until the process ends. Another thread may set it at any moment.
\<close>

fun cancelled :: "guest_history \<Rightarrow> bool" where
  "cancelled [] = False"
| "cancelled (e # h) =
     (case e of SessionStarted \<Rightarrow> False | StopRead b \<Rightarrow> b \<or> cancelled h | _ \<Rightarrow> cancelled h)"

definition is_cancelled :: "guest_env \<Rightarrow> (guest_history, 'e failure, bool) prog" where
  "is_cancelled w = (\<lambda>h. let b = (cancelled h \<or> g_stop w h) in (Inr b, StopRead b # h))"

definition stop_wait :: "duration \<Rightarrow> (guest_history, 'e failure, unit) prog" where
  "stop_wait d = emit (Slept d)"

definition guest_instant :: "guest_env \<Rightarrow> (guest_history, 'e failure, duration) prog" where
  "guest_instant w = observe InstantRead (\<lambda>h. Inr (g_instant w h))"

lemma wp_is_cancelled [wp_simps]:
  "wp (is_cancelled w) Q E h = Q (cancelled h \<or> g_stop w h) (StopRead (cancelled h \<or> g_stop w h) # h)"
  by (simp add: wp_def is_cancelled_def Let_def)

lemma wp_stop_wait [wp_simps]: "wp (stop_wait d) Q E h = Q () (Slept d # h)"
  by (simp add: stop_wait_def wp_simps)

lemma wp_guest_instant [wp_simps]: "wp (guest_instant w) Q E h = Q (g_instant w h) (InstantRead # h)"
  by (simp add: guest_instant_def wp_simps)

section \<open>Replacing a file\<close>

definition ATOMIC_REPLACE_RETRY_DELAY :: duration where
  "ATOMIC_REPLACE_RETRY_DELAY = 100"

definition file_op :: "guest_env \<Rightarrow> guest_effect \<Rightarrow> (guest_history, os_error failure, unit) prog" where
  "file_op w e = observe e (\<lambda>h. case g_files w e h of None \<Rightarrow> Inr () | Some err \<Rightarrow> Inl err)"

definition move_file :: "guest_env \<Rightarrow> rust_str \<Rightarrow> byte list \<Rightarrow> bool \<Rightarrow> (guest_history, os_error failure, unit) prog" where
  "move_file w path bytes durably =
     (\<lambda>h. (case g_move w path h of None \<Rightarrow> Inr () | Some err \<Rightarrow> Inl (Failed err),
           TempMoved path bytes durably (g_move w path h = None) # h))"

definition publication_cancelled :: os_error where
  "publication_cancelled = \<lparr>os_code = None, os_not_found = False, os_text = lit ''publication cancelled''\<rparr>"

definition publication_timeout_too_large :: os_error where
  "publication_timeout_too_large =
     \<lparr>os_code = None, os_not_found = False, os_text = lit ''publication timeout too large''\<rparr>"

definition transient :: "os_error \<Rightarrow> bool" where
  "transient e \<longleftrightarrow> os_code e = Some 5 \<or> os_code e = Some 32 \<or> os_code e = Some 33"

fun replace_loop ::
    "guest_env \<Rightarrow> rust_str \<Rightarrow> byte list \<Rightarrow> bool \<Rightarrow> duration \<Rightarrow> nat \<Rightarrow> (guest_history, os_error failure, unit) prog" where
  "replace_loop w path bytes durably deadline 0 = raise OutOfFuel"
| "replace_loop w path bytes durably deadline (Suc n) =
     bind (is_cancelled w) (\<lambda>stopped.
       if stopped then raise (Failed publication_cancelled)
       else
         bind (try_failed (move_file w path bytes durably)) (\<lambda>r.
           case r of
             Inr _ \<Rightarrow> ret ()
           | Inl err \<Rightarrow>
               if \<not> transient err then raise (Failed err)
               else
                 bind (guest_instant w) (\<lambda>t.
                   if \<not> t < deadline then raise (Failed err)
                   else
                     bind (guest_instant w) (\<lambda>t'.
                     bind (stop_wait (min ATOMIC_REPLACE_RETRY_DELAY (max 0 (deadline - t')))) (\<lambda>_.
                     replace_loop w path bytes durably deadline n)))))"

definition atomic_replace ::
    "guest_env \<Rightarrow> rust_str \<Rightarrow> byte list \<Rightarrow> bool \<Rightarrow> duration \<Rightarrow> nat \<Rightarrow> (guest_history, os_error failure, unit) prog" where
  "atomic_replace w path bytes durably timeout n =
     bind (guest_instant w) (\<lambda>t.
       if g_instant_limit w < t + timeout then raise (Failed publication_timeout_too_large)
       else replace_loop w path bytes durably (t + timeout) n)"

text \<open>The directory of a drive path: what stands before its last separator, the root included.\<close>

definition path_separator :: "rust_char \<Rightarrow> bool" where
  "path_separator c \<longleftrightarrow> c = 92 \<or> c = 47"

definition parent_dir :: "rust_str \<Rightarrow> rust_str" where
  "parent_dir path =
     (let up = dropWhile (\<lambda>c. \<not> path_separator c) (dropWhile path_separator (rev path));
          dir = rev (dropWhile path_separator up)
      in if length dir = 2 \<and> last dir = 58 \<and> up \<noteq> [] then dir @ [hd up] else dir)"

definition io_failure :: "string \<Rightarrow> os_error \<Rightarrow> rust_str" where
  "io_failure prefix e = lit prefix @ lit '': '' @ os_text e"

definition hand_over ::
    "guest_env \<Rightarrow> rust_str \<Rightarrow> rust_str \<Rightarrow> byte list \<Rightarrow> bool \<Rightarrow> duration \<Rightarrow> nat \<Rightarrow> (guest_history, rust_str failure, unit) prog" where
  "hand_over w temporary path bytes durably retry_timeout n =
     bind (map_failed (io_failure ''open handoff'') (file_op w (TempOpened temporary))) (\<lambda>_.
     bind (map_failed (io_failure ''write handoff'') (file_op w (TempWritten temporary bytes))) (\<lambda>_.
     bind (if durably then map_failed (io_failure ''flush handoff'') (file_op w (TempFlushed temporary))
           else ret ()) (\<lambda>_.
     map_failed (\<lambda>e. lit ''replace '' @ path @ lit '': '' @ os_text e)
       (atomic_replace w path bytes durably retry_timeout n))))"

text \<open>The temporary file of an abandoned replacement is removed; what that gives is not looked at.\<close>

definition conclude_handoff :: "guest_env \<Rightarrow> rust_str \<Rightarrow> rust_str + unit \<Rightarrow> (guest_history, rust_str failure, unit) prog" where
  "conclude_handoff w temporary result =
     bind (if is_ok result then is_cancelled w else ret True) (\<lambda>abandon.
     bind (if abandon then emit (TempRemoved temporary) else ret ()) (\<lambda>_.
     bind (is_cancelled w) (\<lambda>stopped.
       if stopped then ret () else lift_result (map_err Failed result))))"

definition replace_file ::
    "guest_env \<Rightarrow> rust_str \<Rightarrow> byte list \<Rightarrow> bool \<Rightarrow> duration \<Rightarrow> nat \<Rightarrow> (guest_history, rust_str failure, unit) prog" where
  "replace_file w path bytes durably retry_timeout n =
     bind (if parent_dir path = [] then ret ()
           else map_failed (\<lambda>e. lit ''create '' @ parent_dir path @ lit '': '' @ os_text e)
                  (file_op w (DirsCreated (parent_dir path)))) (\<lambda>_.
     let temporary = path @ lit ''.tmp-'' @ show_word (g_process_id w) in
     bind (try_failed (hand_over w temporary path bytes durably retry_timeout n)) (conclude_handoff w temporary))"

section \<open>The publisher\<close>

definition MAX_GUEST_RECORD_BYTES :: int where
  "MAX_GUEST_RECORD_BYTES = 65536"

definition publish_envelope ::
    "guest_env \<Rightarrow> rust_str \<Rightarrow> duration \<Rightarrow> raw_telemetry_envelope \<Rightarrow> nat \<Rightarrow> (guest_history, rust_str failure, unit) prog" where
  "publish_envelope w path retry_timeout envelope n =
     bind (is_cancelled w) (\<lambda>stopped.
       if stopped then ret ()
       else
         bind (lift_result (map_err (\<lambda>e. Failed (lit ''encode raw telemetry: '' @ e)) (encode_envelope w envelope))) (\<lambda>encoded.
           let record_bytes = encoded @ [10] in
           if MAX_GUEST_RECORD_BYTES < int (length record_bytes)
             then raise (Failed (lit ''raw telemetry record exceeds '' @ show_u64 65536 @ lit '' byte limit''))
           else map_failed (\<lambda>e. lit ''publish raw telemetry handoff: '' @ e)
                  (replace_file w path record_bytes False retry_timeout n)))"

section \<open>What a file holds\<close>

text \<open>
  The contents a reader, or the service after a crash, finds. A durable move that succeeded is there to
  stay; for any other move the world decides.
\<close>

fun stored :: "guest_env \<Rightarrow> rust_str \<Rightarrow> guest_history \<Rightarrow> byte list option" where
  "stored w path [] = g_initial w path"
| "stored w path (e # h) =
     (case e of
        TempMoved p bytes durably ok \<Rightarrow>
          if p = path \<and> (durably \<and> ok \<or> g_applied w h) then Some bytes else stored w path h
      | _ \<Rightarrow> stored w path h)"


text \<open>The events that neither replace a file nor begin a new run.\<close>

fun quiet_effect :: "guest_effect \<Rightarrow> bool" where
  "quiet_effect (TempMoved p bytes durably ok) = False"
| "quiet_effect SessionStarted = False"
| "quiet_effect e = True"

lemma stored_quiet [simp]: "quiet_effect e \<Longrightarrow> stored w path (e # h) = stored w path h"
  by (cases e) simp_all

lemma stored_started [simp]: "stored w path (SessionStarted # h) = stored w path h"
  by simp

lemma cancelled_quiet: "quiet_effect e \<Longrightarrow> cancelled h \<Longrightarrow> cancelled (e # h)"
  by (cases e) simp_all

lemma stored_other [simp]: "p \<noteq> path \<Longrightarrow> stored w path (TempMoved p bytes d ok # h) = stored w path h"
  by simp

lemma stored_move: "stored w path (TempMoved path bytes d ok # h) = Some bytes
  \<or> stored w path (TempMoved path bytes d ok # h) = stored w path h"
  by simp

declare stored.simps(2) [simp del]

section \<open>Lemmas on replacements\<close>

lemma wp_move_file [wp_simps]:
  "wp (move_file w path bytes d) Q E h =
     (case g_move w path h of
        None \<Rightarrow> Q () (TempMoved path bytes d True # h)
      | Some err \<Rightarrow> E (Failed err) (TempMoved path bytes d False # h))"
  by (simp add: wp_def move_file_def split: option.splits)

lemma wp_file_op [wp_simps]:
  "wp (file_op w e) Q E h =
     (case g_files w e h of None \<Rightarrow> Q () (e # h) | Some err \<Rightarrow> E (Failed err) (e # h))"
  by (simp add: file_op_def wp_simps split: option.splits)

text \<open>A replacement keeps what survives every event of another kind and each of its own moves.\<close>

lemma replace_loop_keeps:
  assumes "\<And>e h. I h \<Longrightarrow> quiet_effect e \<Longrightarrow> I (e # h)" and "\<And>ok h. I h \<Longrightarrow> I (TempMoved path bytes d ok # h)"
  shows "keeps I (replace_loop w path bytes d deadline n)"
proof (induction n)
  case (Suc n)
  have "wp (replace_loop w path bytes d deadline n) (\<lambda>_. I) (\<lambda>_. I) h" if "I h" for h
    by (rule tripleD [OF Suc that])
  then show ?case
    by (intro tripleI) (simp add: wp_simps assms split: option.split sum.split)
qed (simp add: triple_def wp_simps)

lemma replace_file_keeps:
  assumes "\<And>e h. I h \<Longrightarrow> quiet_effect e \<Longrightarrow> I (e # h)" and "\<And>ok h. I h \<Longrightarrow> I (TempMoved path bytes d ok # h)"
  shows "keeps I (replace_file w path bytes d t n)"
proof -
  have loop: "keeps I (replace_loop w path bytes d deadline n)" for deadline
    by (rule replace_loop_keeps) (fact assms)+
  have op: "keeps I (file_op w e)" if "quiet_effect e" for e
    using that by (intro tripleI) (simp add: wp_simps assms split: option.split)
  have stop: "keeps I (is_cancelled w)"
    by (intro tripleI) (simp add: wp_simps assms)
  have remove: "keeps I (emit (TempRemoved p))" for p
    by (intro tripleI) (simp add: wp_simps assms)
  have clock: "keeps I (guest_instant w)"
    by (intro tripleI) (simp add: wp_simps assms)
  show ?thesis
    unfolding replace_file_def hand_over_def atomic_replace_def conclude_handoff_def Let_def
    by (intro keeps_rules loop op stop remove clock) simp_all
qed

text \<open>Once the service is stopping a replacement moves nothing.\<close>

lemma replace_file_cancelled:
  assumes I: "\<And>e h. I h \<Longrightarrow> quiet_effect e \<Longrightarrow> I (e # h)" and "I h" and "cancelled h"
  shows "wp (replace_file w path bytes d t n) (\<lambda>_. I) (\<lambda>_. I) h"
proof -
  let ?J = "\<lambda>h. I h \<and> cancelled h"
  have J: "?J (e # h)" if "?J h" "quiet_effect e" for e h
    using that I cancelled_quiet by blast
  have loop: "keeps ?J (replace_loop w path bytes d deadline n)" for deadline
    by (cases n) (auto simp: triple_def wp_simps I)
  have op: "keeps ?J (file_op w e)" if "quiet_effect e" for e
    unfolding triple_def using J that by (simp add: wp_simps split: option.split)
  have stop: "keeps ?J (is_cancelled w)" and remove: "keeps ?J (emit (TempRemoved p))"
    and clock: "keeps ?J (guest_instant w)" for p
    unfolding triple_def using J by (simp_all add: wp_simps)
  have "keeps ?J (replace_file w path bytes d t n)"
    unfolding replace_file_def hand_over_def atomic_replace_def conclude_handoff_def Let_def
    by (intro keeps_rules loop op stop remove clock) simp_all
  then have "triple ?J I I (replace_file w path bytes d t n)" by (rule triple_mono) simp_all
  from tripleD [OF this] show ?thesis using assms(2,3) by simp
qed

lemma replace_loop_stores:
  "wp (replace_loop w path bytes True deadline n) (\<lambda>_ h'. stored w path h' = Some bytes) (\<lambda>_ _. True) h"
  by (induction n arbitrary: h) (simp_all add: wp_simps stored.simps(2) split: option.split sum.split)

lemma hand_over_stores:
  "wp (hand_over w temporary path bytes True t n) (\<lambda>_ h'. stored w path h' = Some bytes) (\<lambda>_ _. True) h"
proof -
  have "wp (atomic_replace w path bytes True t n) (\<lambda>_ h'. stored w path h' = Some bytes) (\<lambda>_ _. True) h" for h
    by (simp add: atomic_replace_def wp_simps replace_loop_stores)
  then show ?thesis
    by (simp add: hand_over_def wp_simps split: option.split)
qed

text \<open>A durable replacement that reports success has stored the bytes, or the service is stopping.\<close>

lemma conclude_handoff_stores:
  "is_ok r \<longrightarrow> stored w path h = Some bytes \<Longrightarrow>
   wp (conclude_handoff w temporary r) (\<lambda>_ h'. cancelled h' \<or> stored w path h' = Some bytes) (\<lambda>_ _. True) h"
  by (cases r) (simp_all add: conclude_handoff_def wp_simps)

lemma replace_file_stores:
  "wp (replace_file w path bytes True t n)
     (\<lambda>_ h'. cancelled h' \<or> stored w path h' = Some bytes) (\<lambda>_ _. True) h"
proof -
  let ?Q = "\<lambda>_ h'. cancelled h' \<or> stored w path h' = Some bytes"
  have body: "wp (try_failed (hand_over w temp path bytes True t n))
      (\<lambda>r h'. is_ok r \<longrightarrow> stored w path h' = Some bytes) (\<lambda>_ _. True) h" for temp h
    unfolding wp_try_failed by (rule wp_mono [OF hand_over_stores]) (auto split: failure.splits)
  have rest: "wp (bind (try_failed (hand_over w temp path bytes True t n)) (conclude_handoff w temp))
      ?Q (\<lambda>_ _. True) h" for temp h
    unfolding wp_bind by (rule wp_mono [OF body conclude_handoff_stores]) simp_all
  show ?thesis
    unfolding replace_file_def wp_bind [of "if _ then _ else _"] Let_def
    by (cases "parent_dir path = []") (simp_all add: wp_ret rest wp_map_failed wp_file_op split: option.split)
qed

lemma publish_keeps:
  assumes "\<And>e h. I h \<Longrightarrow> quiet_effect e \<Longrightarrow> I (e # h)"
    and "\<And>bytes ok h. encode_envelope w envelope = Inr bytes \<Longrightarrow> I h \<Longrightarrow> I (TempMoved path (bytes @ [10]) False ok # h)"
  shows "keeps I (publish_envelope w path t envelope n)"
proof -
  have stop: "keeps I (is_cancelled w)"
    by (intro tripleI) (simp add: wp_simps assms)
  have "keeps I (replace_file w path (bytes @ [10]) False t n)" if "encode_envelope w envelope = Inr bytes" for bytes
    by (rule replace_file_keeps) (use assms that in blast)+
  then show ?thesis
    unfolding publish_envelope_def Let_def
    by (intro keeps_bind [OF stop] keeps_if keeps_ret keeps_bind_result keeps_raise keeps_map_failed)
      (simp add: map_err_Inr)
qed

text \<open>While the service is stopping nothing is published.\<close>

lemma publish_cancelled:
  "cancelled h \<Longrightarrow> publish_envelope w path t envelope n h = (Inr (), StopRead True # h)"
  by (simp add: publish_envelope_def bind_def is_cancelled_def ret_def)

end
