(* ===== verification/Guest_Sensors.thy ===== *)
theory Guest_Sensors
  imports Guest_Effects "HOL-Library.Multiset"
begin

text \<open>
  What the guest service observes, from \<open>windows/src/demand.rs\<close>: its clocks and session identity, the
  paired memory-resource notification handles with their waits, and the memory counters of Windows.
\<close>

section \<open>Clocks and session identity\<close>

definition before_epoch :: rust_str where
  "before_epoch = lit ''system clock is before the Unix epoch: second time provided was later than self''"

definition unix_millis :: "guest_env \<Rightarrow> (guest_history, rust_str failure, u64) prog" where
  "unix_millis w =
     observe SystemTimeRead (\<lambda>h.
       let nanos = g_system_nanos w h in
       if nanos < 0 then Inl before_epoch
       else if 2 ^ 64 \<le> nanos div 1000000
         then Inl (lit ''system Unix timestamp does not fit in u64 milliseconds'')
       else Inr (word_of_int (nanos div 1000000)))"

definition guest_elapsed :: "guest_env \<Rightarrow> duration \<Rightarrow> (guest_history, 'e failure, duration) prog" where
  "guest_elapsed w since = bind (guest_instant w) (\<lambda>t. ret (max 0 (t - since)))"

definition monotonic_millis :: "guest_env \<Rightarrow> duration \<Rightarrow> (guest_history, rust_str failure, u64) prog" where
  "monotonic_millis w started_at =
     bind (guest_elapsed w started_at) (\<lambda>d.
       if 2 ^ 64 \<le> d then raise (Failed (lit ''process monotonic timestamp does not fit in u64 milliseconds''))
       else ret (word_of_int d))"

definition uptime_millis :: "guest_env \<Rightarrow> (guest_history, 'e failure, u64 option) prog" where
  "uptime_millis w = observe UptimeRead (\<lambda>h. Inr (Some (g_uptime w h)))"

fun hex :: "nat \<Rightarrow> rust_str" where
  "hex n = (let d = int (n mod 16); c = (if d < 10 then 48 + d else 87 + d)
            in if n < 16 then [c] else hex (n div 16) @ [c])"

declare hex.simps [simp del]

definition process_session_id :: "guest_env \<Rightarrow> (guest_history, rust_str failure, rust_str) prog" where
  "process_session_id w =
     observe SystemTimeRead (\<lambda>h.
       let nanos = g_system_nanos w h in
       if nanos < 0 then Inl before_epoch
       else Inr (lit ''session-'' @ hex (nat nanos) @ lit ''-'' @ hex (unat (g_process_id w))))"

section \<open>Memory-resource notifications\<close>

text \<open>The collector's state: the low and the high handle, once both could be created.\<close>

type_synonym notification_handles = "(handle \<times> handle) option"

definition create_notification :: "guest_env \<Rightarrow> notification_kind \<Rightarrow> (guest_history, 'e failure, u32 + handle) prog" where
  "create_notification w kind = (\<lambda>h. (Inr (g_create w kind h), NotificationCreated kind (g_create w kind h) # h))"

definition query_notification :: "guest_env \<Rightarrow> handle \<Rightarrow> (guest_history, 'e failure, u32 + bool) prog" where
  "query_notification w x = observe (NotificationQueried x) (\<lambda>h. Inr (g_query w x h))"

definition close_notification :: "handle \<Rightarrow> (guest_history, 'e failure, unit) prog" where
  "close_notification x = emit (NotificationClosed x)"

definition create_handles :: "guest_env \<Rightarrow> (guest_history, 'e failure, notification_handles) prog" where
  "create_handles w =
     bind (create_notification w LowKind) (\<lambda>low.
       case low of
         Inl _ \<Rightarrow> ret None
       | Inr low \<Rightarrow>
           bind (create_notification w HighKind) (\<lambda>high.
             case high of
               Inr high \<Rightarrow> ret (Some (low, high))
             | Inl _ \<Rightarrow> bind (close_notification low) (\<lambda>_. ret None)))"

definition wait_objects :: "guest_env \<Rightarrow> handle list \<Rightarrow> duration \<Rightarrow> (guest_history, 'e failure, u32) prog" where
  "wait_objects w handles millis = observe (ObjectsWaited handles millis) (\<lambda>h. Inr (g_wait w h))"

fun pressure_loop ::
    "guest_env \<Rightarrow> handle list \<Rightarrow> duration \<Rightarrow> duration \<Rightarrow> nat \<Rightarrow> (guest_history, 'e failure, u32 + bool) prog" where
  "pressure_loop w handles started timeout 0 = raise OutOfFuel"
| "pressure_loop w handles started timeout (Suc n) =
     bind (is_cancelled w) (\<lambda>stopped.
       if stopped then ret (Inr False)
       else
         bind (guest_elapsed w started) (\<lambda>passed.
           if timeout \<le> passed then ret (Inr False)
           else
             bind (guest_elapsed w started) (\<lambda>passed'.
               let remaining = max 0 (timeout - passed');
                   bound = (if g_stop_event w \<noteq> None then remaining else min remaining 50);
                   millis = min (max bound 1) (2 ^ 32 - 2)
               in bind (wait_objects w handles millis) (\<lambda>result.
                    if unat result < length handles
                      then bind (is_cancelled w) (\<lambda>stopped. ret (Inr (\<not> stopped)))
                    else if result \<noteq> 258 then (\<lambda>h. (Inr (Inl (g_last_error w h)), h))
                    else pressure_loop w handles started timeout n))))"

definition list_of_option :: "'a option \<Rightarrow> 'a list" where
  "list_of_option v = (case v of None \<Rightarrow> [] | Some x \<Rightarrow> [x])"

definition wait_for_pressure ::
    "guest_env \<Rightarrow> handle option \<Rightarrow> duration \<Rightarrow> handle option \<Rightarrow> nat \<Rightarrow> (guest_history, 'e failure, u32 + bool) prog" where
  "wait_for_pressure w low timeout wake n =
     (let handles = list_of_option (g_stop_event w) @ list_of_option low @ list_of_option wake in
      if handles = [] then bind (stop_wait timeout) (\<lambda>_. ret (Inr False))
      else bind (guest_instant w) (\<lambda>started. pressure_loop w handles started timeout n))"

definition ensure_handles :: "guest_env \<Rightarrow> (notification_handles, 'e, unit) object_method" where
  "ensure_handles w =
     bind (own id) (\<lambda>held.
       if held = None then bind (io_of (create_handles w)) (\<lambda>created. put_own (\<lambda>_. created)) else ret ())"

definition collector_wait ::
    "guest_env \<Rightarrow> duration \<Rightarrow> bool \<Rightarrow> handle option \<Rightarrow> nat \<Rightarrow> (notification_handles, 'e, unit) object_method" where
  "collector_wait w timeout watch_low wake n =
     bind (io_of (is_cancelled w)) (\<lambda>stopped.
       if stopped then ret ()
       else
         bind (ensure_handles w) (\<lambda>_.
         bind (own (\<lambda>held. if watch_low then map_option fst held else None)) (\<lambda>low.
         bind (io_of (wait_for_pressure w low timeout wake n)) (\<lambda>r.
           case r of Inr _ \<Rightarrow> ret () | Inl _ \<Rightarrow> io_of (stop_wait timeout)))))"

definition collector_collect ::
    "guest_env \<Rightarrow> (notification_handles, 'e, memory_resource_notification_state option) object_method" where
  "collector_collect w =
     bind (own id) (\<lambda>held.
       case held of
         None \<Rightarrow> ret None
       | Some (low, high) \<Rightarrow>
           bind (io_of (query_notification w low)) (\<lambda>l.
             case l of
               Inl _ \<Rightarrow> ret None
             | Inr is_low \<Rightarrow>
                 bind (io_of (query_notification w high)) (\<lambda>r.
                   case r of
                     Inl _ \<Rightarrow> ret None
                   | Inr is_high \<Rightarrow>
                       ret (if is_low \<and> \<not> is_high then Some Low
                            else if \<not> is_low \<and> is_high then Some High
                            else if \<not> is_low \<and> \<not> is_high then Some Neutral
                            else None))))"

definition collector_drop :: "(notification_handles, 'e, unit) object_method" where
  "collector_drop =
     bind (own id) (\<lambda>held.
       case held of
         None \<Rightarrow> ret ()
       | Some (low, high) \<Rightarrow>
           bind (io_of (close_notification low)) (\<lambda>_.
           bind (io_of (close_notification high)) (\<lambda>_. put_own (\<lambda>_. None))))"

section \<open>The memory counters\<close>

definition pages_to_bytes :: "u64 \<Rightarrow> u64 \<Rightarrow> demand_error + u64" where
  "pages_to_bytes pages page_size = ok_or (checked_mul pages page_size) DemandArithmeticOverflow"

definition load_percent :: "u64 \<Rightarrow> u64 \<Rightarrow> u32" where
  "load_percent all_bytes available = ucast ((ucast (all_bytes - available) * 100 :: u128) div ucast all_bytes)"

definition native_snapshot :: "performance_information \<Rightarrow> demand_error + memory_telemetry_snapshot" where
  "native_snapshot p =
     (if perf_page_size p = 0 then Inl (ZeroCounter (lit ''page size''))
      else
        let bytes = (\<lambda>pages. pages_to_bytes pages (perf_page_size p)) in
        and_then (bytes (perf_physical_total p)) (\<lambda>all_bytes.
        and_then (bytes (perf_physical_available p)) (\<lambda>available.
          if all_bytes = 0 \<or> all_bytes < available
            then Inl (InconsistentCounters (lit ''invalid physical memory snapshot''))
          else
            and_then (bytes (perf_commit_total p)) (\<lambda>commit_total.
            and_then (bytes (perf_commit_limit p)) (\<lambda>commit_limit.
            and_then (bytes (perf_commit_peak p)) (\<lambda>commit_peak.
            and_then (bytes (perf_system_cache p)) (\<lambda>cache.
            and_then (bytes (perf_kernel_paged p)) (\<lambda>paged.
            and_then (bytes (perf_kernel_nonpaged p)) (\<lambda>nonpaged.
              let snapshot =
                \<lparr>physical_total_bytes = all_bytes, physical_available_bytes = available,
                 memory_load_percent = load_percent all_bytes available,
                 commit_total_bytes = commit_total, commit_limit_bytes = commit_limit,
                 commit_peak_bytes = commit_peak, system_cache_bytes = cache,
                 kernel_paged_bytes = paged, kernel_nonpaged_bytes = nonpaged\<rparr>
              in and_then (validate_snapshot snapshot) (\<lambda>_. Inr snapshot))))))))))"

definition collect_counters :: "guest_env \<Rightarrow> (guest_history, demand_error failure, memory_telemetry_snapshot) prog" where
  "collect_counters w =
     observe CountersRead (\<lambda>h. and_then (map_err PerformanceInfo (g_counters w h)) native_snapshot)"

section \<open>Handles are not leaked\<close>

fun created_handles :: "guest_history \<Rightarrow> handle multiset" where
  "created_handles [] = {#}"
| "created_handles (e # h) =
     (case e of NotificationCreated k (Inr x) \<Rightarrow> add_mset x (created_handles h) | _ \<Rightarrow> created_handles h)"

fun closed_handles :: "guest_history \<Rightarrow> handle multiset" where
  "closed_handles [] = {#}"
| "closed_handles (e # h) =
     (case e of NotificationClosed x \<Rightarrow> add_mset x (closed_handles h) | _ \<Rightarrow> closed_handles h)"

fun held_handles :: "notification_handles \<Rightarrow> handle multiset" where
  "held_handles None = {#}"
| "held_handles (Some (low, high)) = {#low, high#}"

definition handles_balanced :: "notification_handles \<times> guest_history \<Rightarrow> bool" where
  "handles_balanced c \<longleftrightarrow> created_handles (snd c) = closed_handles (snd c) + held_handles (fst c)"

fun concerns_handles :: "guest_effect \<Rightarrow> bool" where
  "concerns_handles (NotificationCreated k r) = True"
| "concerns_handles (NotificationClosed x) = True"
| "concerns_handles e = False"

lemma other_events [simp]:
  assumes "\<not> concerns_handles e"
  shows "created_handles (e # h) = created_handles h" "closed_handles (e # h) = closed_handles h"
  using assms by (cases e; simp)+

lemma balanced_event:
  "\<not> concerns_handles e \<Longrightarrow> handles_balanced (held, e # h) = handles_balanced (held, h)"
  by (simp add: handles_balanced_def del: created_handles.simps closed_handles.simps)

declare created_handles.simps(2) [simp del] closed_handles.simps(2) [simp del]

fun waiting_event :: "guest_effect \<Rightarrow> bool" where
  "waiting_event (StopRead b) = True"
| "waiting_event (Slept d) = True"
| "waiting_event InstantRead = True"
| "waiting_event (ObjectsWaited handles d) = True"
| "waiting_event e = False"

lemma wait_for_pressure_keeps:
  assumes I: "\<And>e h. I h \<Longrightarrow> waiting_event e \<Longrightarrow> I (e # h)"
  shows "keeps I (wait_for_pressure w low timeout wake n)"
proof -
  have stop: "keeps I (is_cancelled w)" and clock: "keeps I (guest_instant w)"
    and waited: "keeps I (wait_objects w handles d)" and sleep: "keeps I (stop_wait d)" for handles d
    by (intro tripleI, simp add: wp_simps wait_objects_def I)+
  have elapsed: "keeps I (guest_elapsed w t)" for t
    unfolding guest_elapsed_def by (intro keeps_rules clock)
  have last_error: "keeps I (\<lambda>h. (Inr (Inl (g_last_error w h)), h))"
    by (simp add: triple_def wp_def)
  have "keeps I (pressure_loop w handles started timeout n)" for handles started
  proof (induction n)
    case 0
    show ?case unfolding pressure_loop.simps by (rule keeps_raise)
  next
    case (Suc n)
    show ?case
      unfolding pressure_loop.simps Let_def by (intro keeps_rules stop elapsed waited last_error Suc)
  qed
  then show ?thesis
    unfolding wait_for_pressure_def Let_def by (intro keeps_rules sleep clock)
qed

lemma waiting_balanced:
  "handles_balanced (held, h) \<Longrightarrow> waiting_event e \<Longrightarrow> handles_balanced (held, e # h)"
  by (cases e) (simp_all add: balanced_event)

lemma create_handles_balanced:
  "handles_balanced (None, h) \<Longrightarrow>
   wp (create_handles w) (\<lambda>held h'. handles_balanced (held, h')) (\<lambda>_ _. False) h"
  by (simp add: create_handles_def create_notification_def close_notification_def wp_def bind_def emit_def
      ret_def handles_balanced_def created_handles.simps closed_handles.simps split: sum.split)

lemma balanced_io:
  "(\<And>held. keeps (\<lambda>h. handles_balanced (held, h)) m) \<Longrightarrow> keeps handles_balanced (io_of m)"
  by (auto simp: triple_def wp_simps)

lemma balanced_own: "keeps handles_balanced (own f)"
  by (auto simp: triple_def wp_simps)

lemma ensure_handles_balanced: "keeps handles_balanced (ensure_handles w)"
proof (rule tripleI)
  fix c assume c: "handles_balanced c"
  obtain held h where eq: "c = (held, h)" by (cases c)
  show "wp (ensure_handles w) (\<lambda>_. handles_balanced) (\<lambda>_. handles_balanced) c"
    using c
    by (cases held) (auto simp: ensure_handles_def wp_simps eq intro: wp_mono [OF create_handles_balanced])
qed

lemma collector_wait_balanced: "keeps handles_balanced (collector_wait w timeout watch_low wake n)"
proof -
  have waiting: "keeps (\<lambda>h. handles_balanced (held, h)) (wait_for_pressure w low timeout wake n)" for held low
    by (rule wait_for_pressure_keeps) (rule waiting_balanced)
  have stop: "keeps (\<lambda>h. handles_balanced (held, h)) (is_cancelled w)"
    and sleep: "keeps (\<lambda>h. handles_balanced (held, h)) (stop_wait timeout)" for held
    by (simp_all add: triple_def wp_simps balanced_event)
  show ?thesis
    unfolding collector_wait_def
    by (intro keeps_rules balanced_own ensure_handles_balanced balanced_io waiting stop sleep)
qed

lemma collector_collect_balanced: "keeps handles_balanced (collector_collect w)"
proof -
  have "keeps handles_balanced (io_of (query_notification w x))" for x
    by (intro balanced_io) (simp add: triple_def wp_simps query_notification_def balanced_event)
  then show ?thesis
    unfolding collector_collect_def by (intro keeps_rules balanced_own)
qed

text \<open>A collector's life: it is created, waits and collects in any order, and is dropped.\<close>

datatype collector_op = WaitOp duration bool "handle option" | CollectOp

fun collector_ops :: "guest_env \<Rightarrow> nat \<Rightarrow> collector_op list \<Rightarrow> (notification_handles, 'e, unit) object_method" where
  "collector_ops w n [] = ret ()"
| "collector_ops w n (WaitOp d watch wake # ops) =
     bind (collector_wait w d watch wake n) (\<lambda>_. collector_ops w n ops)"
| "collector_ops w n (CollectOp # ops) = bind (collector_collect w) (\<lambda>_. collector_ops w n ops)"

definition collector_life :: "guest_env \<Rightarrow> nat \<Rightarrow> collector_op list \<Rightarrow> (notification_handles, 'e, unit) object_method" where
  "collector_life w n ops =
     bind (io_of (create_handles w)) (\<lambda>created.
     bind (put_own (\<lambda>_. created)) (\<lambda>_.
     bind (collector_ops w n ops) (\<lambda>_. collector_drop)))"

lemma collector_ops_balanced: "keeps handles_balanced (collector_ops w n ops)"
proof (induction w n ops rule: collector_ops.induct)
  case (1 w n)
  show ?case unfolding collector_ops.simps by (rule keeps_ret)
next
  case (2 w n d watch wake ops)
  show ?case unfolding collector_ops.simps by (intro keeps_rules collector_wait_balanced 2)
next
  case (3 w n ops)
  show ?case unfolding collector_ops.simps by (intro keeps_rules collector_collect_balanced 3)
qed

lemma collector_drop_closes:
  "handles_balanced (held, h) \<Longrightarrow>
   wp collector_drop (\<lambda>_ c. fst c = None \<and> created_handles (snd c) = closed_handles (snd c)) (\<lambda>_ _. False) (held, h)"
  by (cases held)
    (auto simp: collector_drop_def close_notification_def wp_simps handles_balanced_def
      created_handles.simps closed_handles.simps)

lemma collector_life_balanced:
  "wp (collector_life w n ops) (\<lambda>_ c. fst c = None \<and> created_handles (snd c) = closed_handles (snd c))
     (\<lambda>_. handles_balanced) (None, [])" (is "wp _ ?Q _ _")
proof -
  have rest: "wp (bind (collector_ops w n ops) (\<lambda>_. collector_drop)) ?Q (\<lambda>_. handles_balanced) (held, h)"
    if "handles_balanced (held, h)" for held h
    unfolding wp_bind
    by (rule wp_mono [OF tripleD [OF collector_ops_balanced that]])
      (auto intro!: wp_mono [OF collector_drop_closes])
  have "handles_balanced (None, [])" by (simp add: handles_balanced_def)
  then show ?thesis
    unfolding collector_life_def wp_bind [of "io_of _"] wp_io_of
    by (intro wp_mono [OF create_handles_balanced]) (simp_all add: wp_bind [of "put_own _"] wp_put_own rest)
qed

section \<open>The load percentage\<close>

lemma load_percent_exact:
  assumes "0 < t" and "a \<le> t"
  shows "unat (load_percent t a) = 100 * (unat t - unat a) div unat t"
proof -
  have d: "unat (t - a) = unat t - unat a" using assms(2) by (simp add: unat_sub)
  have t: "unat t < 2 ^ 64" using unat_less_bound [of t] by simp
  have wide: "unat (ucast (t - a) :: u128) = unat t - unat a" "unat (ucast t :: u128) = unat t"
    using t d by (simp_all add: unsigned_ucast_eq take_bit_nat_eq_self)
  have m: "unat (ucast (t - a) * 100 :: u128) = 100 * (unat t - unat a)"
    using t unfolding unat_word_ariths wide by simp
  have "100 * (unat t - unat a) div unat t \<le> 100 * unat t div unat t" by (intro div_le_mono) simp
  also have "\<dots> \<le> 100" by simp
  finally have le: "100 * (unat t - unat a) div unat t < 2 ^ 32" by simp
  have narrow: "unat (ucast v :: u32) = take_bit 32 (unat v)" for v :: u128 by (simp add: unsigned_ucast_eq)
  show ?thesis
    unfolding load_percent_def narrow unat_div m wide using le by (simp add: take_bit_nat_eq_self)
qed

section \<open>Properties\<close>

text \<open>
  The notification collector neither leaks a handle nor closes one twice: whatever it is asked to
  do, in any environment, every handle it created is closed or still held, and when it is dropped each
  has been closed as often as it was created. Cut at any point, it still holds exactly what is open.
\<close>

theorem collector_releases_handles:
  "case (collector_life w n ops :: (notification_handles, 'e, unit) object_method) (None, []) of
     (Inr _, held, h) \<Rightarrow> held = None \<and> closed_handles h = created_handles h
   | (Inl _, held, h) \<Rightarrow> created_handles h = closed_handles h + held_handles held"
proof -
  have "wp (collector_life w n ops :: (notification_handles, 'e, unit) object_method)
      (\<lambda>_ c. fst c = None \<and> created_handles (snd c) = closed_handles (snd c)) (\<lambda>_. handles_balanced) (None, [])"
    by (rule collector_life_balanced)
  then show ?thesis
    by (auto simp: wp_def handles_balanced_def split: prod.splits sum.splits)
qed

text \<open>
  A snapshot of the native counters is consistent and exact: every counter is the number of pages
  times the page size, with no overflow, and the load is the percentage of physical memory in use,
  rounded down and never truncated.
\<close>

theorem native_counters_exact:
  assumes "native_snapshot p = Inr s"
  shows "wf_snapshot s
    \<and> unat (physical_total_bytes s) = unat (perf_physical_total p) * unat (perf_page_size p)
    \<and> unat (physical_available_bytes s) = unat (perf_physical_available p) * unat (perf_page_size p)
    \<and> unat (commit_total_bytes s) = unat (perf_commit_total p) * unat (perf_page_size p)
    \<and> unat (commit_limit_bytes s) = unat (perf_commit_limit p) * unat (perf_page_size p)
    \<and> unat (commit_peak_bytes s) = unat (perf_commit_peak p) * unat (perf_page_size p)
    \<and> unat (memory_load_percent s) =
        100 * (unat (physical_total_bytes s) - unat (physical_available_bytes s)) div unat (physical_total_bytes s)"
proof -
  have total: "0 < physical_total_bytes s" and le: "physical_available_bytes s \<le> physical_total_bytes s"
    using assms by (auto simp: native_snapshot_def Let_def result_simps wf_snapshot_def split: if_splits)
  have load: "memory_load_percent s = load_percent (physical_total_bytes s) (physical_available_bytes s)"
    using assms by (auto simp: native_snapshot_def Let_def result_simps split: if_splits)
  show ?thesis
    unfolding load load_percent_exact [OF total le]
    using assms
    by (auto simp: native_snapshot_def Let_def result_simps pages_to_bytes_def checked_mul_Some split: if_splits)
qed

theorem native_counters_exact_witness:
  "\<exists>s. native_snapshot \<lparr>perf_page_size = 4096, perf_physical_total = 2097152, perf_physical_available = 1000000,
      perf_commit_total = 1500000, perf_commit_limit = 4000000, perf_commit_peak = 1600000,
      perf_system_cache = 0, perf_kernel_paged = 0, perf_kernel_nonpaged = 0\<rparr> = Inr s
    \<and> unat (memory_load_percent s) = 52"
proof -
  let ?p = "\<lparr>perf_page_size = 4096, perf_physical_total = 2097152, perf_physical_available = 1000000,
      perf_commit_total = 1500000, perf_commit_limit = 4000000, perf_commit_peak = 1600000,
      perf_system_cache = 0, perf_kernel_paged = 0, perf_kernel_nonpaged = 0\<rparr>"
  have "is_ok (native_snapshot ?p)" by code_simp
  then obtain s where s: "native_snapshot ?p = Inr s" by (cases "native_snapshot ?p") simp_all
  from native_counters_exact [OF s] show ?thesis using s by auto
qed

end
