(* ===== verification/Guest_Wake.thy ===== *)
theory Guest_Wake
  imports Guest_Effects
begin

text \<open>
  The guest's end of the wake doorbell, \<open>windows/src/wake.rs\<close>: the optional virtio-serial channel with
  its overlapped read and its bounded write. Reports to the event log are not kept. A handle is owned by
  the value that opened it; dropping the channel closes its port and its event.
\<close>

section \<open>The native channel\<close>

record native_channel =
  nc_event :: handle
  nc_pending :: bool

definition report_wake :: "(guest_history \<Rightarrow> os_error + 'a) \<Rightarrow> (bool \<Rightarrow> guest_effect) \<Rightarrow> (guest_history, os_error failure, 'a) prog" where
  "report_wake answer event = (\<lambda>h. (map_err Failed (answer h), event (is_ok (answer h)) # h))"

definition channel_open :: "guest_env \<Rightarrow> (guest_history, os_error failure, native_channel) prog" where
  "channel_open w =
     bind (report_wake (g_wake_open w) WakePortOpened) (\<lambda>_.
     bind (try_failed (report_wake (g_wake_event w) WakeEventCreated)) (\<lambda>event.
       case event of
         Inl err \<Rightarrow> bind (emit WakePortClosed) (\<lambda>_. raise (Failed err))
       | Inr event \<Rightarrow> ret \<lparr>nc_event = event, nc_pending = False\<rparr>))"

definition ERROR_IO_INCOMPLETE :: int where
  "ERROR_IO_INCOMPLETE = 996"

definition ERROR_IO_PENDING :: int where
  "ERROR_IO_PENDING = 997"

definition io_pending :: "os_error option \<Rightarrow> bool" where
  "io_pending r = (case r of None \<Rightarrow> False | Some e \<Rightarrow> os_code e = Some ERROR_IO_PENDING)"

definition prefixed :: "string \<Rightarrow> os_error \<Rightarrow> os_error" where
  "prefixed prefix err = err\<lparr>os_code := None, os_text := lit prefix @ os_text err\<rparr>"

definition wake_channel_closed :: os_error where
  "wake_channel_closed = \<lparr>os_code = None, os_not_found = False, os_text = lit ''wake channel closed''\<rparr>"

text \<open>A read still in flight is left alone; otherwise the next one is issued.\<close>

definition issue_read :: "guest_env \<Rightarrow> (native_channel, os_error, handle) object_method" where
  "issue_read w =
     bind (io_of (\<lambda>h. let r = g_wake_read w h; started = (r = None \<or> io_pending r)
                      in (Inr (if started then None else r), WakeReadIssued started # h))) (\<lambda>r.
       case r of
         Some err \<Rightarrow> raise (Failed (prefixed ''arm new read: '' err))
       | None \<Rightarrow> bind (put_own (\<lambda>c. c\<lparr>nc_pending := True\<rparr>)) (\<lambda>_. own nc_event))"

definition arm :: "guest_env \<Rightarrow> (native_channel, os_error, handle) object_method" where
  "arm w =
     bind (own nc_pending) (\<lambda>busy.
       if \<not> busy then issue_read w
       else
         bind (io_of (try_failed (report_wake (g_wake_result w) WakeReadChecked))) (\<lambda>r.
           case r of
             Inl err \<Rightarrow>
               if os_code err = Some ERROR_IO_INCOMPLETE then own nc_event
               else raise (Failed (prefixed ''complete pending read: '' err))
           | Inr count \<Rightarrow>
               bind (put_own (\<lambda>c. c\<lparr>nc_pending := False\<rparr>)) (\<lambda>_.
                 if count = 0 then raise (Failed wake_channel_closed) else issue_read w)))"

text \<open>A write that does not complete at once is waited for, cancelled if need be, and always joined.\<close>

definition channel_notify :: "guest_env \<Rightarrow> (guest_history, os_error failure, unit) prog" where
  "channel_notify w =
     bind (is_cancelled w) (\<lambda>stopped.
       if stopped then ret ()
       else
         bind (report_wake (g_wake_event w) WakeEventCreated) (\<lambda>event.
         bind (\<lambda>h. let r = g_wake_write w h
                   in (Inr r, WakeWriteIssued (io_pending r) # h)) (\<lambda>r.
           case r of
             None \<Rightarrow> ret ()
           | Some err \<Rightarrow>
               if \<not> io_pending r then raise (Failed err)
               else
                 bind (observe (ObjectsWaited (event # (case g_stop_event w of None \<Rightarrow> [] | Some s \<Rightarrow> [s])) 100)
                         (\<lambda>h. Inr (g_wait w h))) (\<lambda>waited.
                 bind (if waited \<noteq> 0 then emit WakeWriteCancelled else ret ()) (\<lambda>_.
                 bind (report_wake (g_wake_result w) (\<lambda>_. WakeWriteJoined)) (\<lambda>_. ret ()))))))"

definition channel_drop :: "native_channel \<Rightarrow> (guest_history, 'e failure, unit) prog" where
  "channel_drop c =
     bind (if nc_pending c then emit WakeReadJoined else ret ()) (\<lambda>_. emit WakePortClosed)"

section \<open>The wake channel\<close>

record wake_channel =
  wake_enabled :: bool
  wake_native :: "native_channel option"
  wake_reported :: bool

definition default_wake :: wake_channel where
  "default_wake = \<lparr>wake_enabled = False, wake_native = None, wake_reported = False\<rparr>"

definition enabled_wake :: wake_channel where
  "enabled_wake = default_wake\<lparr>wake_enabled := True\<rparr>"

definition drop_native :: "(wake_channel, 'e, unit) object_method" where
  "drop_native =
     bind (own wake_native) (\<lambda>c.
     bind (put_own (\<lambda>k. k\<lparr>wake_native := None\<rparr>)) (\<lambda>_.
       case c of None \<Rightarrow> ret () | Some c \<Rightarrow> io_of (channel_drop c)))"

definition open_native :: "guest_env \<Rightarrow> (wake_channel, 'e, unit) object_method" where
  "open_native w =
     bind (own wake_native) (\<lambda>c.
       if c \<noteq> None then ret ()
       else
         bind (io_of (try_failed (channel_open w))) (\<lambda>r.
           case r of
             Inr c \<Rightarrow> put_own (\<lambda>k. k\<lparr>wake_native := Some c, wake_reported := False\<rparr>)
           | Inl _ \<Rightarrow> put_own (\<lambda>k. k\<lparr>wake_reported := True\<rparr>)))"

definition arm_native :: "guest_env \<Rightarrow> (wake_channel, 'e, handle option) object_method" where
  "arm_native w =
     bind (own wake_native) (\<lambda>c.
       case c of
         None \<Rightarrow> ret None
       | Some c \<Rightarrow>
           bind (try_failed (part (\<lambda>k. the (wake_native k)) (\<lambda>f k. k\<lparr>wake_native := Some (f (the (wake_native k)))\<rparr>) (arm w))) (\<lambda>r.
             case r of
               Inr event \<Rightarrow> ret (Some event)
             | Inl _ \<Rightarrow> bind drop_native (\<lambda>_. ret None)))"

definition wake_refresh :: "guest_env \<Rightarrow> (wake_channel, 'e, handle option) object_method" where
  "wake_refresh w =
     bind (own wake_enabled) (\<lambda>enabled.
       if \<not> enabled then ret None
       else bind (open_native w) (\<lambda>_. arm_native w))"

definition wake_event :: "wake_channel \<Rightarrow> handle option" where
  "wake_event k = map_option nc_event (wake_native k)"

definition wake_notify :: "guest_env \<Rightarrow> (wake_channel, 'e, unit) object_method" where
  "wake_notify w =
     bind (own wake_native) (\<lambda>c.
       case c of
         None \<Rightarrow> ret ()
       | Some _ \<Rightarrow>
           bind (io_of (try_failed (channel_notify w))) (\<lambda>r.
             case r of Inr _ \<Rightarrow> ret () | Inl _ \<Rightarrow> drop_native))"

section \<open>Outstanding input and output\<close>

text \<open>The read and the write the operating system may still complete into the program's storage.\<close>

fun read_open :: "guest_history \<Rightarrow> bool" where
  "read_open [] = False"
| "read_open (e # h) =
     (case e of
        WakeReadIssued started \<Rightarrow> started \<or> read_open h
      | WakeReadChecked complete \<Rightarrow> \<not> complete \<and> read_open h
      | WakeReadJoined \<Rightarrow> False
      | _ \<Rightarrow> read_open h)"

fun write_open :: "guest_history \<Rightarrow> bool" where
  "write_open [] = False"
| "write_open (e # h) =
     (case e of
        WakeWriteIssued started \<Rightarrow> started \<or> write_open h
      | WakeWriteJoined \<Rightarrow> False
      | _ \<Rightarrow> write_open h)"

text \<open>Storage is reused only by a read that has no predecessor in flight, and freed only when nothing is.\<close>

fun storage_safe :: "guest_history \<Rightarrow> bool" where
  "storage_safe [] = True"
| "storage_safe (e # h) =
     (storage_safe h
      \<and> (case e of
           WakeReadIssued _ \<Rightarrow> \<not> read_open h
         | WakeWriteIssued _ \<Rightarrow> \<not> write_open h
         | WakePortClosed \<Rightarrow> \<not> read_open h \<and> \<not> write_open h
         | _ \<Rightarrow> True))"

definition wake_inv :: "wake_channel \<times> guest_history \<Rightarrow> bool" where
  "wake_inv k \<longleftrightarrow>
     storage_safe (snd k) \<and> \<not> write_open (snd k)
     \<and> read_open (snd k) = (case wake_native (fst k) of None \<Rightarrow> False | Some c \<Rightarrow> nc_pending c)"

lemma io_pending_None [simp]: "\<not> io_pending None"
  by (simp add: io_pending_def)

lemma wp_report_wake [wp_simps]:
  "wp (report_wake answer event) Q E h =
     (case answer h of Inl err \<Rightarrow> E (Failed err) (event False # h) | Inr x \<Rightarrow> Q x (event True # h))"
  by (simp add: wp_def report_wake_def split: sum.split)

lemma wp_pure [wp_simps]: "wp (\<lambda>h. (Inr (f h), g h)) Q E h = Q (f h) (g h)"
  by (simp add: wp_def)

lemma open_native_safe: "keeps wake_inv (open_native w)"
  by (auto simp: triple_def open_native_def channel_open_def wp_simps wake_inv_def split: sum.split option.splits)

lemma drop_native_safe: "keeps wake_inv drop_native"
  by (auto simp: triple_def drop_native_def channel_drop_def wp_simps wake_inv_def split: option.splits)

definition channel_inv :: "native_channel \<times> guest_history \<Rightarrow> bool" where
  "channel_inv k \<longleftrightarrow> storage_safe (snd k) \<and> \<not> write_open (snd k) \<and> read_open (snd k) = nc_pending (fst k)"

lemma wake_inv_native: "wake_native k = Some c \<Longrightarrow> wake_inv (k, h) = channel_inv (c, h)"
  by (simp add: wake_inv_def channel_inv_def)

lemma issue_read_safe:
  "channel_inv (c, h) \<Longrightarrow> \<not> nc_pending c \<Longrightarrow> wp (issue_read w) (\<lambda>_. channel_inv) (\<lambda>_. channel_inv) (c, h)"
  by (auto simp: issue_read_def wp_simps Let_def channel_inv_def split: option.split)

lemma arm_safe: "keeps channel_inv (arm w)"
proof (rule tripleI)
  fix k assume inv: "channel_inv k"
  obtain c h where k: "k = (c, h)" by (cases k)
  have checked: "channel_inv (c, WakeReadChecked False # h)" if "nc_pending c"
    using inv that by (simp add: k channel_inv_def)
  have complete: "channel_inv (c\<lparr>nc_pending := False\<rparr>, WakeReadChecked True # h)"
    using inv by (simp add: k channel_inv_def)
  show "wp (arm w) (\<lambda>_. channel_inv) (\<lambda>_. channel_inv) k"
    using inv checked complete
    by (simp add: k arm_def wp_simps issue_read_safe split: sum.split)
qed

lemma part_native_safe:
  assumes "wake_inv (k, h)" and "wake_native k = Some c"
  shows "wp (try_failed (part (\<lambda>k. the (wake_native k)) (\<lambda>f k. k\<lparr>wake_native := Some (f (the (wake_native k)))\<rparr>) (arm w)))
    (\<lambda>_. wake_inv) (\<lambda>_. wake_inv) (k, h)"
  unfolding wp_simps using assms(1) unfolding wake_inv_native [OF assms(2)]
  by (simp add: assms(2), intro wp_mono [OF tripleD [OF arm_safe]])
    (auto simp: wake_inv_def channel_inv_def split: failure.split)

lemma arm_native_safe: "keeps wake_inv (arm_native w)"
proof (rule tripleI)
  fix k :: "wake_channel \<times> guest_history"
  assume inv: "wake_inv k"
  obtain c h where k: "k = (c, h)" by (cases k)
  have rest: "keeps wake_inv (case r of Inr event \<Rightarrow> ret (Some event) | Inl _ \<Rightarrow> bind drop_native (\<lambda>_. ret None))"
    for r :: "os_error + handle"
    by (intro keeps_rules drop_native_safe)
  show "wp (arm_native w) (\<lambda>_. wake_inv) (\<lambda>_. wake_inv) k"
    using inv unfolding k arm_native_def wp_bind [of "own _"] wp_own
    by (cases "wake_native c")
      (auto simp: wp_ret wp_bind [of "try_failed _"] intro: wp_mono [OF part_native_safe] tripleD [OF rest])
qed

lemma wake_refresh_safe: "keeps wake_inv (wake_refresh w)"
proof -
  have "keeps wake_inv (own f)" for f :: "wake_channel \<Rightarrow> 'v"
    by (auto simp: triple_def wp_simps)
  then show ?thesis
    unfolding wake_refresh_def by (intro keeps_rules open_native_safe arm_native_safe)
qed

lemma channel_notify_safe:
  "wake_inv (k, h) \<Longrightarrow>
   wp (channel_notify w) (\<lambda>_ h'. wake_inv (k, h')) (\<lambda>_ h'. wake_inv (k, h')) h"
  by (cases "wake_native k")
    (simp_all add: channel_notify_def wp_simps Let_def wake_inv_def split: sum.split option.split)

lemma wake_notify_safe: "keeps wake_inv (wake_notify w)"
proof -
  have io: "keeps wake_inv (io_of (try_failed (channel_notify w)))"
    unfolding triple_def
    by (auto simp: wp_simps intro!: wp_mono [OF channel_notify_safe] split: failure.split)
  have "keeps wake_inv (own f)" for f :: "wake_channel \<Rightarrow> 'v"
    by (auto simp: triple_def wp_simps)
  then show ?thesis
    unfolding wake_notify_def by (intro keeps_rules io drop_native_safe)
qed

section \<open>Properties\<close>

datatype wake_op = RefreshOp | NotifyOp

fun wake_ops :: "guest_env \<Rightarrow> wake_op list \<Rightarrow> (wake_channel, 'e, unit) object_method" where
  "wake_ops w [] = drop_native"
| "wake_ops w (RefreshOp # ops) = bind (wake_refresh w) (\<lambda>_. wake_ops w ops)"
| "wake_ops w (NotifyOp # ops) = bind (wake_notify w) (\<lambda>_. wake_ops w ops)"

lemma wake_ops_safe: "keeps wake_inv (wake_ops w ops)"
proof (induction w ops rule: wake_ops.induct)
  case (1 w)
  show ?case unfolding wake_ops.simps by (rule drop_native_safe)
next
  case (2 w ops)
  show ?case unfolding wake_ops.simps by (intro keeps_rules wake_refresh_safe 2)
next
  case (3 w ops)
  show ?case unfolding wake_ops.simps by (intro keeps_rules wake_notify_safe 3)
qed

text \<open>
  C30. The wake channel never gives the operating system's memory away: over any sequence of refreshes
  and notifications and the final drop, in any environment, a read is issued into the channel's buffer
  only when no read is outstanding, and the port is closed, with the buffers freed, only when neither a
  read nor a write is. A write is never left outstanding between two operations.
\<close>

theorem wake_storage_is_joined:
  "storage_safe (snd (snd ((wake_ops w ops :: (wake_channel, 'e, unit) object_method) (enabled_wake, []))))
   \<and> \<not> write_open (snd (snd ((wake_ops w ops :: (wake_channel, 'e, unit) object_method) (enabled_wake, []))))"
proof -
  have "wake_inv (enabled_wake, [])"
    by (simp add: wake_inv_def enabled_wake_def default_wake_def)
  then have "wake_inv (snd ((wake_ops w ops :: (wake_channel, 'e, unit) object_method) (enabled_wake, [])))"
    by (rule keeps_state [OF wake_ops_safe, OF _ prod.collapse [symmetric]])
  then show ?thesis by (simp add: wake_inv_def)
qed

end
