(* ===== verification/Guest_Worker.thy ===== *)
theory Guest_Worker
  imports Guest_Sensors Guest_Wake Guest_Channel
begin

text \<open>
  The guest's worker: \<open>windows/src/requests.rs\<close>, which keeps the one unresolved request durable, and
  \<open>windows/src/runtime.rs\<close>, which samples, polls the policy, publishes and waits. The worker is the
  production one, on the native counters, clocks and notifications; \<open>n\<close> bounds the iterations of each
  loop inside one step.
\<close>

section \<open>Requests\<close>

definition MAX_REQUEST_STATE_BYTES :: int where
  "MAX_REQUEST_STATE_BYTES = 65536"

record guest_requests =
  gr_requester :: guest_requester
  gr_status_path :: rust_str
  gr_state_path :: rust_str
  gr_retry_timeout :: duration
  gr_resolved_last_poll :: bool
  gr_last_consumed_result :: "memory_result option"
  gr_result_consumed_unix_millis :: "u64 option"
  gr_driver_file_version :: "rust_str + rust_str"

definition default_request_state :: guest_request_state where
  "default_request_state = \<lparr>pending = None, last_issued_unix_millis = 0\<rparr>"

definition not_found :: os_error where
  "not_found = \<lparr>os_code = Some 2, os_not_found = True, os_text = lit ''The system cannot find the file specified. (os error 2)''\<rparr>"

text \<open>Opening the state file fails with \<open>NotFound\<close> exactly when there is none.\<close>

definition open_state_file :: "guest_env \<Rightarrow> rust_str \<Rightarrow> (guest_history, os_error failure, byte list) prog" where
  "open_state_file w path =
     observe (FileOpened path) (\<lambda>h.
       case g_files w (FileOpened path) h of
         Some e \<Rightarrow> Inl (e\<lparr>os_not_found := False\<rparr>)
       | None \<Rightarrow> ok_or (stored w path h) not_found)"

definition load_request_state :: "guest_env \<Rightarrow> rust_str \<Rightarrow> (guest_history, rust_str failure, guest_request_state) prog" where
  "load_request_state w path =
     bind (try_failed (open_state_file w path)) (\<lambda>file.
       case file of
         Inl e \<Rightarrow>
           if os_not_found e then ret default_request_state
           else raise (Failed (io_failure ''open request state'' e))
       | Inr bytes \<Rightarrow>
           bind (map_failed (io_failure ''read request state'') (file_op w (FileRead path))) (\<lambda>_.
             if MAX_REQUEST_STATE_BYTES < int (length bytes)
               then raise (Failed (lit ''request state exceeds its byte limit''))
             else lift_result (map_err (\<lambda>e. Failed (lit ''request state is invalid: '' @ e)) (decode_state w bytes))))"

definition open_requests ::
    "guest_env \<Rightarrow> guest_memory_policy \<Rightarrow> rust_str \<Rightarrow> rust_str \<Rightarrow> rust_str \<Rightarrow> rust_str \<Rightarrow> duration \<Rightarrow>
     (guest_history, rust_str failure, guest_requests) prog" where
  "open_requests w p vm service session publication retry_timeout =
     bind (load_request_state w (request_state_path publication)) (\<lambda>state.
     bind (lift_result (map_err Failed (new_requester p vm service session state))) (\<lambda>q.
       ret \<lparr>gr_requester = q, gr_status_path = host_status_path publication,
            gr_state_path = request_state_path publication, gr_retry_timeout = retry_timeout,
            gr_resolved_last_poll = False, gr_last_consumed_result = None,
            gr_result_consumed_unix_millis = None, gr_driver_file_version = g_driver_version w\<rparr>))"

definition requests_set_ram_limits :: "u64 \<Rightarrow> u64 \<Rightarrow> guest_requests \<Rightarrow> (rust_str + unit) \<times> guest_requests" where
  "requests_set_ram_limits minimum maximum g =
     (let (r, q) = requester_set_ram_limits (gr_requester g) minimum maximum in (r, g\<lparr>gr_requester := q\<rparr>))"

text \<open>The status QGA writes beside the publication, or nothing while it cannot be used.\<close>

definition read_status :: "guest_env \<Rightarrow> rust_str \<Rightarrow> (guest_history, rust_str failure, host_memory_status option) prog" where
  "read_status w path =
     bind (observe (FileOpened path) (\<lambda>h. Inr (g_status w h))) (\<lambda>file.
       case file of
         Inl e \<Rightarrow>
           if os_not_found e \<or> os_code e = Some 32 \<or> os_code e = Some 33 then ret None
           else raise (Failed (io_failure ''open host status'' e))
       | Inr (Inl e) \<Rightarrow> bind (emit (FileRead path)) (\<lambda>_. raise (Failed (io_failure ''read host status'' e)))
       | Inr (Inr bytes) \<Rightarrow>
           bind (emit (FileRead path)) (\<lambda>_.
             if MAX_HOST_STATUS_BYTES < int (length bytes) \<or> bytes = [] \<or> last bytes \<noteq> 10 then ret None
             else ret (case decode_status w bytes of Inl _ \<Rightarrow> None | Inr st \<Rightarrow> Some st)))"

definition persist_requests :: "guest_env \<Rightarrow> nat \<Rightarrow> (guest_requests, rust_str, unit) object_method" where
  "persist_requests w n =
     bind (own id) (\<lambda>g.
     bind (lift_result (map_err (\<lambda>e. Failed (lit ''encode request state: '' @ e))
             (encode_state w (rq_state (gr_requester g))))) (\<lambda>bytes.
     io_of (map_failed (\<lambda>e. lit ''persist request state: '' @ e)
       (replace_file w (gr_state_path g) bytes True (gr_retry_timeout g) n))))"

definition consume_result :: "u64 \<Rightarrow> memory_result option \<Rightarrow> guest_requests \<Rightarrow> guest_requests" where
  "consume_result observed resolved g =
     (case resolved of
        None \<Rightarrow> g
      | Some x \<Rightarrow> g\<lparr>gr_last_consumed_result := Some x, gr_result_consumed_unix_millis := Some observed\<rparr>)"

definition requests_poll :: "guest_env \<Rightarrow> target_sample \<Rightarrow> nat \<Rightarrow> (guest_requests, rust_str, memory_request option) object_method" where
  "requests_poll w s n =
     bind (put_own (\<lambda>g. g\<lparr>gr_resolved_last_poll := False\<rparr>)) (\<lambda>_.
     bind (own gr_status_path) (\<lambda>path.
     bind (io_of (read_status w path)) (\<lambda>status.
     bind (own (\<lambda>g. poll (gr_requester g) s status)) (\<lambda>outcome.
     bind (put_own (\<lambda>g. g\<lparr>gr_requester := snd outcome\<rparr>)) (\<lambda>_.
     bind (lift_result (map_err Failed (fst outcome))) (\<lambda>decision.
     bind (put_own (\<lambda>g. g\<lparr>gr_resolved_last_poll := (dec_resolved decision \<noteq> None)\<rparr>)) (\<lambda>_.
     bind (if Guest_Policy.persist decision then persist_requests w n else ret ()) (\<lambda>_.
     bind (put_own (consume_result (smp_observed_unix_millis s) (dec_resolved decision))) (\<lambda>_.
     ret (dec_request decision))))))))))"

definition requests_diagnostics :: "guest_env \<Rightarrow> u64 option \<Rightarrow> guest_requests \<Rightarrow> guest_diagnostics" where
  "requests_diagnostics w uptime g =
     \<lparr>build_id = g_build_id w, driver_file_version = gr_driver_file_version g, boot_uptime_millis = uptime,
      diag_policy = diagnostics (gr_requester g), last_consumed_result = gr_last_consumed_result g,
      result_consumed_unix_millis = gr_result_consumed_unix_millis g\<rparr>"

section \<open>The worker\<close>

record guest_worker =
  gw_notifications :: notification_handles
  gw_publication :: rust_str
  gw_publish_timeout :: duration
  gw_diagnostics :: "rust_str option"
  gw_started_at :: duration
  gw_requests :: guest_requests
  gw_next_sequence :: u64
  gw_previous_monotonic :: "u64 option"
  gw_interval :: duration
  gw_last_native_low :: bool
  gw_collection_failed :: bool
  gw_wake :: wake_channel

type_synonym 'a worker = "(guest_worker, rust_str, 'a) object_method"

text \<open>The first part of a poll: what is sampled before the request is decided.\<close>

definition collect_sample :: "guest_env \<Rightarrow> memory_telemetry_snapshot worker" where
  "collect_sample w =
     bind (part gw_wake gw_wake_update (wake_refresh w)) (\<lambda>_.
     bind (put_own (\<lambda>g. g\<lparr>gw_collection_failed := True\<rparr>)) (\<lambda>_.
     bind (io_of (map_failed (\<lambda>e. lit ''native memory telemetry failed: '' @ display_demand_error e) (collect_counters w))) (\<lambda>memory.
     bind (put_own (\<lambda>g. g\<lparr>gw_collection_failed := False\<rparr>)) (\<lambda>_. ret memory))))"

definition take_sample :: "guest_env \<Rightarrow> memory_telemetry_snapshot \<Rightarrow> raw_telemetry_envelope worker" where
  "take_sample w memory =
     bind (io_of (unix_millis w)) (\<lambda>observed.
     bind (own id) (\<lambda>g.
     bind (io_of (monotonic_millis w (gw_started_at g))) (\<lambda>monotonic.
       if (case gw_previous_monotonic g of None \<Rightarrow> False | Some previous \<Rightarrow> monotonic \<le> previous)
         then raise (Failed (lit ''raw telemetry monotonic clock did not advance''))
       else
         let q = gr_requester (gw_requests g) in
         bind (part gw_notifications gw_notifications_update (collector_collect w)) (\<lambda>native.
         bind (put_own (\<lambda>g. g\<lparr>gw_last_native_low := (native = None \<or> native = Some Low)\<rparr>)) (\<lambda>_.
         ret ((new_envelope (rq_vm_name q) (rq_service_name q) (rq_session_id q) observed monotonic
                 (gw_next_sequence g) memory)\<lparr>env_native_pressure := native\<rparr>))))))"

definition envelope_sample :: "raw_telemetry_envelope \<Rightarrow> target_sample" where
  "envelope_sample e =
     \<lparr>smp_session_id = env_session_id e, smp_observed_unix_millis = env_observed_unix_millis e,
      smp_monotonic_millis = env_monotonic_millis e, smp_sequence = env_sequence e,
      smp_memory = env_memory e, smp_native_pressure = env_native_pressure e\<rparr>"

text \<open>The second part: the request, its publication, and the optional copy, whose failure is not one.\<close>

definition decide_envelope :: "guest_env \<Rightarrow> raw_telemetry_envelope \<Rightarrow> nat \<Rightarrow> raw_telemetry_envelope worker" where
  "decide_envelope w e n =
     bind (map_failed (\<lambda>err. lit ''guest memory request failed: '' @ err)
             (part gw_requests gw_requests_update (requests_poll w (envelope_sample e) n))) (\<lambda>decided.
     bind (io_of (uptime_millis w)) (\<lambda>uptime.
     own (\<lambda>g. e\<lparr>env_request := decided, env_diagnostics := Some (requests_diagnostics w uptime (gw_requests g))\<rparr>)))"

definition publish_copy :: "guest_env \<Rightarrow> raw_telemetry_envelope \<Rightarrow> nat \<Rightarrow> unit worker" where
  "publish_copy w e n =
     bind (own gw_diagnostics) (\<lambda>copy.
       case copy of
         None \<Rightarrow> ret ()
       | Some path \<Rightarrow> bind (try_failed (io_of (publish_envelope w path 100 e n))) (\<lambda>_. ret ()))"

definition publish_record :: "guest_env \<Rightarrow> raw_telemetry_envelope \<Rightarrow> nat \<Rightarrow> unit worker" where
  "publish_record w e n =
     bind (own id) (\<lambda>g.
     bind (io_of (map_failed (\<lambda>err. lit ''raw telemetry publication failed: '' @ err)
             (publish_envelope w (gw_publication g) (gw_publish_timeout g) e n))) (\<lambda>_.
     bind (part gw_wake gw_wake_update (wake_notify w)) (\<lambda>_.
     publish_copy w e n)))"

definition advance_sequence :: "u64 \<Rightarrow> unit worker" where
  "advance_sequence monotonic =
     bind (put_own (\<lambda>g. g\<lparr>gw_previous_monotonic := Some monotonic\<rparr>)) (\<lambda>_.
     bind (own gw_next_sequence) (\<lambda>sequence.
       case checked_add sequence 1 of
         None \<Rightarrow> raise (Failed (lit ''raw telemetry sequence exhausted''))
       | Some next \<Rightarrow> put_own (\<lambda>g. g\<lparr>gw_next_sequence := next\<rparr>)))"

definition poll_once :: "guest_env \<Rightarrow> nat \<Rightarrow> raw_telemetry_envelope worker" where
  "poll_once w n =
     bind (collect_sample w) (\<lambda>memory.
     bind (take_sample w memory) (\<lambda>sampled.
     bind (decide_envelope w sampled n) (\<lambda>e.
     bind (publish_record w e n) (\<lambda>_.
     bind (advance_sequence (env_monotonic_millis e)) (\<lambda>_.
     ret e)))))"

definition invalidate_requests :: "guest_requests \<Rightarrow> guest_requests" where
  "invalidate_requests g = g\<lparr>gr_requester := requester_invalidate_history (gr_requester g)\<rparr>"

definition poll_or_retry :: "guest_env \<Rightarrow> nat \<Rightarrow> unit worker" where
  "poll_or_retry w n =
     bind (try_failed (poll_once w n)) (\<lambda>r.
     bind (own gw_collection_failed) (\<lambda>failed.
       case r of
         Inr _ \<Rightarrow> ret ()
       | Inl err \<Rightarrow>
           if failed then
             put_own (\<lambda>g. g\<lparr>gw_requests := invalidate_requests (gw_requests g), gw_last_native_low := True\<rparr>)
           else raise (Failed err)))"

definition worker_initialize :: "guest_env \<Rightarrow> nat \<Rightarrow> unit worker" where
  "worker_initialize w n =
     bind (io_of (is_cancelled w)) (\<lambda>stopped. if stopped then ret () else poll_or_retry w n)"

definition worker_wait :: "guest_env \<Rightarrow> nat \<Rightarrow> unit worker" where
  "worker_wait w n =
     bind (own id) (\<lambda>g.
       if gr_resolved_last_poll (gw_requests g) then ret ()
       else part gw_notifications gw_notifications_update
              (collector_wait w (gw_interval g) (\<not> gw_last_native_low g) (wake_event (gw_wake g)) n))"

fun worker_run :: "guest_env \<Rightarrow> nat \<Rightarrow> nat \<Rightarrow> unit worker" where
  "worker_run w n 0 = raise OutOfFuel"
| "worker_run w n (Suc k) =
     bind (io_of (is_cancelled w)) (\<lambda>stopped.
       if stopped then ret ()
       else
         bind (worker_wait w n) (\<lambda>_.
         bind (io_of (stop_wait 1)) (\<lambda>_.
         bind (io_of (is_cancelled w)) (\<lambda>stopped.
         bind (if stopped then ret () else poll_or_retry w n) (\<lambda>_.
         worker_run w n k)))))"

section \<open>A run of the service\<close>

definition fresh_worker ::
    "windows_service_config_file \<Rightarrow> notification_handles \<Rightarrow> duration \<Rightarrow> guest_requests \<Rightarrow> guest_worker" where
  "fresh_worker f handles started requests =
     \<lparr>gw_notifications = handles, gw_publication = demand_report_path f,
      gw_publish_timeout = uint (shutdown_timeout_millis f), gw_diagnostics = wsc_telemetry_path f,
      gw_started_at = started, gw_requests = requests, gw_next_sequence = 0,
      gw_previous_monotonic = None, gw_interval = uint (poll_interval_millis f),
      gw_last_native_low = False, gw_collection_failed = False, gw_wake = enabled_wake\<rparr>"

text \<open>A worker refused for its interval is dropped with the handles it was given.\<close>

definition new_worker ::
    "guest_env \<Rightarrow> windows_service_config_file \<Rightarrow> guest_requests \<Rightarrow> (guest_history, rust_str failure, guest_worker) prog" where
  "new_worker w f requests =
     bind (create_handles w) (\<lambda>handles.
     bind (guest_instant w) (\<lambda>started.
       if poll_interval_millis f = 0
         then bind (case handles of
                      None \<Rightarrow> ret ()
                    | Some (low, high) \<Rightarrow> bind (close_notification low) (\<lambda>_. close_notification high))
                (\<lambda>_. raise (Failed (lit ''polling interval must be greater than zero'')))
       else ret (fresh_worker f handles started requests)))"

definition native_worker :: "guest_env \<Rightarrow> windows_service_config_file \<Rightarrow> (guest_history, rust_str failure, guest_worker) prog" where
  "native_worker w f =
     bind (process_session_id w) (\<lambda>session.
     bind (open_requests w (wsc_policy f) (wsc_vm_name f) (wsc_service_name f) session (demand_report_path f)
             (uint (shutdown_timeout_millis f))) (\<lambda>opened.
     bind (lift_result (map_err Failed (fst (requests_set_ram_limits (wsc_min_ram f) (wsc_max_ram f) opened)))) (\<lambda>_.
     new_worker w f (snd (requests_set_ram_limits (wsc_min_ram f) (wsc_max_ram f) opened)))))"

text \<open>The body of the worker thread, and a run of the service from its start.\<close>

definition worker_body :: "guest_env \<Rightarrow> nat \<Rightarrow> nat \<Rightarrow> unit worker" where
  "worker_body w n k =
     bind (io_of (is_cancelled w)) (\<lambda>stopped.
       if stopped then ret ()
       else
         bind (worker_initialize w n) (\<lambda>_.
         bind (io_of (is_cancelled w)) (\<lambda>stopped.
           if stopped then ret () else worker_run w n k)))"

definition worker_thread :: "guest_env \<Rightarrow> nat \<Rightarrow> nat \<Rightarrow> unit worker" where
  "worker_thread w n k =
     bind (try_failed (worker_body w n k)) (\<lambda>r.
     bind (part gw_notifications gw_notifications_update collector_drop) (\<lambda>_.
     bind (part gw_wake gw_wake_update drop_native) (\<lambda>_.
     lift_result (map_err Failed r))))"

definition serve :: "guest_env \<Rightarrow> windows_service_config_file \<Rightarrow> nat \<Rightarrow> nat \<Rightarrow> (guest_history, rust_str failure, unit) prog" where
  "serve w f n k =
     bind (emit SessionStarted) (\<lambda>_.
     bind (native_worker w f) (\<lambda>g h.
       case worker_thread w n k (g, h) of (r, (g', h')) \<Rightarrow> (r, h')))"

end
