(* ===== verification/Guest_Invariants.thy ===== *)
theory Guest_Invariants
  imports Guest_Worker
begin

text \<open>
  Most of what the guest worker does touches no file it relies on. The locale states once what every
  such operation keeps: any predicate on histories that survives the quiet_effect events. The theories on
  durability interpret it for the predicates they need.
\<close>

locale event_invariant =
  fixes I :: "guest_history \<Rightarrow> bool"
  assumes quiet_event: "I h \<Longrightarrow> quiet_effect e \<Longrightarrow> I (e # h)"
begin

definition on_history :: "'o \<times> guest_history \<Rightarrow> bool" where
  "on_history x = I (snd x)"

lemma keeps_observe: "quiet_effect e \<Longrightarrow> keeps I (observe e answer)"
  by (simp add: triple_def wp_simps quiet_event split: sum.split)

lemma keeps_emit: "quiet_effect e \<Longrightarrow> keeps I (emit e)"
  by (simp add: triple_def wp_simps quiet_event)

lemma keeps_is_cancelled: "keeps I (is_cancelled w)"
  by (simp add: triple_def wp_simps quiet_event)

lemma keeps_stop_wait: "keeps I (stop_wait d)"
  by (simp add: triple_def wp_simps quiet_event)

lemma keeps_guest_instant: "keeps I (guest_instant w)"
  by (simp add: triple_def wp_simps quiet_event)

lemma keeps_file_op: "quiet_effect e \<Longrightarrow> keeps I (file_op w e)"
  by (simp add: triple_def wp_simps quiet_event split: option.split)

lemma keeps_report_wake: "(\<And>b. quiet_effect (event b)) \<Longrightarrow> keeps I (report_wake answer event)"
  by (simp add: triple_def wp_simps quiet_event split: sum.split)

lemma keeps_pure: "(\<And>h. quiet_effect (e h)) \<Longrightarrow> keeps I (\<lambda>h. (Inr (f h), e h # h))"
  by (simp add: triple_def wp_simps quiet_event)

lemma history_own: "keeps on_history (own f)"
  by (auto simp: triple_def wp_simps)

lemma history_put_own: "keeps on_history (put_own f)"
  by (auto simp: triple_def wp_simps on_history_def)

lemma history_io_of: "keeps I m \<Longrightarrow> keeps on_history (io_of m)"
  by (auto simp: triple_def wp_simps on_history_def)

lemma history_part:
  fixes field :: "'o \<Rightarrow> 'p"
  assumes "keeps on_history m"
  shows "keeps on_history (part field update m)"
proof (rule tripleI)
  fix s :: "'o \<times> guest_history"
  assume s: "on_history s"
  obtain x h where eq: "s = (x, h)" by (cases s)
  show "wp (part field update m) (\<lambda>_. on_history) (\<lambda>_. on_history) s"
    unfolding eq wp_part
    by (rule wp_mono [OF tripleD [OF assms]]) (use s in \<open>auto simp: on_history_def eq\<close>)
qed

lemmas event_rules = keeps_rules keeps_observe keeps_emit keeps_is_cancelled keeps_stop_wait keeps_guest_instant
  keeps_file_op keeps_report_wake history_own history_put_own history_io_of history_part

subsection \<open>Sensors\<close>

lemma keeps_clocks:
  "keeps I (unix_millis w)" "keeps I (monotonic_millis w t)" "keeps I (uptime_millis w)"
  "keeps I (process_session_id w)" "keeps I (collect_counters w)"
  unfolding unix_millis_def monotonic_millis_def guest_elapsed_def uptime_millis_def process_session_id_def
    collect_counters_def
  by (intro event_rules; simp)+

lemma keeps_close_notification: "keeps I (close_notification x)"
  unfolding close_notification_def by (intro event_rules) simp

lemma keeps_create_handles: "keeps I (create_handles w)"
proof -
  have "keeps I (create_notification w k)" for k
    unfolding create_notification_def by (rule keeps_pure) simp
  then show ?thesis
    unfolding create_handles_def by (intro event_rules keeps_close_notification)
qed

lemma keeps_wait_for_pressure: "keeps I (wait_for_pressure w low timeout wake n)"
  by (rule wait_for_pressure_keeps) (metis quiet_event quiet_effect.simps waiting_event.simps quiet_effect.elims(3))

lemma history_collector:
  "keeps on_history (collector_wait w timeout watch wake n)" "keeps on_history (collector_collect w)"
  "keeps on_history collector_drop"
  unfolding collector_wait_def ensure_handles_def collector_collect_def collector_drop_def query_notification_def
  by (intro event_rules keeps_create_handles keeps_wait_for_pressure keeps_close_notification; simp)+

subsection \<open>The doorbell\<close>

lemma history_wake:
  "keeps on_history (wake_refresh w)" "keeps on_history (wake_notify w)" "keeps on_history drop_native"
proof -
  have opened: "keeps I (channel_open w)"
    unfolding channel_open_def by (intro event_rules) simp_all
  have issue: "keeps on_history (issue_read w)"
    unfolding issue_read_def Let_def by (intro event_rules keeps_pure) simp_all
  have arm: "keeps on_history (arm w)"
    unfolding arm_def by (intro event_rules issue) simp_all
  have notify: "keeps I (channel_notify w)"
    unfolding channel_notify_def Let_def by (intro event_rules keeps_pure) simp_all
  show dropped: "keeps on_history drop_native"
    unfolding drop_native_def channel_drop_def by (intro event_rules) simp_all
  show "keeps on_history (wake_refresh w)"
    unfolding wake_refresh_def open_native_def arm_native_def by (intro event_rules opened arm dropped) 
  show "keeps on_history (wake_notify w)"
    unfolding wake_notify_def by (intro event_rules notify dropped)
qed

subsection \<open>Reading files\<close>

lemma keeps_read_status: "keeps I (read_status w path)"
  unfolding read_status_def by (intro event_rules) simp_all

end

section \<open>Predicates on the worker\<close>

text \<open>
  A predicate on the worker that looks at its requests and its paths only, and survives the quiet events,
  is kept by every step that neither polls the requests nor writes a file.
\<close>

locale worker_invariant =
  fixes K :: "guest_worker \<times> guest_history \<Rightarrow> bool"
  assumes quiet_worker: "K (g, h) \<Longrightarrow> quiet_effect e \<Longrightarrow> K (g, e # h)"
    and worker_cong: "gw_publication g' = gw_publication g \<Longrightarrow> gw_diagnostics g' = gw_diagnostics g \<Longrightarrow>
      gw_requests g' = gw_requests g \<Longrightarrow> K (g', h) = K (g, h)"
begin

sublocale at: event_invariant "\<lambda>h. K (g, h)" for g
  by unfold_locales (rule quiet_worker)

lemma worker_io: "(\<And>g. keeps (\<lambda>h. K (g, h)) m) \<Longrightarrow> keeps K (io_of m)"
  by (auto simp: triple_def wp_simps)

lemma worker_own: "keeps K (own f)"
  by (auto simp: triple_def wp_simps)

lemma worker_put_own: "(\<And>g h. K (f g, h) = K (g, h)) \<Longrightarrow> keeps K (put_own f)"
  by (auto simp: triple_def wp_simps)

lemma worker_part:
  assumes "\<And>g. keeps (\<lambda>y. K (g, snd y)) m" and "\<And>g v h. K (update (\<lambda>_. v) g, h) = K (g, h)"
  shows "keeps K (part field update m)"
proof (rule tripleI)
  fix x :: "guest_worker \<times> guest_history"
  assume x: "K x"
  obtain g h where eq: "x = (g, h)" by (cases x)
  show "wp (part field update m) (\<lambda>_. K) (\<lambda>_. K) x"
    unfolding eq wp_part
    by (rule wp_mono [OF tripleD [OF assms(1) [of g]]]) (use x in \<open>auto simp: eq assms(2)\<close>)
qed

lemma worker_wake:
  "(\<And>g. keeps (\<lambda>y. K (g, snd y)) m) \<Longrightarrow> keeps K (part gw_wake gw_wake_update m)"
  by (rule worker_part, assumption) (rule worker_cong; simp)

lemma worker_notifications:
  "(\<And>g. keeps (\<lambda>y. K (g, snd y)) m) \<Longrightarrow> keeps K (part gw_notifications gw_notifications_update m)"
  by (rule worker_part, assumption) (rule worker_cong; simp)

lemmas worker_methods = at.history_wake [unfolded at.on_history_def [abs_def]]
  at.history_collector [unfolded at.on_history_def [abs_def]]

lemmas worker_rules = keeps_rules worker_io worker_own worker_wake worker_notifications worker_methods worker_put_own
  at.keeps_clocks at.keeps_is_cancelled at.keeps_stop_wait

lemma collect_sample_keeps: "keeps K (collect_sample w)"
  unfolding collect_sample_def by (intro worker_rules) (rule worker_cong; simp)+

lemma take_sample_keeps: "keeps K (take_sample w memory)"
  unfolding take_sample_def Let_def by (intro worker_rules) (rule worker_cong; simp)+

lemma advance_sequence_keeps: "keeps K (advance_sequence monotonic)"
  unfolding advance_sequence_def by (intro worker_rules) (rule worker_cong; simp)+

lemma worker_wait_keeps: "keeps K (worker_wait w n)"
  unfolding worker_wait_def by (intro worker_rules)

end

end
