(* ===== verification/Guest_Durability.thy ===== *)
theory Guest_Durability
  imports Guest_Invariants
begin

text \<open>
  The guest publishes only what it retains. A history is followed over any number of runs of the
  service, each of which may crash between any two interactions: whatever the world does, a request is
  in the durable state file before it is published, and requests are published in the order in which
  they were issued.
\<close>

section \<open>What is retained and what is published\<close>

text \<open>The state a restart would load: nothing when the file cannot be decoded.\<close>

definition retained :: "guest_env \<Rightarrow> rust_str \<Rightarrow> guest_history \<Rightarrow> guest_request_state option" where
  "retained w path h =
     (case stored w (request_state_path path) h of
        None \<Rightarrow> Some default_request_state
      | Some bytes \<Rightarrow> (case decode_state w bytes of Inl _ \<Rightarrow> None | Inr d \<Rightarrow> Some d))"

definition announced :: "guest_env \<Rightarrow> rust_str \<Rightarrow> guest_effect \<Rightarrow> memory_request option" where
  "announced w path e =
     (case e of
        TempMoved p bytes d ok \<Rightarrow>
          if p \<noteq> path then None
          else (case decode_envelope w bytes of Inl _ \<Rightarrow> None | Inr envelope \<Rightarrow> env_request envelope)
      | _ \<Rightarrow> None)"

fun published :: "guest_env \<Rightarrow> rust_str \<Rightarrow> guest_history \<Rightarrow> memory_request list" where
  "published w path [] = []"
| "published w path (e # h) =
     (case announced w path e of None \<Rightarrow> published w path h | Some r \<Rightarrow> r # published w path h)"

text \<open>The documented behaviour of the JSON library: what was encoded decodes to the same value.\<close>

definition serde_laws :: "guest_env \<Rightarrow> bool" where
  "serde_laws w \<longleftrightarrow>
     (\<forall>s bytes. encode_state w s = Inr bytes \<longrightarrow> decode_state w bytes = Inr s)
     \<and> (\<forall>e bytes. encode_envelope w e = Inr bytes \<longrightarrow> decode_envelope w (bytes @ [10]) = Inr e)"

section \<open>Sound histories\<close>

text \<open>A retained state covers the published requests: each is older than its pending request, or is it.\<close>

definition state_covers :: "guest_request_state \<Rightarrow> memory_request list \<Rightarrow> bool" where
  "state_covers d rs \<longleftrightarrow>
     (\<forall>r\<in>set rs. issued_unix_millis r \<le> last_issued_unix_millis d
        \<and> (\<forall>p. pending d = Some p \<longrightarrow> issued_unix_millis r < issued_unix_millis p \<or> r = p))"

definition below_watermark :: "guest_request_state \<Rightarrow> bool" where
  "below_watermark d \<longleftrightarrow> (\<forall>p. pending d = Some p \<longrightarrow> issued_unix_millis p \<le> last_issued_unix_millis d)"

definition covered :: "guest_env \<Rightarrow> rust_str \<Rightarrow> guest_history \<Rightarrow> bool" where
  "covered w path h \<longleftrightarrow>
     published w path h = [] \<or> (\<exists>d. retained w path h = Some d \<and> state_covers d (published w path h))"

fun sound :: "guest_env \<Rightarrow> rust_str \<Rightarrow> guest_history \<Rightarrow> bool" where
  "sound w path [] = True"
| "sound w path (e # h) \<longleftrightarrow>
     sound w path h \<and> covered w path (e # h)
     \<and> (\<forall>r. announced w path e = Some r \<longrightarrow>
          (\<exists>d. retained w path h = Some d \<and> pending d = Some r)
          \<and> (\<forall>r'\<in>set (published w path h). r' = r \<or> issued_unix_millis r' < issued_unix_millis r))"

lemma sound_covered: "sound w path h \<Longrightarrow> covered w path h"
  by (cases h) (simp_all add: covered_def)

lemma state_path_differs [simp]: "request_state_path path \<noteq> path" "path \<noteq> request_state_path path"
  by (simp_all add: request_state_path_def lit_def)

lemma quiet_effects:
  assumes "quiet_effect e \<or> e = SessionStarted"
  shows "announced w path e = None" "retained w path (e # h) = retained w path h"
  using assms by (cases e; simp add: announced_def retained_def)+

lemma sound_quiet: "sound w path h \<Longrightarrow> quiet_effect e \<or> e = SessionStarted \<Longrightarrow> sound w path (e # h)"
  using sound_covered [of w path h] quiet_effects(1) [of e w path] quiet_effects(2) [of e w path h]
  by (simp add: covered_def)

lemma sound_other_move:
  assumes "sound w path h" and "p \<noteq> path" and "p \<noteq> request_state_path path"
  shows "sound w path (TempMoved p bytes d ok # h)" "retained w path (TempMoved p bytes d ok # h) = retained w path h"
    "published w path (TempMoved p bytes d ok # h) = published w path h"
  using assms sound_covered [OF assms(1)] by (simp_all add: announced_def covered_def retained_def)

lemma sound_state_move:
  assumes "sound w path h" and "decode_state w bytes = Inr d"
    and "state_covers d (published w path h)"
  shows "sound w path (TempMoved (request_state_path path) bytes dur ok # h)"
    and "published w path (TempMoved (request_state_path path) bytes dur ok # h) = published w path h"
    and "retained w path (TempMoved (request_state_path path) bytes dur ok # h) = Some d
      \<or> retained w path (TempMoved (request_state_path path) bytes dur ok # h) = retained w path h"
proof -
  let ?e = "TempMoved (request_state_path path) bytes dur ok"
  have none: "announced w path ?e = None" by (simp add: announced_def)
  show new: "retained w path (?e # h) = Some d \<or> retained w path (?e # h) = retained w path h"
    using stored_move [of w "request_state_path path" bytes dur ok h] assms(2) by (auto simp: retained_def)
  show "published w path (?e # h) = published w path h" using none by simp
  then show "sound w path (?e # h)"
    using assms(1,3) new sound_covered [OF assms(1)] none by (auto simp: covered_def)
qed

lemma sound_publication:
  assumes "sound w path h" and "retained w path h = Some d" and "below_watermark d"
    and "\<And>r. announced w path (TempMoved path bytes dur ok) = Some r \<Longrightarrow> pending d = Some r"
  shows "sound w path (TempMoved path bytes dur ok # h)"
    and "retained w path (TempMoved path bytes dur ok # h) = Some d"
proof -
  let ?e = "TempMoved path bytes dur ok"
  show ret: "retained w path (?e # h) = Some d" using assms(2) by (simp add: retained_def)
  have cov: "state_covers d (published w path h)"
    using sound_covered [OF assms(1)] assms(2) by (auto simp: covered_def state_covers_def)
  show "sound w path (?e # h)"
  proof (cases "announced w path ?e")
    case None
    then show ?thesis using assms(1) ret cov by (auto simp: covered_def)
  next
    case (Some r)
    then have p: "pending d = Some r" by (rule assms(4))
    have "state_covers d (r # published w path h)"
      using cov p assms(3) by (simp add: state_covers_def below_watermark_def)
    then show ?thesis
      using assms(1,2) ret cov p Some by (auto simp: covered_def state_covers_def)
  qed
qed

section \<open>One poll of the policy\<close>

lemma poll_progress:
  assumes "poll q s status = (r, q')"
  shows "r = Inl err \<Longrightarrow> rq_state q' = rq_state q"
    and "r = Inr d \<Longrightarrow> \<not> Guest_Policy.persist d \<Longrightarrow> rq_state q' = rq_state q"
    and "r = Inr d \<Longrightarrow> dec_request d = Some x \<Longrightarrow> pending (rq_state q') = Some x"
    and "state_covers (rq_state q) rs \<Longrightarrow> state_covers (rq_state q') rs"
    and "below_watermark (rq_state q) \<Longrightarrow> below_watermark (rq_state q')"
  using assms
  by (cases rule: poll_outcomes; force simp: hold_def state_covers_def below_watermark_def intro: less_imp_le)+

section \<open>The worker\<close>

declare sound.simps(2) [simp del] cancelled.simps(2) [simp del]

definition synced :: "guest_env \<Rightarrow> rust_str \<Rightarrow> guest_request_state \<Rightarrow> guest_history \<Rightarrow> bool" where
  "synced w path d h \<longleftrightarrow> sound w path h \<and> (cancelled h \<or> retained w path h = Some d)"

interpretation sound_events: event_invariant "sound w path" for w path
  by unfold_locales (blast intro: sound_quiet)

interpretation synced_events: event_invariant "synced w path d" for w path d
  by unfold_locales (auto simp: synced_def quiet_effects(2) intro: sound_quiet cancelled_quiet)

lemma synced_sound: "synced w path d h \<Longrightarrow> sound w path h"
  by (simp add: synced_def)

text \<open>A durable replacement of the state file, from the state on disk to the state in memory.\<close>

lemma replace_state_synced:
  assumes laws: "serde_laws w" and enc: "encode_state w d1 = Inr bytes"
    and old: "synced w path d0 h" and grow: "\<And>rs. state_covers d0 rs \<Longrightarrow> state_covers d1 rs"
  shows "wp (replace_file w (request_state_path path) bytes True t n)
    (\<lambda>_. synced w path d1) (\<lambda>_. sound w path) h"
proof (cases "cancelled h")
  case True
  have "wp (replace_file w (request_state_path path) bytes True t n)
      (\<lambda>_ h. sound w path h \<and> cancelled h) (\<lambda>_ h. sound w path h \<and> cancelled h) h"
    using old True
    by (intro replace_file_cancelled) (auto simp: synced_def intro: sound_quiet cancelled_quiet)
  then show ?thesis by (rule wp_mono) (simp_all add: synced_def)
next
  case False
  have dec: "decode_state w bytes = Inr d1" using laws enc by (simp add: serde_laws_def)
  let ?I = "\<lambda>h'. sound w path h' \<and> published w path h' = published w path h"
  have start: "?I h" and "retained w path h = Some d0" using old False by (simp_all add: synced_def)
  then have "state_covers d0 (published w path h)"
    using sound_covered [of w path h] by (auto simp: covered_def state_covers_def)
  then have cov: "state_covers d1 (published w path h)" by (rule grow)
  have "keeps ?I (replace_file w (request_state_path path) bytes True t n)"
  proof (rule replace_file_keeps)
    show "?I (e # h')" if "?I h'" "quiet_effect e" for e h'
      using that sound_quiet [of w path h' e] quiet_effects(1) [of e w path] by simp
    show "?I (TempMoved (request_state_path path) bytes True ok # h')" if "?I h'" for ok h'
      using that sound_state_move(1,2) [OF _ dec, of path h' True ok] cov by simp
  qed
  from wp_conj [OF tripleD [OF this start] replace_file_stores [of w "request_state_path path" bytes t n h]]
  show ?thesis
    by (rule wp_mono) (auto simp: synced_def retained_def dec)
qed

definition requests_ok :: "guest_env \<Rightarrow> rust_str \<Rightarrow> guest_requests \<times> guest_history \<Rightarrow> bool" where
  "requests_ok w path x \<longleftrightarrow>
     gr_state_path (fst x) = request_state_path path
     \<and> below_watermark (rq_state (gr_requester (fst x)))
     \<and> synced w path (rq_state (gr_requester (fst x))) (snd x)"

interpretation requests_events: event_invariant "\<lambda>h. requests_ok w path (g, h)" for w path g
  by unfold_locales (auto simp: requests_ok_def intro: synced_events.quiet_event)

lemma persist_synced:
  assumes "serde_laws w" and "gr_state_path g = request_state_path path" and "synced w path d0 h"
    and "\<And>rs. state_covers d0 rs \<Longrightarrow> state_covers (rq_state (gr_requester g)) rs"
  shows "wp (persist_requests w n) (\<lambda>_ x. fst x = g \<and> synced w path (rq_state (gr_requester g)) (snd x))
    (\<lambda>_ x. sound w path (snd x)) (g, h)"
  unfolding persist_requests_def wp_simps
  using assms synced_sound [OF assms(3)] by (auto simp: map_err_Inr intro: replace_state_synced split: sum.split)

lemma decision_synced:
  assumes laws: "serde_laws w" and "gr_state_path g = request_state_path path"
    and old: "synced w path (rq_state q) h" and wm: "below_watermark (rq_state q)"
    and polled: "poll q s status = (Inr d, gr_requester g)"
  shows "wp (bind (if Guest_Policy.persist d then persist_requests w n else ret ()) (\<lambda>_.
      bind (put_own (consume_result t (dec_resolved d))) (\<lambda>_. ret (dec_request d))))
    (\<lambda>decided x. requests_ok w path x
       \<and> (\<forall>r. decided = Some r \<longrightarrow> pending (rq_state (gr_requester (fst x))) = Some r))
    (\<lambda>_ x. sound w path (snd x)) (g, h)"
proof -
  note progress = poll_progress [OF polled]
  have kept: "gr_requester (consume_result t v g) = gr_requester g" "gr_state_path (consume_result t v g) = gr_state_path g" for v
    by (simp_all add: consume_result_def split: option.split)
  have finish: "requests_ok w path (consume_result t v g, h')"
    if "synced w path (rq_state (gr_requester g)) h'" for v h'
    using that assms(2) progress(5) [OF wm] by (simp add: requests_ok_def kept)
  have decided: "dec_request d = Some r \<Longrightarrow> pending (rq_state (gr_requester g)) = Some r" for r
    by (rule progress(3)) simp_all
  show ?thesis
  proof (cases "Guest_Policy.persist d")
    case True
    show ?thesis
      unfolding if_P [OF True] wp_bind [of "persist_requests _ _"]
      by (rule wp_mono [OF persist_synced [OF laws assms(2) old progress(4)]])
        (auto simp: wp_simps finish kept decided)
  next
    case False
    then have eq: "rq_state (gr_requester g) = rq_state q" using progress(2) [of d] by simp
    then show ?thesis using False old decided unfolding eq by (auto simp: wp_simps finish kept eq)
  qed
qed

lemma requests_poll_ok:
  assumes "serde_laws w" and "requests_ok w path x"
  shows "wp (requests_poll w s n)
    (\<lambda>decided x. requests_ok w path x
       \<and> (\<forall>r. decided = Some r \<longrightarrow> pending (rq_state (gr_requester (fst x))) = Some r))
    (\<lambda>_ x. sound w path (snd x)) x"
proof -
  obtain g h where x: "x = (g, h)" by (cases x)
  let ?g = "g\<lparr>gr_resolved_last_poll := False\<rparr>"
  have old: "synced w path (rq_state (gr_requester g)) h" "below_watermark (rq_state (gr_requester g))"
    "gr_state_path g = request_state_path path"
    using assms(2) by (simp_all add: x requests_ok_def)
  show ?thesis
    unfolding x requests_poll_def wp_bind [of "put_own _"] wp_put_own wp_bind [of "own _"] wp_own
      wp_bind [of "io_of _"] wp_io_of wp_bind [of "lift_result _"] wp_lift_result
  proof (rule wp_mono [OF tripleD [OF synced_events.keeps_read_status old(1)]], goal_cases)
    case (1 status h')
    obtain r q' where polled: "poll (gr_requester g) s status = (r, q')" by (cases "poll (gr_requester g) s status")
    show ?case
    proof (cases r)
      case (Inl err)
      then show ?thesis using 1 polled by (simp add: synced_sound)
    next
      case (Inr d)
      have "wp (bind (if Guest_Policy.persist d then persist_requests w n else ret ()) (\<lambda>_.
          bind (put_own (consume_result t (dec_resolved d))) (\<lambda>_. ret (dec_request d))))
        (\<lambda>decided x. requests_ok w path x
           \<and> (\<forall>r. decided = Some r \<longrightarrow> pending (rq_state (gr_requester (fst x))) = Some r))
        (\<lambda>_ x. sound w path (snd x)) (g\<lparr>gr_requester := q', gr_resolved_last_poll := b\<rparr>, h')" for t b
        by (rule decision_synced [OF assms(1) _ 1 old(2)]) (use old(3) polled Inr in simp_all)
      then show ?thesis using polled Inr by simp
    qed
  qed (simp add: synced_sound)
qed

section \<open>A run of the service\<close>

definition worker_ok :: "guest_env \<Rightarrow> rust_str \<Rightarrow> guest_worker \<times> guest_history \<Rightarrow> bool" where
  "worker_ok w path x \<longleftrightarrow>
     gw_publication (fst x) = path \<and> gw_diagnostics (fst x) \<noteq> Some (request_state_path path)
     \<and> requests_ok w path (gw_requests (fst x), snd x)"

abbreviation sound_now :: "guest_env \<Rightarrow> rust_str \<Rightarrow> 'o \<times> guest_history \<Rightarrow> bool" where
  "sound_now w path x \<equiv> sound w path (snd x)"

lemma worker_ok_quiet: "worker_ok w path (g, h) \<Longrightarrow> quiet_effect e \<Longrightarrow> worker_ok w path (g, e # h)"
  by (auto simp: worker_ok_def requests_ok_def intro: synced_events.quiet_event)

lemma worker_ok_sound: "worker_ok w path x \<Longrightarrow> sound_now w path x"
  by (auto simp: worker_ok_def requests_ok_def intro: synced_sound)

interpretation worker: worker_invariant "worker_ok w path" for w path
proof unfold_locales
  show "worker_ok w path (g, e # h)" if "worker_ok w path (g, h)" "quiet_effect e" for g h e
    using that by (rule worker_ok_quiet)
qed (simp add: worker_ok_def)

text \<open>The worker with a request to publish, which is the pending one.\<close>

definition ready_with :: "guest_env \<Rightarrow> rust_str \<Rightarrow> memory_request option \<Rightarrow> guest_worker \<times> guest_history \<Rightarrow> bool" where
  "ready_with w path decided x \<longleftrightarrow>
     worker_ok w path x
     \<and> (\<forall>r. decided = Some r \<longrightarrow> pending (rq_state (gr_requester (gw_requests (fst x)))) = Some r)"

interpretation publishing: worker_invariant "ready_with w path decided" for w path decided
proof unfold_locales
  show "ready_with w path decided (g, e # h)" if "ready_with w path decided (g, h)" "quiet_effect e" for g h e
    using that by (simp add: ready_with_def worker_ok_quiet)
qed (simp add: ready_with_def worker_ok_def)

text \<open>Sampling can fail while the worker is still in order; later failures end the run.\<close>

definition failed_ok :: "guest_env \<Rightarrow> rust_str \<Rightarrow> guest_worker \<times> guest_history \<Rightarrow> bool" where
  "failed_ok w path x \<longleftrightarrow> sound_now w path x \<and> (gw_collection_failed (fst x) \<longrightarrow> worker_ok w path x)"

lemma decide_envelope_ok:
  assumes "serde_laws w" and "worker_ok w path x"
  shows "wp (decide_envelope w e n) (\<lambda>e'. ready_with w path (env_request e'))
    (\<lambda>_. sound_now w path) x"
proof -
  obtain g h where x: "x = (g, h)" by (cases x)
  have start: "requests_ok w path (gw_requests g, h)" using assms(2) by (simp add: x worker_ok_def)
  show ?thesis
    unfolding x decide_envelope_def wp_bind [of "map_failed _ _"] wp_map_failed wp_part
  proof (rule wp_mono [OF requests_poll_ok [OF assms(1) start]], goal_cases)
    case (1 decided y)
    obtain q h' where y: "y = (q, h')" by (cases y)
    have "ready_with w path decided (g\<lparr>gw_requests := q\<rparr>, h')"
      using 1 assms(2) by (auto simp: y x ready_with_def worker_ok_def)
    then have "ready_with w path decided (g\<lparr>gw_requests := q\<rparr>, UptimeRead # h')"
      by (rule publishing.quiet_worker) simp
    then show ?case by (simp add: y wp_simps uptime_millis_def)
  qed (auto split: prod.splits)
qed

text \<open>Publishing to any path but the state file keeps the worker in order.\<close>

lemma publish_envelope_ok:
  assumes laws: "serde_laws w" and start: "ready_with w path (env_request e) (g, h)"
    and differs: "target_path \<noteq> request_state_path path"
  shows "wp (publish_envelope w target_path t e n) (\<lambda>_ h'. ready_with w path (env_request e) (g, h'))
    (\<lambda>_ h'. ready_with w path (env_request e) (g, h')) h"
proof (cases "cancelled h")
  case True
  then show ?thesis
    using publishing.quiet_worker [OF start, of "StopRead True"] by (simp add: wp_def publish_cancelled)
next
  case False
  let ?d = "rq_state (gr_requester (gw_requests g))"
  let ?I = "\<lambda>h'. ready_with w path (env_request e) (g, h') \<and> retained w path h' = Some ?d"
  have I: "?I h" using start False by (simp add: ready_with_def worker_ok_def requests_ok_def synced_def)
  have "keeps ?I (publish_envelope w target_path t e n)"
  proof (rule publish_keeps)
    show "?I (ev # h')" if "?I h'" "quiet_effect ev" for ev h'
      using that publishing.quiet_worker quiet_effects(2) [of ev w path h'] by simp
  next
    fix bytes ok h'
    assume enc: "encode_envelope w e = Inr bytes" and h': "?I h'"
    let ?ev = "TempMoved target_path (bytes @ [10]) False ok"
    have ok: "worker_ok w path (g, h')" "sound w path h'" "retained w path h' = Some ?d" "below_watermark ?d"
      using h' synced_sound by (auto simp: ready_with_def worker_ok_def requests_ok_def)
    have dec: "decode_envelope w (bytes @ [10]) = Inr e" using laws enc by (simp add: serde_laws_def)
    have "sound w path (?ev # h') \<and> retained w path (?ev # h') = Some ?d"
    proof (cases "target_path = path")
      case True
      have "pending ?d = Some r" if "announced w path (TempMoved path (bytes @ [10]) False ok) = Some r" for r
        using that h' by (simp add: announced_def dec ready_with_def)
      then show ?thesis
        using sound_publication [OF ok(2,3,4)] by (auto simp: True)
    next
      case other: False
      then show ?thesis using sound_other_move [OF ok(2) other differs] ok(3) by simp
    qed
    then show "?I (?ev # h')"
      using h' by (simp add: ready_with_def worker_ok_def requests_ok_def synced_def)
  qed
  from tripleD [OF this I] show ?thesis by (rule wp_mono) simp_all
qed

lemma publish_record_ok:
  assumes laws: "serde_laws w"
  shows "keeps (ready_with w path (env_request e)) (publish_record w e n)"
proof -
  have publish: "wp (publish_envelope w p t e n) (\<lambda>_ h'. ready_with w path (env_request e) (g, h'))
      (\<lambda>_ h'. ready_with w path (env_request e) (g, h')) h"
    if "ready_with w path (env_request e) (g, h)" "p = gw_publication g \<or> gw_diagnostics g = Some p" for p t g h
    using that by (intro publish_envelope_ok [OF laws]) (auto simp: ready_with_def worker_ok_def)
  have copy: "keeps (ready_with w path (env_request e)) (publish_copy w e n)"
    unfolding triple_def publish_copy_def
    by (auto simp: wp_simps split: option.split intro!: wp_mono [OF publish] split: failure.split)
  have rest: "keeps (ready_with w path (env_request e))
      (bind (part gw_wake gw_wake_update (wake_notify w)) (\<lambda>_. publish_copy w e n))"
    by (intro publishing.worker_rules copy)
  show ?thesis
  proof (rule tripleI)
    fix x assume x: "ready_with w path (env_request e) x"
    obtain g h where eq: "x = (g, h)" by (cases x)
    show "wp (publish_record w e n) (\<lambda>_. ready_with w path (env_request e)) (\<lambda>_. ready_with w path (env_request e)) x"
      unfolding eq publish_record_def wp_bind [of "own _"] wp_own wp_bind [of "io_of _"] wp_io_of wp_map_failed
      by (rule wp_mono [OF publish]) (use x in \<open>auto simp: eq intro: tripleD [OF rest]\<close>)
  qed
qed

text \<open>Once the sample was taken nothing sets the flag again.\<close>

abbreviation unflagged :: "guest_worker \<times> guest_history \<Rightarrow> bool" where
  "unflagged x \<equiv> \<not> gw_collection_failed (fst x)"

lemma unflagged_io: "keeps unflagged (io_of m)"
  by (auto simp: triple_def wp_def io_of_def split: prod.splits sum.splits)

lemma unflagged_own: "keeps unflagged (own f)"
  by (auto simp: triple_def wp_simps)

lemma unflagged_put_own: "(\<And>g. gw_collection_failed (f g) = gw_collection_failed g) \<Longrightarrow> keeps unflagged (put_own f)"
  by (auto simp: triple_def wp_simps)

lemma unflagged_part:
  "(\<And>v g. gw_collection_failed (update v g) = gw_collection_failed g) \<Longrightarrow> keeps unflagged (part field update m)"
  by (auto simp: triple_def wp_def Guest_Effects.part_def split: prod.splits sum.splits)

lemmas unflagged_rules = keeps_rules unflagged_io unflagged_own unflagged_put_own unflagged_part

lemma collect_sample_unflags: "wp (collect_sample w) (\<lambda>_. unflagged) (\<lambda>_ _. True) x"
proof -
  have any: "wp (bind m f) Q (\<lambda>_ _. True) s" if "\<And>v s. wp (f v) Q (\<lambda>_ _. True) s"
    for m :: "('s, 'f, 'u) prog" and f :: "'u \<Rightarrow> ('s, 'f, 'v) prog" and Q s
  proof -
    have "wp m (\<lambda>_ _. True) (\<lambda>_ _. True) s" by (simp add: wp_def split: prod.split sum.split)
    then show ?thesis unfolding wp_bind by (rule wp_mono) (auto intro: that)
  qed
  have last: "wp (bind (put_own (\<lambda>g. g\<lparr>gw_collection_failed := False\<rparr>)) (\<lambda>_. ret memory)) (\<lambda>_. unflagged) (\<lambda>_ _. True) s"
    for memory :: memory_telemetry_snapshot and s
    by (cases s) (simp add: wp_simps)
  show ?thesis
    unfolding collect_sample_def by (rule any, rule any, rule any, rule last)
qed

definition finish_poll :: "guest_env \<Rightarrow> nat \<Rightarrow> memory_telemetry_snapshot \<Rightarrow> raw_telemetry_envelope worker" where
  "finish_poll w n memory =
     bind (take_sample w memory) (\<lambda>sampled.
     bind (decide_envelope w sampled n) (\<lambda>e.
     bind (publish_record w e n) (\<lambda>_.
     bind (advance_sequence (env_monotonic_millis e)) (\<lambda>_.
     ret e))))"

lemma finish_poll_unflagged: "keeps unflagged (finish_poll w n memory)"
  unfolding finish_poll_def take_sample_def decide_envelope_def publish_record_def publish_copy_def
    advance_sequence_def Let_def
  by (intro unflagged_rules) simp_all

lemma finish_poll_ok:
  assumes "serde_laws w"
  shows "triple (worker_ok w path) (worker_ok w path) (sound_now w path) (finish_poll w n memory)"
proof -
  have publish: "triple (ready_with w path (env_request e)) (worker_ok w path) (sound_now w path)
      (bind (publish_record w e n) (\<lambda>_. bind (advance_sequence t) (\<lambda>_. ret e)))" for e t
  proof -
    have "keeps (ready_with w path (env_request e)) (bind (publish_record w e n) (\<lambda>_. bind (advance_sequence t) (\<lambda>_. ret e)))"
      by (intro keeps_rules publish_record_ok [OF assms] publishing.advance_sequence_keeps)
    then show ?thesis
      by (rule triple_mono) (auto simp: ready_with_def intro: worker_ok_sound)
  qed
  have sample: "triple (worker_ok w path) (worker_ok w path) (sound_now w path) (take_sample w memory)"
    by (rule triple_mono [OF worker.take_sample_keeps]) (auto intro: worker_ok_sound)
  show ?thesis
    unfolding finish_poll_def
  proof (rule triple_bind [OF sample], rule tripleI)
    fix sampled x assume "worker_ok w path x"
    from decide_envelope_ok [OF assms this, of sampled n]
    show "wp (bind (decide_envelope w sampled n) (\<lambda>e. bind (publish_record w e n) (\<lambda>_.
        bind (advance_sequence (env_monotonic_millis e)) (\<lambda>_. ret e))))
      (\<lambda>_. worker_ok w path) (\<lambda>_. sound_now w path) x"
      unfolding wp_bind [of "decide_envelope _ _ _"] by (rule wp_mono) (auto intro: tripleD [OF publish])
  qed
qed

lemma poll_once_ok:
  assumes "serde_laws w" and "worker_ok w path x"
  shows "wp (poll_once w n) (\<lambda>_. worker_ok w path) (\<lambda>_. failed_ok w path) x"
proof -
  have eq: "poll_once w n = bind (collect_sample w) (finish_poll w n)"
    by (simp add: poll_once_def finish_poll_def [abs_def])
  note sampled = wp_conj [OF tripleD [OF worker.collect_sample_keeps assms(2)] collect_sample_unflags]
  show ?thesis
    unfolding eq wp_bind
  proof (rule wp_mono [OF sampled], goal_cases)
    case (1 memory y)
    then have "wp (finish_poll w n memory) (\<lambda>_. worker_ok w path) (\<lambda>_. sound_now w path) y"
      and "wp (finish_poll w n memory) (\<lambda>_. unflagged) (\<lambda>_. unflagged) y"
      using tripleD [OF finish_poll_ok [OF assms(1)]] tripleD [OF finish_poll_unflagged] by auto
    from wp_conj [OF this] show ?case by (rule wp_mono) (simp_all add: failed_ok_def)
  qed (auto simp: failed_ok_def intro: worker_ok_sound)
qed

lemma poll_or_retry_ok:
  assumes "serde_laws w"
  shows "triple (worker_ok w path) (worker_ok w path) (sound_now w path) (poll_or_retry w n)"
proof (rule tripleI)
  fix x assume "worker_ok w path x"
  from poll_once_ok [OF assms this, of n]
  show "wp (poll_or_retry w n) (\<lambda>_. worker_ok w path) (\<lambda>_. sound_now w path) x"
    unfolding poll_or_retry_def wp_bind [of "try_failed _"] wp_try_failed
    by (rule wp_mono)
      (auto simp: wp_simps failed_ok_def worker_ok_def requests_ok_def invalidate_requests_def
        requester_invalidate_history_def split: failure.split)
qed

lemma worker_run_ok:
  assumes "serde_laws w"
  shows "triple (worker_ok w path) (worker_ok w path) (sound_now w path) (worker_run w n k)"
proof (induction k)
  case 0
  show ?case by (auto simp: triple_def wp_simps dest: worker_ok_sound)
next
  case (Suc k)
  have weak: "triple (worker_ok w path) (worker_ok w path) (sound_now w path) m"
    if "keeps (worker_ok w path) m" for m :: "'v worker"
    using that by (rule triple_mono) (auto intro: worker_ok_sound)
  show ?case
    unfolding worker_run.simps
    by (intro keeps_bind keeps_if keeps_ret Suc poll_or_retry_ok [OF assms]
        weak [OF worker.worker_io] weak [OF worker.worker_wait_keeps]
        worker.at.keeps_is_cancelled worker.at.keeps_stop_wait)
qed

lemma worker_body_ok:
  assumes "serde_laws w"
  shows "triple (worker_ok w path) (worker_ok w path) (sound_now w path) (worker_body w n k)"
proof -
  have stop: "triple (worker_ok w path) (worker_ok w path) (sound_now w path) (io_of (is_cancelled w))"
    by (rule triple_mono [OF worker.worker_io [OF worker.at.keeps_is_cancelled]]) (auto intro: worker_ok_sound)
  show ?thesis
    unfolding worker_body_def worker_initialize_def
    by (intro keeps_bind keeps_if keeps_ret stop poll_or_retry_ok [OF assms] worker_run_ok [OF assms])
qed

lemma worker_thread_sound:
  assumes "serde_laws w" and "worker_ok w path x"
  shows "wp (worker_thread w n k) (\<lambda>_. sound_now w path) (\<lambda>_. sound_now w path) x"
proof -
  have body: "triple (worker_ok w path) (sound_now w path) (sound_now w path) (worker_body w n k)"
    by (rule triple_mono [OF worker_body_ok [OF assms(1)]]) (auto intro: worker_ok_sound)
  have caught: "triple (worker_ok w path) (sound_now w path) (sound_now w path) (try_failed (worker_body w n k))"
    by (rule tripleI, unfold wp_try_failed, rule wp_mono [OF tripleD [OF body]]) (auto split: failure.split)
  have drops: "keeps (sound_now w path) (part gw_notifications gw_notifications_update collector_drop)"
    "keeps (sound_now w path) (part gw_wake gw_wake_update drop_native)"
    using sound_events.history_part [OF sound_events.history_collector(3), where field = gw_notifications and update = gw_notifications_update]
      sound_events.history_part [OF sound_events.history_wake(3), where field = gw_wake and update = gw_wake_update]
    unfolding sound_events.on_history_def [abs_def] by blast+
  have "triple (worker_ok w path) (sound_now w path) (sound_now w path) (worker_thread w n k)"
    unfolding worker_thread_def by (rule triple_bind [OF caught], intro keeps_rules drops)
  then show ?thesis using assms(2) by (rule tripleD)
qed

subsection \<open>Starting\<close>

lemma load_request_state_ok:
  assumes "sound w path h"
  shows "wp (load_request_state w (request_state_path path)) (\<lambda>d h'. sound w path h' \<and> retained w path h' = Some d)
    (\<lambda>_. sound w path) h"
proof -
  have quiet: "sound w path (e # h')" "retained w path (e # h') = retained w path h'"
    if "sound w path h'" "quiet_effect e" for e h'
    using that by (auto intro: sound_quiet simp: quiet_effects(2))
  show ?thesis
    using assms
    by (auto simp: load_request_state_def open_state_file_def wp_simps quiet ok_or_Inr ok_or_Inl not_found_def retained_def
        map_err_Inr default_request_state_def split: option.split sum.split)
qed

lemma open_requests_ok:
  assumes "sound w path h"
  shows "wp (open_requests w p vm service session path t) (\<lambda>g h'. requests_ok w path (g, h')) (\<lambda>_. sound w path) h"
  unfolding open_requests_def wp_bind [of "load_request_state _ _"]
proof (rule wp_mono [OF load_request_state_ok [OF assms]], goal_cases)
  case (1 d h')
  have "rq_state q = d" "below_watermark d" if "new_requester p vm service session d = Inr q" for q
    using that by (auto simp: new_requester_def below_watermark_def result_simps split: if_splits option.splits)
  then show ?case
    using 1 by (auto simp: wp_simps requests_ok_def synced_def map_err_Inr split: sum.split)
qed simp

lemma new_worker_ok:
  assumes "requests_ok w path (g, h)" and "demand_report_path f = path"
    and "wsc_telemetry_path f \<noteq> Some (request_state_path path)"
  shows "wp (new_worker w f g) (\<lambda>v h'. worker_ok w path (v, h')) (\<lambda>_. sound w path) h"
proof -
  have sound: "sound w path h'" if "requests_ok w path (g, h')" for h'
    using that by (auto simp: requests_ok_def intro: synced_sound)
  have close: "wp (bind (case handles of None \<Rightarrow> ret ()
        | Some (low, high) \<Rightarrow> bind (close_notification low) (\<lambda>_. close_notification high)) (\<lambda>_. raise e))
      (\<lambda>v h'. worker_ok w path (v, h')) (\<lambda>_. sound w path) h'"
    if "sound w path h'" for handles h' and e :: "rust_str failure"
    using that by (auto simp: wp_simps close_notification_def split: option.split intro!: sound_events.quiet_event)
  have fresh: "worker_ok w path (fresh_worker f handles t g, h')" if "requests_ok w path (g, h')" for handles t h'
    using that assms(2,3) by (simp add: worker_ok_def fresh_worker_def)
  have "wp (bind (guest_instant w) (\<lambda>started.
      if poll_interval_millis f = 0
        then bind (case handles of None \<Rightarrow> ret ()
               | Some (low, high) \<Rightarrow> bind (close_notification low) (\<lambda>_. close_notification high))
               (\<lambda>_. raise (Failed (lit ''polling interval must be greater than zero'')))
      else ret (fresh_worker f handles started g)))
    (\<lambda>v h'. worker_ok w path (v, h')) (\<lambda>_. sound w path) h'" if "requests_ok w path (g, h')" for handles h'
    using requests_events.quiet_event [OF that, of InstantRead]
    by (simp add: wp_bind [of "guest_instant _"] wp_guest_instant wp_ret close sound fresh)
  then show ?thesis
    unfolding new_worker_def wp_bind [of "create_handles _"]
    by (intro wp_mono [OF tripleD [OF requests_events.keeps_create_handles assms(1)]]) (auto intro: sound)
qed

lemma native_worker_ok:
  assumes "sound w path h" and "demand_report_path f = path"
    and "wsc_telemetry_path f \<noteq> Some (request_state_path path)"
  shows "wp (native_worker w f) (\<lambda>g h'. worker_ok w path (g, h')) (\<lambda>_. sound w path) h"
proof -
  have limits: "requests_ok w path (snd (requests_set_ram_limits a b g), h')" if "requests_ok w path (g, h')" for a b g h'
    using that by (simp add: requests_ok_def requests_set_ram_limits_def requester_set_ram_limits_def case_prod_beta)
  have sound: "sound w path h'" if "requests_ok w path (g, h')" for g h'
    using that by (auto simp: requests_ok_def intro: synced_sound)
  have configured: "wp (bind (lift_result (map_err Failed (fst (requests_set_ram_limits a b g))))
      (\<lambda>_. new_worker w f (snd (requests_set_ram_limits a b g))))
      (\<lambda>g h'. worker_ok w path (g, h')) (\<lambda>_. sound w path) h'" if "requests_ok w path (g, h')" for a b g h'
    unfolding wp_bind [of "lift_result _"] wp_lift_result
    using new_worker_ok [OF limits [OF that, of a b] assms(2,3)] sound [OF that] by (simp split: sum.split)
  have opened: "wp (bind (open_requests w p vm service session path t) (\<lambda>g.
      bind (lift_result (map_err Failed (fst (requests_set_ram_limits a b g))))
      (\<lambda>_. new_worker w f (snd (requests_set_ram_limits a b g)))))
      (\<lambda>g h'. worker_ok w path (g, h')) (\<lambda>_. sound w path) h'" if "sound w path h'" for p vm service session t a b h'
    unfolding wp_bind [of "open_requests _ _ _ _ _ _ _"]
    by (rule wp_mono [OF open_requests_ok [OF that]]) (simp_all add: configured)
  show ?thesis
    unfolding native_worker_def wp_bind [of "process_session_id _"] assms(2)
    by (rule wp_mono [OF tripleD [OF sound_events.keeps_clocks(4) assms(1)]]) (simp_all add: opened)
qed

lemma serve_sound:
  assumes "serde_laws w" and "sound w path h" and "demand_report_path f = path"
    and "wsc_telemetry_path f \<noteq> Some (request_state_path path)"
  shows "sound w path (snd (serve w f n k h))"
proof -
  have start: "sound w path (SessionStarted # h)" using assms(2) by (intro sound_quiet) simp_all
  have thread: "sound w path h''" if "worker_ok w path (g, h')" "worker_thread w n k (g, h') = (r, g', h'')" for g h' r g' h''
    using worker_thread_sound [OF assms(1) that(1), of n k] that(2) by (auto simp: wp_def split: sum.splits)
  from native_worker_ok [OF start assms(3,4)] show ?thesis
    by (auto simp: serve_def wp_def bind_def emit_def split: prod.splits sum.splits dest: thread)
qed

section \<open>Lifetimes\<close>

text \<open>
  A lifetime is any number of runs of the service with one publication path, each of which may crash
  between any two interactions with the world; the next run starts from what the crash left.
\<close>

inductive lifetime :: "guest_env \<Rightarrow> rust_str \<Rightarrow> guest_history \<Rightarrow> bool" for w path where
  Installed: "lifetime w path []"
| Crashed: "lifetime w path h \<Longrightarrow> demand_report_path f = path \<Longrightarrow>
    wsc_telemetry_path f \<noteq> Some (request_state_path path) \<Longrightarrow>
    snd (serve w f n k h) = lost @ kept @ h \<Longrightarrow> lifetime w path (kept @ h)"

lemma sound_append: "sound w path (g @ h) \<Longrightarrow> sound w path h"
  by (induction g) (simp_all add: sound.simps(2))

lemma lifetime_sound:
  assumes "lifetime w path h" and "serde_laws w"
  shows "sound w path h"
  using assms(1)
proof (induction rule: lifetime.induct)
  case (Crashed h f n k lost finished)
  have "sound w path (snd (serve w f n k h))"
    by (rule serve_sound [OF assms(2)]) (use Crashed in auto)
  then show ?case unfolding Crashed(4) by (rule sound_append)
qed simp

section \<open>Properties\<close>

text \<open>
  C10. What the guest publishes it retains: in every lifetime of the service, over any number of runs and
  crashes and in any environment, at the moment a record carrying a request is moved to the publication
  path, the durable state file already holds exactly that request as the pending one.
\<close>

theorem published_request_is_retained:
  assumes "lifetime w path (later @ TempMoved path bytes durably ok # earlier)" and "serde_laws w"
    and "decode_envelope w bytes = Inr envelope" and "env_request envelope = Some r"
  shows "\<exists>d. retained w path earlier = Some d \<and> pending d = Some r"
proof -
  have "sound w path (TempMoved path bytes durably ok # earlier)"
    using lifetime_sound [OF assms(1,2)] by (rule sound_append)
  then show ?thesis using assms(3,4) by (simp add: sound.simps(2) announced_def)
qed

text \<open>
  C11. Crashes and restarts never make the guest repeat or reorder its requests: in every lifetime each
  published request is the same as, or was issued strictly after, every one published before it, and
  what a restart would load still stands above all of them.
\<close>

theorem publications_in_issue_order:
  assumes "lifetime w path h" and "serde_laws w"
  shows "sorted_wrt (\<lambda>newer older. older = newer \<or> issued_unix_millis older < issued_unix_millis newer) (published w path h)
    \<and> (published w path h \<noteq> [] \<longrightarrow>
        (\<exists>d. retained w path h = Some d
          \<and> (\<forall>r\<in>set (published w path h). issued_unix_millis r \<le> last_issued_unix_millis d
               \<and> (pending d = Some r \<or> (\<forall>p. pending d = Some p \<longrightarrow> issued_unix_millis r < issued_unix_millis p)))))"
proof
  have sound: "sound w path h" by (rule lifetime_sound [OF assms])
  then show "sorted_wrt (\<lambda>newer older. older = newer \<or> issued_unix_millis older < issued_unix_millis newer) (published w path h)"
    by (induction h) (auto simp: sound.simps(2) split: option.splits)
  show "published w path h \<noteq> [] \<longrightarrow>
      (\<exists>d. retained w path h = Some d
        \<and> (\<forall>r\<in>set (published w path h). issued_unix_millis r \<le> last_issued_unix_millis d
             \<and> (pending d = Some r \<or> (\<forall>p. pending d = Some p \<longrightarrow> issued_unix_millis r < issued_unix_millis p))))"
    using sound_covered [OF sound] by (fastforce simp: covered_def state_covers_def)
qed

section \<open>A concrete lifetime\<close>

text \<open>A service that starts with a retained request publishes it and is stopped.\<close>

definition sample_retained :: guest_request_state where
  "sample_retained = \<lparr>pending = Some sample_issued, last_issued_unix_millis = 1005000\<rparr>"

definition sample_service :: windows_service_config_file where
  "sample_service =
     \<lparr>schema_version = 8, wsc_vm_name = lit ''win11'', wsc_service_name = lit ''VirtioMem'',
      display_name = lit ''display'', description = lit ''description'', demand_report_path = lit ''report'',
      wsc_service_account = lit ''LocalSystem'', poll_interval_millis = 1000, shutdown_timeout_millis = 30000,
      wsc_policy = sample_guest_policy, wsc_min_ram = 1073741824, wsc_max_ram = 17179869184,
      wsc_telemetry_path = None\<rparr>"

definition sample_counters :: performance_information where
  "sample_counters =
     \<lparr>perf_page_size = 4096, perf_physical_total = 2097152, perf_physical_available = 1000000,
      perf_commit_total = 1500000, perf_commit_limit = 4000000, perf_commit_peak = 1600000,
      perf_system_cache = 0, perf_kernel_paged = 0, perf_kernel_nonpaged = 0\<rparr>"

definition sample_publication :: raw_telemetry_envelope where
  "sample_publication =
     \<lparr>env_version = 5, env_vm_name = lit ''win11'', env_service_name = lit ''VirtioMem'',
      env_session_id = lit ''session-f-7'', env_observed_unix_millis = 0, env_monotonic_millis = 6000,
      env_sequence = 0,
      env_memory =
        \<lparr>physical_total_bytes = 8589934592, physical_available_bytes = 4096000000, memory_load_percent = 52,
         commit_total_bytes = 6144000000, commit_limit_bytes = 16384000000, commit_peak_bytes = 6553600000,
         system_cache_bytes = 0, kernel_paged_bytes = 0, kernel_nonpaged_bytes = 0\<rparr>,
      env_native_pressure = None, env_request = Some sample_issued,
      env_diagnostics =
        Some \<lparr>build_id = lit ''build'', driver_file_version = Inl [], boot_uptime_millis = Some 60000,
          diag_policy = default_diagnostics\<lparr>diag_reason := AwaitingResult\<rparr>,
          last_consumed_result = None, result_consumed_unix_millis = None\<rparr>\<rparr>"

definition sample_guest :: guest_env where
  "sample_guest =
     \<lparr>g_stop = list_ex (\<lambda>e. case e of TempMoved p bytes d ok \<Rightarrow> True | _ \<Rightarrow> False),
      g_instant = (\<lambda>h. 1000 * int (length h)), g_instant_limit = 1000000000,
      g_system_nanos = (\<lambda>h. 15), g_uptime = (\<lambda>h. 60000),
      g_counters = (\<lambda>h. Inr sample_counters), g_create = (\<lambda>k h. Inl 5), g_query = (\<lambda>x h. Inl 5),
      g_wait = (\<lambda>h. 258), g_last_error = (\<lambda>h. 5), g_stop_event = None,
      g_files = (\<lambda>e h. None), g_move = (\<lambda>p h. None), g_applied = (\<lambda>h. True),
      g_initial = (\<lambda>p. if p = lit ''report.request-state'' then Some [1] else None),
      g_status = (\<lambda>h. Inl not_found), g_wake_open = (\<lambda>h. Inl not_found), g_wake_event = (\<lambda>h. Inl not_found),
      g_wake_result = (\<lambda>h. Inl not_found), g_wake_read = (\<lambda>h. None), g_wake_write = (\<lambda>h. None),
      encode_state = (\<lambda>s. if s = sample_retained then Inr [1] else Inl []),
      decode_state = (\<lambda>b. if b = [1] then Inr sample_retained else Inl []),
      encode_envelope = (\<lambda>e. if e = sample_publication then Inr [2] else Inl []),
      decode_envelope = (\<lambda>b. if b = [2, 10] then Inr sample_publication else Inl []), decode_status = (\<lambda>b. Inl []),
      g_process_id = 7, g_driver_version = Inl [], g_build_id = lit ''build''\<rparr>"

definition sample_run :: guest_history where
  "sample_run = snd (serve sample_guest sample_service 3 1 [])"

lemma sample_lifetime: "lifetime sample_guest (lit ''report'') sample_run"
proof -
  have "lifetime sample_guest (lit ''report'') (sample_run @ [])"
    by (rule lifetime.Crashed [OF lifetime.Installed, of sample_service _ _ 3 1 "[]"])
      (simp_all add: sample_service_def sample_run_def)
  then show ?thesis by simp
qed

lemma sample_laws: "serde_laws sample_guest"
  by (simp add: serde_laws_def sample_guest_def split: if_splits)

lemma sample_run_publishes:
  "sample_run = takeWhile quiet_effect sample_run
     @ TempMoved (lit ''report'') [2, 10] False True # drop (Suc (length (takeWhile quiet_effect sample_run))) sample_run"
  unfolding sample_run_def by code_simp

theorem published_request_is_retained_witness:
  "\<exists>d. retained sample_guest (lit ''report'') (drop (Suc (length (takeWhile quiet_effect sample_run))) sample_run) = Some d
     \<and> pending d = Some sample_issued"
proof -
  have "lifetime sample_guest (lit ''report'') (takeWhile quiet_effect sample_run
     @ TempMoved (lit ''report'') [2, 10] False True # drop (Suc (length (takeWhile quiet_effect sample_run))) sample_run)"
    using sample_lifetime sample_run_publishes by metis
  then show ?thesis
    by (rule published_request_is_retained [OF _ sample_laws, where envelope = sample_publication])
      (simp_all add: sample_guest_def sample_publication_def)
qed

theorem publications_in_issue_order_witness:
  "sorted_wrt (\<lambda>newer older. older = newer \<or> issued_unix_millis older < issued_unix_millis newer)
     (published sample_guest (lit ''report'') sample_run)"
  using publications_in_issue_order [OF sample_lifetime sample_laws] by blast

end
