(* ===== verification/Text_Scrub.thy ===== *)
theory Text_Scrub
  imports Rust_Strings
begin

text \<open>
  The text functions of \<open>attestation.rs\<close> that remove from libvirt's XML and QEMU arguments what changes
  without being configuration: the live allocation, runtime identities and descriptor numbers. Byte
  offsets of the code, which all lie on character boundaries, are positions in the list of characters.
\<close>

section \<open>Searching\<close>

fun find_str :: "rust_str \<Rightarrow> rust_str \<Rightarrow> nat option" where
  "find_str p [] = (if p = [] then Some 0 else None)"
| "find_str p (c # s) = (if starts_with (c # s) p then Some 0 else map_option Suc (find_str p s))"

fun find_char :: "(rust_char \<Rightarrow> bool) \<Rightarrow> rust_str \<Rightarrow> nat option" where
  "find_char f [] = None"
| "find_char f (c # s) = (if f c then Some 0 else map_option Suc (find_char f s))"

definition slice :: "nat \<Rightarrow> nat \<Rightarrow> rust_str \<Rightarrow> rust_str" where
  "slice from til s = take (til - from) (drop from s)"

definition replace_range :: "nat \<Rightarrow> nat \<Rightarrow> rust_str \<Rightarrow> rust_str \<Rightarrow> rust_str" where
  "replace_range from til new s = take from s @ new @ drop til s"

definition contains :: "rust_str \<Rightarrow> rust_str \<Rightarrow> bool" where
  "contains s p \<longleftrightarrow> find_str p s \<noteq> None"

lemma find_str_Some:
  "find_str p s = Some i \<Longrightarrow> i + length p \<le> length s \<and> starts_with (drop i s) p"
proof (induction p s arbitrary: i rule: find_str.induct)
  case (1 p)
  then show ?case by (simp add: starts_with_def split: if_splits)
next
  case (2 p c s)
  show ?case
  proof (cases "starts_with (c # s) p")
    case True
    then have "length (take (length p) (c # s)) = length p" by (simp add: starts_with_def)
    then show ?thesis using 2(2) True by simp
  next
    case False
    then obtain j where "find_str p s = Some j" "i = Suc j" using 2(2) by auto
    then show ?thesis using 2(1) [OF False] by auto
  qed
qed

lemma find_str_progress: "find_str (lit (c # p)) s = Some i \<Longrightarrow> i < length s"
  using find_str_Some [of "lit (c # p)" s i] by (simp add: lit_def)

lemma find_str_progress': "find_str (lit (c # p) @ q) s = Some i \<Longrightarrow> i < length s"
  using find_str_Some [of "lit (c # p) @ q" s i] by (simp add: lit_def)

lemma find_char_Some: "find_char f s = Some i \<Longrightarrow> i < length s"
  by (induction s arbitrary: i) (auto split: if_splits)

section \<open>Live allocation\<close>

definition allocation_state :: rust_str where
  "allocation_state = lit ''<allocation-state>''"

function scrub_element :: "rust_str \<Rightarrow> rust_str \<Rightarrow> rust_str" where
  "scrub_element element rest =
     (case find_str (lit ''<'' @ element) rest of
        None \<Rightarrow> rest
      | Some start \<Rightarrow>
          let name_end = start + length element + 1 in
          if \<not> (case drop name_end rest of [] \<Rightarrow> False | c # _ \<Rightarrow> c = 62 \<or> is_whitespace c)
            then take name_end rest @ scrub_element element (drop name_end rest)
          else
            (case find_char (\<lambda>c. c = 62) (drop start rest) of
               None \<Rightarrow> rest
             | Some open_end \<Rightarrow>
                 let content_start = start + open_end + 1; close = lit ''</'' @ element @ lit ''>'' in
                 (case find_str close (drop content_start rest) of
                    None \<Rightarrow> rest
                  | Some close_start \<Rightarrow>
                      take content_start rest @ allocation_state @ close
                      @ scrub_element element (drop (content_start + close_start + length close) rest))))"
  by pat_completeness auto
termination
proof (relation "measure (\<lambda>(element, rest). length rest)", goal_cases)
  case (2 element rest start name_end)
  then show ?case using find_str_progress' [OF 2(1)] by simp
next
  case (3 element rest start name_end open_end content_start close close_start)
  then show ?case using find_str_progress' [OF 3(1)] by simp
qed simp

declare scrub_element.simps [simp del]

definition scrub_allocation_state :: "rust_str \<Rightarrow> rust_str" where
  "scrub_allocation_state xml =
     fold scrub_element [lit ''currentMemory'', lit ''requested'', lit ''current''] xml"

section \<open>Runtime identity\<close>

text \<open>Remove one attribute of the tag between two positions, in the first quoting style that occurs.\<close>

fun remove_attribute :: "rust_str \<Rightarrow> rust_char list \<Rightarrow> nat \<Rightarrow> nat \<Rightarrow> rust_str \<Rightarrow> rust_str" where
  "remove_attribute name [] start tag_end s = s"
| "remove_attribute name (quote # quotes) start tag_end s =
     (let attribute = lit '' '' @ name @ lit ''='' @ [quote] in
      case find_str attribute (slice start tag_end s) of
        None \<Rightarrow> remove_attribute name quotes start tag_end s
      | Some i \<Rightarrow>
          let value_start = start + i + length attribute in
          (case find_char (\<lambda>c. c = quote) (slice value_start tag_end s) of
             None \<Rightarrow> s
           | Some value_end \<Rightarrow> replace_range (start + i) (value_start + value_end + 1) [] s))"

definition tag_end_of :: "nat \<Rightarrow> rust_str \<Rightarrow> nat" where
  "tag_end_of start s =
     (case find_char (\<lambda>c. c = 62) (drop start s) of None \<Rightarrow> length s | Some e \<Rightarrow> start + e)"

definition scrub_domain_id :: "rust_str \<Rightarrow> rust_str" where
  "scrub_domain_id s =
     (case find_str (lit ''<domain'') s of
        None \<Rightarrow> s
      | Some start \<Rightarrow> remove_attribute (lit ''id'') [39, 34] start (tag_end_of start s) s)"

definition scrub_channel :: "rust_str \<Rightarrow> rust_str" where
  "scrub_channel block =
     (case find_str (lit ''<target '') block of
        None \<Rightarrow> block
      | Some target \<Rightarrow>
          let target_end = tag_end_of target block; tag = slice target target_end block in
          if contains tag (lit ''type='' @ [39] @ lit ''virtio'' @ [39])
             \<or> contains tag (lit ''type='' @ [34] @ lit ''virtio'' @ [34])
          then remove_attribute (lit ''state'') [39, 34] target target_end block
          else block)"

function scrub_channels :: "rust_str \<Rightarrow> rust_str" where
  "scrub_channels rest =
     (case find_str (lit ''<channel '') rest of
        None \<Rightarrow> rest
      | Some start \<Rightarrow>
          (case find_str (lit ''</channel>'') (drop start rest) of
             None \<Rightarrow> rest
           | Some close \<Rightarrow>
               take start rest @ scrub_channel (slice start (start + close) rest) @ lit ''</channel>''
               @ scrub_channels (drop (start + close + length (lit ''</channel>'')) rest)))"
  by pat_completeness auto
termination
proof (relation "measure length", goal_cases)
  case (2 rest start close)
  show ?case using find_str_progress [OF 2(1)] by (simp add: lit_def)
qed simp

declare scrub_channels.simps [simp del]

definition scrub_label :: "rust_str \<Rightarrow> rust_str \<Rightarrow> rust_str" where
  "scrub_label element block =
     (let open_tag = lit ''<'' @ element @ lit ''>''; close = lit ''</'' @ element @ lit ''>'' in
      case (find_str open_tag block, find_str close block) of
        (Some content, Some close_at) \<Rightarrow>
          let content = content + length open_tag in
          if content \<le> close_at then replace_range content close_at (lit ''<runtime-label>'') block else block
      | _ \<Rightarrow> block)"

definition scrub_seclabel :: "rust_str \<Rightarrow> rust_str" where
  "scrub_seclabel block =
     (let tag = slice 0 (tag_end_of 0 block) block in
      if contains tag (lit ''type='' @ [39] @ lit ''dynamic'' @ [39])
         \<or> contains tag (lit ''type='' @ [34] @ lit ''dynamic'' @ [34])
      then fold scrub_label [lit ''label'', lit ''imagelabel''] block
      else block)"

function scrub_seclabels :: "rust_str \<Rightarrow> rust_str" where
  "scrub_seclabels rest =
     (case find_str (lit ''<seclabel'') rest of
        None \<Rightarrow> rest
      | Some start \<Rightarrow>
          (case find_str (lit ''</seclabel>'') (drop start rest) of
             None \<Rightarrow> rest
           | Some close \<Rightarrow>
               take start rest @ scrub_seclabel (slice start (start + close) rest)
               @ scrub_seclabels (drop (start + close) rest)))"
  by pat_completeness auto
termination
proof (relation "measure length", goal_cases)
  case (2 rest start close)
  have "starts_with (drop start rest) (lit ''<seclabel'')" using find_str_Some [OF 2(1)] by simp
  moreover have "starts_with (drop close (drop start rest)) (lit ''</seclabel>'')" using find_str_Some [OF 2(2)] by simp
  ultimately have "close \<noteq> 0"
    by (cases close; cases "drop start rest"; cases "tl (drop start rest)") (auto simp: starts_with_def lit_def)
  then show ?case using find_str_progress [OF 2(1)] by simp
qed simp

declare scrub_seclabels.simps [simp del]

definition scrub_runtime_identity :: "rust_str \<Rightarrow> rust_str" where
  "scrub_runtime_identity xml = scrub_seclabels (scrub_channels (scrub_domain_id xml))"

section \<open>QEMU arguments\<close>

definition REQUESTED_SIZE :: rust_str where
  "REQUESTED_SIZE = lit ''requested-size''"

text \<open>The range of one \<open>requested-size\<close> member with one adjacent separator, from the end of its key.\<close>

definition member_value_end :: "rust_str \<Rightarrow> nat \<Rightarrow> nat" where
  "member_value_end s value_start =
     (let quoted = starts_with (drop value_start s) [34];
          value_start = (if quoted then value_start + 1 else value_start);
          member_end =
            (case find_char (\<lambda>c. quoted \<and> c = 34 \<or> \<not> quoted \<and> (c = 44 \<or> c = 125 \<or> is_whitespace c)) (drop value_start s) of
               None \<Rightarrow> length s | Some e \<Rightarrow> value_start + e)
      in if quoted \<and> member_end < length s then member_end + 1 else member_end)"

definition member_range :: "rust_str \<Rightarrow> nat \<Rightarrow> nat \<Rightarrow> nat \<times> nat" where
  "member_range s key_start member_end =
     (let member_start = (if ends_with (take key_start s) [34] then key_start - 1 else key_start) in
      if starts_with (drop member_end s) [44] then (member_start, member_end + 1)
      else if ends_with (take member_start s) [44] then (member_start - 1, member_end)
      else (member_start, member_end))"

definition skip_while :: "(rust_char \<Rightarrow> bool) \<Rightarrow> nat \<Rightarrow> rust_str \<Rightarrow> nat" where
  "skip_while f i s = i + length (takeWhile f (drop i s))"

lemma member_value_end_min: "min v (length s) \<le> member_value_end s v"
  by (auto simp: member_value_end_def Let_def split: option.splits)

lemma key_bounds:
  assumes "find_str REQUESTED_SIZE (drop offset s) = Some found"
  shows "0 < length REQUESTED_SIZE" "offset + found + length REQUESTED_SIZE \<le> length s"
proof -
  show pos: "0 < length REQUESTED_SIZE" by (simp add: REQUESTED_SIZE_def lit_def)
  have "found + length REQUESTED_SIZE \<le> length s - offset" using find_str_Some [OF assms] by simp
  then show "offset + found + length REQUESTED_SIZE \<le> length s" using pos by linarith
qed

lemma skip_while_min: "i \<le> skip_while f i s"
  by (simp add: skip_while_def)

lemma member_range_end: "m \<le> snd (member_range s k m)"
  by (simp add: member_range_def Let_def)

function scrub_argv_from :: "rust_str \<Rightarrow> nat \<Rightarrow> rust_str" where
  "scrub_argv_from s offset =
     (case find_str REQUESTED_SIZE (drop offset s) of
        None \<Rightarrow> s
      | Some found \<Rightarrow>
          let key_start = offset + found; key_end = key_start + length REQUESTED_SIZE;
              separator = skip_while (\<lambda>c. c = 34 \<or> is_whitespace c) key_end s in
          (case drop separator s of
             [] \<Rightarrow> s
           | c # _ \<Rightarrow>
               if c \<noteq> 61 \<and> c \<noteq> 58 then scrub_argv_from s key_end
               else
                 let member_end = member_value_end s (skip_while is_whitespace (separator + 1) s);
                     (remove_start, remove_end) = member_range s key_start member_end
                 in scrub_argv_from (replace_range remove_start remove_end [] s) remove_start))"
  by pat_completeness auto
termination
proof (relation "measure (\<lambda>(s, offset). length s - offset)", goal_cases)
  case (2 s offset found key_start key_end separator c cs)
  have "offset < key_end" "key_end \<le> length s"
    using key_bounds [OF 2(1)] by (simp_all add: 2(2,3))
  then show ?case by simp
next
  case (3 s offset found key_start key_end separator c cs member_end range remove_start remove_end)
  have bound: "offset < key_end" "key_end \<le> length s"
    using key_bounds [OF 3(1)] by (simp_all add: 3(2,3))
  have "key_end < skip_while is_whitespace (separator + 1) s"
    using skip_while_min [of key_end "\<lambda>c. c = 34 \<or> is_whitespace c" s] skip_while_min [of "separator + 1" is_whitespace s]
    unfolding 3(4) by linarith
  then have "offset < member_end"
    using bound member_value_end_min [of "skip_while is_whitespace (separator + 1) s" s] unfolding 3(7) by linarith
  then have "offset < remove_end"
    using member_range_end [of member_end s key_start] by (metis 3(8,9) less_le_trans snd_conv)
  then show ?case using bound by (auto simp: replace_range_def)
qed simp

declare scrub_argv_from.simps [simp del]

definition scrub_qemu_argv :: "rust_str \<Rightarrow> rust_str" where
  "scrub_qemu_argv arguments = scrub_argv_from arguments 0"

section \<open>Descriptor numbers\<close>

text \<open>The prefixes in the order in which they are tried, each with whether its value is quoted.\<close>

definition descriptor_prefixes :: "(rust_str \<times> bool) list" where
  "descriptor_prefixes =
     concat (map (\<lambda>key. [([34] @ key @ [34, 58, 34], True), ([34] @ key @ [34, 58], False),
                         ([44] @ key @ [61], False), ([32] @ key @ [61], False)])
       [lit ''fd'', lit ''vhostfd'', lit ''fds'', lit ''vhostfds''])"

definition descriptor_char :: "rust_char \<Rightarrow> bool" where
  "descriptor_char c \<longleftrightarrow> is_ascii_digit c \<or> c = 58"

text \<open>The first prefix with a value here, and the text after the value.\<close>

fun match_descriptor :: "(rust_str \<times> bool) list \<Rightarrow> rust_str \<Rightarrow> (rust_str \<times> rust_str) option" where
  "match_descriptor [] rest = None"
| "match_descriptor ((prefix, quoted) # prefixes) rest =
     (let after = drop (length prefix) rest; value = takeWhile descriptor_char after in
      if starts_with rest prefix \<and> value \<noteq> [] \<and> (\<not> quoted \<or> starts_with (drop (length value) after) [34])
      then Some (prefix, drop (length value) after)
      else match_descriptor prefixes rest)"

lemma match_descriptor_progress: "match_descriptor ps rest = Some (p, t) \<Longrightarrow> length t < length rest"
proof (induction ps rest rule: match_descriptor.induct)
  case (2 prefix quoted prefixes rest)
  have "length (drop (length prefix) rest) - length v < length rest" if "v = takeWhile descriptor_char (drop (length prefix) rest)" "v \<noteq> []" for v
  proof -
    have "0 < length v" using that(2) by simp
    moreover have "length v \<le> length rest - length prefix"
      using length_takeWhile_le [of descriptor_char "drop (length prefix) rest"] by (simp add: that(1))
    ultimately show ?thesis unfolding length_drop by linarith
  qed
  then show ?case using 2 by (auto simp: Let_def split: if_splits)
qed simp

function scrub_descriptor_numbers :: "rust_str \<Rightarrow> rust_str" where
  "scrub_descriptor_numbers rest =
     (case rest of
        [] \<Rightarrow> []
      | c # s \<Rightarrow>
          (case match_descriptor descriptor_prefixes rest of
             Some (prefix, after) \<Rightarrow> prefix @ [35] @ scrub_descriptor_numbers after
           | None \<Rightarrow> c # scrub_descriptor_numbers s))"
  by pat_completeness auto
termination
  by (relation "measure length") (auto dest: match_descriptor_progress)

declare scrub_descriptor_numbers.simps [simp del]

end
