(* ===== verification/Attestation.thy ===== *)
theory Attestation
  imports Text_Scrub Resize_Sink
begin

text \<open>
  The compatibility attestation: \<open>attestation.rs\<close>. An operator reviews what no interface reports, the
  tool fingerprints the live configuration, and before every resize the daemon collects the evidence
  again and refuses to act unless it is exactly the attested one. The JSON codec and SHA-256 are
  parameters; a JSON object is the list of its members in the order of their keys, as in \<open>serde_json\<close>.
\<close>

section \<open>Documents\<close>

datatype json =
    JNull
  | JBool bool
  | JUnsigned u64
  | JNegative "64 word"
  | JFloat "64 word"
  | JString rust_str
  | JArray "json list"
  | JObject "(rust_str \<times> json) list"

fun json_get :: "json \<Rightarrow> rust_str \<Rightarrow> json option" where
  "json_get (JObject members) key = map_of members key"
| "json_get _ key = None"

fun as_object :: "json \<Rightarrow> json option" where
  "as_object (JObject members) = Some (JObject members)"
| "as_object _ = None"

fun as_u64 :: "json \<Rightarrow> u64 option" where
  "as_u64 (JUnsigned n) = Some n"
| "as_u64 _ = None"

fun as_str :: "json \<Rightarrow> rust_str option" where
  "as_str (JString s) = Some s"
| "as_str _ = None"

record compatibility_review =
  trusted_development_guest :: bool
  workload_reviewed :: bool
  no_vdpa :: bool
  no_rdma_migration :: bool
  no_vfio_nvme :: bool
  no_mlock :: bool
  no_secure_virtualization :: bool
  no_unsupported_vhost_user :: bool
  balloon_resize_inactive :: bool
  memory_slot_budget :: u32
  vfio_mapping_budget :: u32
  windows_driver_version :: rust_str

record live_evidence =
  ev_vm_name :: rust_str
  ev_device_alias :: rust_str
  domain_xml_sha256 :: rust_str
  qemu_argv_sha256 :: rust_str
  libvirt_version_sha256 :: rust_str
  ev_qemu_version :: json
  ev_dynamic_memslots :: bool
  ev_unplugged_inaccessible :: bool

record compatibility_attestation =
  at_version :: u32
  at_evidence :: live_evidence
  at_review :: compatibility_review
  fingerprint_sha256 :: rust_str

record attestation_codec =
  parse_json :: "rust_str \<Rightarrow> rust_str + json"
  json_text :: "json \<Rightarrow> rust_str"
  json_bytes :: "json \<Rightarrow> rust_str + rust_str"
  parse_attestation :: "rust_str \<Rightarrow> rust_str + compatibility_attestation"
  parse_review :: "rust_str \<Rightarrow> rust_str + compatibility_review"
  from_utf8 :: "8 word list \<Rightarrow> rust_str + rust_str"
  sha256_hex :: "rust_str \<Rightarrow> rust_str"

definition COMPATIBILITY_ATTESTATION_VERSION :: u32 where
  "COMPATIBILITY_ATTESTATION_VERSION = 1"

definition MAX_ATTESTATION_BYTES :: nat where
  "MAX_ATTESTATION_BYTES = 64 * 1024"

section \<open>Validation\<close>

definition review_confirmations :: "compatibility_review \<Rightarrow> (bool \<times> rust_str) list" where
  "review_confirmations r =
     [(trusted_development_guest r, lit ''trusted_development_guest''),
      (workload_reviewed r, lit ''workload_reviewed''),
      (no_vdpa r, lit ''no_vdpa''),
      (no_rdma_migration r, lit ''no_rdma_migration''),
      (no_vfio_nvme r, lit ''no_vfio_nvme''),
      (no_mlock r, lit ''no_mlock''),
      (no_secure_virtualization r, lit ''no_secure_virtualization''),
      (no_unsupported_vhost_user r, lit ''no_unsupported_vhost_user''),
      (balloon_resize_inactive r, lit ''balloon_resize_inactive'')]"

definition validate_review :: "compatibility_review \<Rightarrow> rust_str + unit" where
  "validate_review r =
     (case List.find (\<lambda>(value, _). \<not> value) (review_confirmations r) of
        Some (_, name) \<Rightarrow> Inl (lit ''compatibility review does not confirm '' @ name)
      | None \<Rightarrow>
          if memory_slot_budget r = 0
            then Inl (lit ''compatibility review memory_slot_budget must be positive'')
          else if vfio_mapping_budget r = 0
            then Inl (lit ''compatibility review vfio_mapping_budget must be positive'')
          else if trim (windows_driver_version r) = []
            then Inl (lit ''compatibility review windows_driver_version must be non-empty'')
          else Inr ())"

definition validate_alias :: "rust_str \<Rightarrow> rust_str + unit" where
  "validate_alias alias =
     (if valid_alias alias then Inr ()
      else Inl (lit ''compatibility evidence alias contains unsupported characters''))"

fun check_digests :: "(rust_str \<times> rust_str) list \<Rightarrow> rust_str + unit" where
  "check_digests [] = Inr ()"
| "check_digests ((name, value) # rest) =
     (if str_len value \<noteq> 64 \<or> \<not> list_all is_ascii_hexdigit value
        then Inl (lit ''compatibility evidence '' @ name @ lit '' must be SHA-256 hex'')
      else check_digests rest)"

fun check_version_components :: "json \<Rightarrow> rust_str list \<Rightarrow> rust_str + unit" where
  "check_version_components qemu [] = Inr ()"
| "check_version_components qemu (component # rest) =
     (if Option.bind (json_get qemu component) as_u64 = None
        then Inl (lit ''compatibility evidence qemu_version.qemu.'' @ component @ lit '' must be an unsigned integer'')
      else check_version_components qemu rest)"

definition validate_evidence :: "live_evidence \<Rightarrow> rust_str + unit" where
  "validate_evidence e =
     (if trim (ev_vm_name e) = [] then Inl (lit ''compatibility evidence VM name must be non-empty'')
      else
        and_then (validate_alias (ev_device_alias e)) (\<lambda>_.
        and_then (check_digests
            [(lit ''domain_xml_sha256'', domain_xml_sha256 e),
             (lit ''qemu_argv_sha256'', qemu_argv_sha256 e),
             (lit ''libvirt_version_sha256'', libvirt_version_sha256 e)]) (\<lambda>_.
        and_then (ok_or (Option.bind (json_get (ev_qemu_version e) (lit ''qemu'')) as_object)
            (lit ''compatibility evidence qemu_version.qemu must be an object'')) (\<lambda>qemu.
        and_then (check_version_components qemu [lit ''major'', lit ''minor'', lit ''micro'']) (\<lambda>_.
          if Option.bind (json_get (ev_qemu_version e) (lit ''package'')) as_str = None
            then Inl (lit ''compatibility evidence qemu_version.package must be a string'')
          else if \<not> ev_dynamic_memslots e
            then Inl (lit ''compatibility evidence does not enable dynamic_memslots'')
          else if \<not> ev_unplugged_inaccessible e
            then Inl (lit ''compatibility evidence does not enable unplugged_inaccessible'')
          else Inr ())))))"

section \<open>The fingerprint\<close>

definition evidence_json :: "live_evidence \<Rightarrow> json" where
  "evidence_json e = JObject
     [(lit ''device_alias'', JString (ev_device_alias e)),
      (lit ''domain_xml_sha256'', JString (domain_xml_sha256 e)),
      (lit ''dynamic_memslots'', JBool (ev_dynamic_memslots e)),
      (lit ''libvirt_version_sha256'', JString (libvirt_version_sha256 e)),
      (lit ''qemu_argv_sha256'', JString (qemu_argv_sha256 e)),
      (lit ''qemu_version'', ev_qemu_version e),
      (lit ''unplugged_inaccessible'', JBool (ev_unplugged_inaccessible e)),
      (lit ''vm_name'', JString (ev_vm_name e))]"

definition review_json :: "compatibility_review \<Rightarrow> json" where
  "review_json r = JObject
     [(lit ''balloon_resize_inactive'', JBool (balloon_resize_inactive r)),
      (lit ''memory_slot_budget'', JUnsigned (ucast (memory_slot_budget r))),
      (lit ''no_mlock'', JBool (no_mlock r)),
      (lit ''no_rdma_migration'', JBool (no_rdma_migration r)),
      (lit ''no_secure_virtualization'', JBool (no_secure_virtualization r)),
      (lit ''no_unsupported_vhost_user'', JBool (no_unsupported_vhost_user r)),
      (lit ''no_vdpa'', JBool (no_vdpa r)),
      (lit ''no_vfio_nvme'', JBool (no_vfio_nvme r)),
      (lit ''trusted_development_guest'', JBool (trusted_development_guest r)),
      (lit ''vfio_mapping_budget'', JUnsigned (ucast (vfio_mapping_budget r))),
      (lit ''windows_driver_version'', JString (windows_driver_version r)),
      (lit ''workload_reviewed'', JBool (workload_reviewed r))]"

definition expected_fingerprint :: "attestation_codec \<Rightarrow> compatibility_attestation \<Rightarrow> rust_str + rust_str" where
  "expected_fingerprint c a =
     and_then (map_err (\<lambda>e. lit ''serialize compatibility fingerprint payload: '' @ e)
         (json_bytes c (JObject [(lit ''evidence'', evidence_json (at_evidence a)),
           (lit ''review'', review_json (at_review a)), (lit ''version'', JUnsigned (ucast (at_version a)))]))) (\<lambda>payload.
       Inr (sha256_hex c payload))"

definition new_attestation ::
    "attestation_codec \<Rightarrow> live_evidence \<Rightarrow> compatibility_review \<Rightarrow> rust_str + compatibility_attestation" where
  "new_attestation c e r =
     and_then (validate_evidence e) (\<lambda>_.
     and_then (validate_review r) (\<lambda>_.
       let document = \<lparr>at_version = COMPATIBILITY_ATTESTATION_VERSION, at_evidence = e, at_review = r,
                       fingerprint_sha256 = []\<rparr> in
       and_then (expected_fingerprint c document) (\<lambda>fingerprint.
         Inr (document\<lparr>fingerprint_sha256 := fingerprint\<rparr>))))"

definition validate_integrity :: "attestation_codec \<Rightarrow> compatibility_attestation \<Rightarrow> rust_str + unit" where
  "validate_integrity c a =
     (if at_version a \<noteq> COMPATIBILITY_ATTESTATION_VERSION
        then Inl (lit ''unsupported compatibility attestation version: '' @ dec (unat (at_version a)))
      else
        and_then (validate_evidence (at_evidence a)) (\<lambda>_.
        and_then (validate_review (at_review a)) (\<lambda>_.
        and_then (expected_fingerprint c a) (\<lambda>expected.
          if fingerprint_sha256 a \<noteq> expected
            then Inl (lit ''compatibility attestation fingerprint is invalid'')
          else Inr ()))))"

definition parse_document :: "attestation_codec \<Rightarrow> rust_str \<Rightarrow> rust_str + compatibility_attestation" where
  "parse_document c text =
     and_then (map_err (\<lambda>e. lit ''parse compatibility attestation: '' @ e) (parse_attestation c text)) (\<lambda>document.
     and_then (validate_integrity c document) (\<lambda>_. Inr document))"

definition bool_text :: "bool \<Rightarrow> rust_str" where
  "bool_text b = (if b then lit ''true'' else lit ''false'')"

definition evidence_comparisons ::
    "attestation_codec \<Rightarrow> live_evidence \<Rightarrow> live_evidence \<Rightarrow> (rust_str \<times> rust_str \<times> rust_str) list" where
  "evidence_comparisons c a live =
     [(lit ''vm_name'', ev_vm_name a, ev_vm_name live),
      (lit ''device_alias'', ev_device_alias a, ev_device_alias live),
      (lit ''domain_xml'', domain_xml_sha256 a, domain_xml_sha256 live),
      (lit ''qemu_argv'', qemu_argv_sha256 a, qemu_argv_sha256 live),
      (lit ''libvirt_version'', libvirt_version_sha256 a, libvirt_version_sha256 live),
      (lit ''qemu_version'', json_text c (ev_qemu_version a), json_text c (ev_qemu_version live)),
      (lit ''dynamic_memslots'', bool_text (ev_dynamic_memslots a), bool_text (ev_dynamic_memslots live)),
      (lit ''unplugged_inaccessible'', bool_text (ev_unplugged_inaccessible a),
        bool_text (ev_unplugged_inaccessible live))]"

definition validate_live :: "attestation_codec \<Rightarrow> compatibility_attestation \<Rightarrow> live_evidence \<Rightarrow> rust_str + unit" where
  "validate_live c a live =
     and_then (validate_integrity c a) (\<lambda>_.
     and_then (validate_evidence live) (\<lambda>_.
       case List.find (\<lambda>(_, attested, observed). attested \<noteq> observed) (evidence_comparisons c (at_evidence a) live) of
         Some (field, attested, observed) \<Rightarrow>
           Inl (lit ''live compatibility evidence drifted: '' @ field @ lit '' (attested '' @ attested
             @ lit '', live '' @ observed @ lit '')'')
       | None \<Rightarrow> Inr ()))"

section \<open>Collecting the live evidence\<close>

definition run_command ::
    "env \<Rightarrow> nat \<Rightarrow> rust_str \<Rightarrow> rust_str list \<Rightarrow> (history, rust_str, rust_str) prog" where
  "run_command w i what arguments =
     bind (map_error (\<lambda>e. lit ''read '' @ what @ lit '': '' @ e) (run_virsh w i arguments)) (\<lambda>output.
       if trim output = [] then raise (lit ''read '' @ what @ lit '': command returned empty output'')
       else ret output)"

definition qmp_request :: "rust_str \<Rightarrow> json option \<Rightarrow> json" where
  "qmp_request execute arguments =
     JObject ((case arguments of None \<Rightarrow> [] | Some a \<Rightarrow> [(lit ''arguments'', a)]) @ [(lit ''execute'', JString execute)])"

definition qmp ::
    "env \<Rightarrow> attestation_codec \<Rightarrow> nat \<Rightarrow> rust_str \<Rightarrow> rust_str \<Rightarrow> json option \<Rightarrow> (history, rust_str, json) prog" where
  "qmp w c i vm execute arguments =
     bind (run_command w i (lit ''live QMP evidence'')
         [lit ''qemu-monitor-command'', vm, json_text c (qmp_request execute arguments)]) (\<lambda>response.
     bind (lift_result (map_err (\<lambda>e. lit ''parse live QMP evidence: '' @ e) (parse_json c response))) (\<lambda>response.
       lift_result (ok_or (json_get response (lit ''return''))
         (lit ''live QMP evidence response is missing return''))))"

definition qom_path :: "rust_str \<Rightarrow> rust_str" where
  "qom_path alias = lit ''/machine/peripheral/'' @ alias"

definition qom_value :: "attestation_codec \<Rightarrow> rust_str \<Rightarrow> json \<Rightarrow> rust_str + bool" where
  "qom_value c property v =
     (case v of
        JBool b \<Rightarrow> Inr b
      | JString s \<Rightarrow>
          if s \<in> set [lit ''on'', lit ''yes'', lit ''true'', lit ''1''] then Inr True
          else if s \<in> set [lit ''off'', lit ''no'', lit ''false'', lit ''0''] then Inr False
          else Inl (lit ''live QMP property '' @ property @ lit '' has unsupported value '' @ json_text c v)
      | _ \<Rightarrow> Inl (lit ''live QMP property '' @ property @ lit '' has unsupported value '' @ json_text c v))"

definition qom_arguments :: "rust_str \<Rightarrow> rust_str \<Rightarrow> json" where
  "qom_arguments alias property =
     JObject [(lit ''path'', JString (qom_path alias)), (lit ''property'', JString property)]"

definition qom_bool ::
    "env \<Rightarrow> attestation_codec \<Rightarrow> nat \<Rightarrow> rust_str \<Rightarrow> rust_str \<Rightarrow> rust_str \<Rightarrow> (history, rust_str, bool) prog" where
  "qom_bool w c i vm alias property =
     bind (qmp w c i vm (lit ''qom-get'') (Some (qom_arguments alias property))) (\<lambda>v.
       lift_result (qom_value c property v))"

text \<open>What of the live documents is fingerprinted.\<close>

definition xml_identity :: "rust_str \<Rightarrow> rust_str" where
  "xml_identity xml = scrub_runtime_identity (scrub_allocation_state xml)"

definition argv_identity :: "rust_str \<Rightarrow> rust_str" where
  "argv_identity argv = trim (scrub_descriptor_numbers (scrub_qemu_argv argv))"

definition collect ::
    "env \<Rightarrow> attestation_codec \<Rightarrow> nat \<Rightarrow> rust_str \<Rightarrow> rust_str \<Rightarrow> (history, rust_str, live_evidence) prog" where
  "collect w c i vm alias =
     bind (lift_result (validate_alias alias)) (\<lambda>_.
     bind (run_command w i (lit ''live domain XML'') [lit ''dumpxml'', vm]) (\<lambda>domain_xml.
     bind (lift_result (map_err (\<lambda>e. lit ''validate live domain XML for attestation: '' @ display_virtio_mem_xml_error e)
         (parse_virtio_mem_xml_for_alias (world_xml w) domain_xml alias))) (\<lambda>_.
     bind (run_command w i (lit ''live QEMU argv'') [lit ''domxml-to-native'', lit ''qemu-argv'', lit ''--domain'', vm]) (\<lambda>qemu_argv.
     bind (run_command w i (lit ''libvirt version'') [lit ''version'']) (\<lambda>libvirt_version.
     bind (qmp w c i vm (lit ''query-version'') None) (\<lambda>qemu_version.
     bind (qom_bool w c i vm alias (lit ''dynamic-memslots'')) (\<lambda>slots.
     bind (qom_bool w c i vm alias (lit ''unplugged-inaccessible'')) (\<lambda>inaccessible.
       ret \<lparr>ev_vm_name = vm, ev_device_alias = alias,
            domain_xml_sha256 = sha256_hex c (xml_identity domain_xml),
            qemu_argv_sha256 = sha256_hex c (argv_identity qemu_argv),
            libvirt_version_sha256 = sha256_hex c (trim libvirt_version),
            ev_qemu_version = qemu_version, ev_dynamic_memslots = slots,
            ev_unplugged_inaccessible = inaccessible\<rparr>))))))))"

section \<open>The attested source\<close>

text \<open>Opening or reading the file fails, or gives its bytes.\<close>

definition read_bounded_json ::
    "attestation_codec \<Rightarrow> rust_str \<Rightarrow> rust_str \<Rightarrow> rust_str + 8 word list \<Rightarrow> rust_str + rust_str" where
  "read_bounded_json c path what file =
     and_then (map_err (\<lambda>e. lit ''read '' @ what @ lit '' '' @ path @ lit '': '' @ e) file) (\<lambda>bytes.
       let bytes = take (MAX_ATTESTATION_BYTES + 1) bytes in
       if MAX_ATTESTATION_BYTES < length bytes
         then Inl (what @ lit '' '' @ path @ lit '' exceeds '' @ dec MAX_ATTESTATION_BYTES @ lit '' bytes'')
       else map_err (\<lambda>e. lit ''read '' @ what @ lit '' '' @ path @ lit '' as UTF-8: '' @ e) (from_utf8 c bytes))"

definition read_attestation ::
    "attestation_codec \<Rightarrow> rust_str \<Rightarrow> rust_str + 8 word list \<Rightarrow> rust_str + compatibility_attestation" where
  "read_attestation c path file =
     and_then (read_bounded_json c path (lit ''compatibility attestation'') file) (parse_document c)"

definition read_review ::
    "attestation_codec \<Rightarrow> rust_str \<Rightarrow> rust_str + 8 word list \<Rightarrow> rust_str + compatibility_review" where
  "read_review c path file =
     and_then (read_bounded_json c path (lit ''compatibility review'') file) (\<lambda>text.
     and_then (map_err (\<lambda>e. lit ''parse compatibility review: '' @ e) (parse_review c text)) (\<lambda>review.
     and_then (validate_review review) (\<lambda>_. Inr review)))"

definition evidence_verdict :: "bool \<Rightarrow> compatibility_evidence" where
  "evidence_verdict b = (if b then Confirmed else Rejected)"

definition attested_compatibility ::
    "env \<Rightarrow> attestation_codec \<Rightarrow> nat \<Rightarrow> rust_str \<Rightarrow> rust_str \<Rightarrow> rust_str \<Rightarrow> rust_str + 8 word list \<Rightarrow>
     (history, rust_str, virtio_mem_compatibility) prog" where
  "attested_compatibility w c i vm alias path file =
     bind (lift_result (read_attestation c path file)) (\<lambda>attestation.
     bind (collect w c i vm alias) (\<lambda>live.
     bind (lift_result (validate_live c attestation live)) (\<lambda>_.
       ret \<lparr>dynamic_memslots = evidence_verdict (ev_dynamic_memslots live),
            unplugged_inaccessible = evidence_verdict (ev_unplugged_inaccessible live),
            workload_review = Confirmed\<rparr>)))"

section \<open>What an accepted attestation says\<close>

lemma validate_review_ok:
  "validate_review r = Inr u \<longleftrightarrow>
     trusted_development_guest r \<and> workload_reviewed r \<and> no_vdpa r \<and> no_rdma_migration r \<and> no_vfio_nvme r
     \<and> no_mlock r \<and> no_secure_virtualization r \<and> no_unsupported_vhost_user r \<and> balloon_resize_inactive r
     \<and> memory_slot_budget r \<noteq> 0 \<and> vfio_mapping_budget r \<noteq> 0 \<and> trim (windows_driver_version r) \<noteq> []"
  by (simp add: validate_review_def review_confirmations_def)

lemma validate_evidence_ok:
  "validate_evidence e = Inr u \<Longrightarrow> ev_dynamic_memslots e \<and> ev_unplugged_inaccessible e"
  by (auto simp: validate_evidence_def and_then_Inr split: if_splits)

lemma bool_text_inject [simp]: "bool_text a = bool_text b \<longleftrightarrow> a = b"
  by (cases a; cases b) (simp_all add: bool_text_def lit_def)

text \<open>No drift means that no reported field differs.\<close>

definition same_evidence :: "attestation_codec \<Rightarrow> live_evidence \<Rightarrow> live_evidence \<Rightarrow> bool" where
  "same_evidence c a b \<longleftrightarrow>
     json_text c (ev_qemu_version a) = json_text c (ev_qemu_version b)
     \<and> a\<lparr>ev_qemu_version := JNull\<rparr> = b\<lparr>ev_qemu_version := JNull\<rparr>"

lemma comparisons_agree:
  "List.find (\<lambda>(_, x, y). x \<noteq> y) (evidence_comparisons c a b) = None \<longleftrightarrow> same_evidence c a b"
  by (cases a; cases b) (auto simp: evidence_comparisons_def same_evidence_def)

lemma validate_live_ok:
  "validate_live c a live = Inr u \<longleftrightarrow>
     validate_integrity c a = Inr () \<and> validate_evidence live = Inr () \<and> same_evidence c (at_evidence a) live"
  by (auto simp: validate_live_def and_then_Inr comparisons_agree [symmetric] split: option.splits)

section \<open>The commands of one collection\<close>

lemma bind_Inr: "bind m f s = (Inr y, s') \<longleftrightarrow> (\<exists>x t. m s = (Inr x, t) \<and> f x t = (Inr y, s'))"
  by (auto simp: bind_def split: prod.splits sum.splits)

lemma lift_Inr: "lift_result r s = (Inr x, s') \<longleftrightarrow> r = Inr x \<and> s' = s"
  by (auto simp: lift_result_def)

lemma ret_Inr: "ret x s = (Inr y, s') \<longleftrightarrow> y = x \<and> s' = s"
  by (auto simp: ret_def)

lemma run_command_Inr:
  "run_command w i what arguments h = (Inr output, h') \<longleftrightarrow>
     world_virsh w i arguments h = Inr output \<and> trim output \<noteq> [] \<and> h' = (i, Virsh arguments) # h"
  by (auto simp: run_command_def bind_Inr map_error_def run_virsh_def ask_def raise_def ret_Inr map_err_Inr)

definition monitor_args :: "attestation_codec \<Rightarrow> rust_str \<Rightarrow> rust_str \<Rightarrow> json option \<Rightarrow> rust_str list" where
  "monitor_args c vm execute arguments =
     [lit ''qemu-monitor-command'', vm, json_text c (qmp_request execute arguments)]"

lemma qmp_Inr:
  "qmp w c i vm execute arguments h = (Inr v, h') \<Longrightarrow>
     h' = (i, Virsh (monitor_args c vm execute arguments)) # h
     \<and> (\<exists>text response. world_virsh w i (monitor_args c vm execute arguments) h = Inr text
          \<and> parse_json c text = Inr response \<and> json_get response (lit ''return'') = Some v)"
  by (auto simp: qmp_def bind_Inr lift_Inr run_command_Inr monitor_args_def map_err_Inr ok_or_Inr)

lemma qom_bool_Inr:
  "qom_bool w c i vm alias property h = (Inr b, h') \<Longrightarrow>
     h' = (i, Virsh (monitor_args c vm (lit ''qom-get'') (Some (qom_arguments alias property)))) # h"
  by (auto simp: qom_bool_def bind_Inr lift_Inr dest: qmp_Inr)

text \<open>The commands of one collection, in the order in which they are issued.\<close>

definition collection_commands :: "attestation_codec \<Rightarrow> rust_str \<Rightarrow> rust_str \<Rightarrow> rust_str list list" where
  "collection_commands c vm alias =
     [[lit ''dumpxml'', vm], [lit ''domxml-to-native'', lit ''qemu-argv'', lit ''--domain'', vm], [lit ''version''],
      monitor_args c vm (lit ''query-version'') None,
      monitor_args c vm (lit ''qom-get'') (Some (qom_arguments alias (lit ''dynamic-memslots''))),
      monitor_args c vm (lit ''qom-get'') (Some (qom_arguments alias (lit ''unplugged-inaccessible'')))]"

lemma collect_Inr:
  assumes "collect w c i vm alias h = (Inr live, h')"
  shows "h' = rev (map (\<lambda>args. (i, Virsh args)) (collection_commands c vm alias)) @ h"
    and "ev_vm_name live = vm" and "ev_device_alias live = alias"
    and "\<exists>xml d. world_virsh w i [lit ''dumpxml'', vm] h = Inr xml
           \<and> parse_virtio_mem_xml_for_alias (world_xml w) xml alias = Inr d
           \<and> domain_xml_sha256 live = sha256_hex c (xml_identity xml)"
    and "\<exists>argv. world_virsh w i [lit ''domxml-to-native'', lit ''qemu-argv'', lit ''--domain'', vm] ((i, Virsh [lit ''dumpxml'', vm]) # h) = Inr argv
           \<and> qemu_argv_sha256 live = sha256_hex c (argv_identity argv)"
  using assms
  by (auto simp: collect_def bind_Inr lift_Inr ret_Inr run_command_Inr map_err_Inr collection_commands_def
      dest!: qmp_Inr qom_bool_Inr)


section \<open>A reviewed guest\<close>

definition sample_review :: compatibility_review where
  "sample_review =
     \<lparr>trusted_development_guest = True, workload_reviewed = True, no_vdpa = True, no_rdma_migration = True,
      no_vfio_nvme = True, no_mlock = True, no_secure_virtualization = True, no_unsupported_vhost_user = True,
      balloon_resize_inactive = True, memory_slot_budget = 32, vfio_mapping_budget = 8,
      windows_driver_version = lit ''100.101.104.20800''\<rparr>"

definition sample_version :: json where
  "sample_version = JObject
     [(lit ''package'', JString []),
      (lit ''qemu'', JObject [(lit ''major'', JUnsigned 9), (lit ''micro'', JUnsigned 0), (lit ''minor'', JUnsigned 1)])]"

definition sample_digest :: rust_str where
  "sample_digest = replicate 64 97"

definition sample_evidence :: live_evidence where
  "sample_evidence =
     \<lparr>ev_vm_name = lit ''win11'', ev_device_alias = lit ''virtiomem0'', domain_xml_sha256 = sample_digest,
      qemu_argv_sha256 = sample_digest, libvirt_version_sha256 = sample_digest, ev_qemu_version = sample_version,
      ev_dynamic_memslots = True, ev_unplugged_inaccessible = True\<rparr>"

definition sample_attestation :: compatibility_attestation where
  "sample_attestation =
     \<lparr>at_version = 1, at_evidence = sample_evidence, at_review = sample_review, fingerprint_sha256 = sample_digest\<rparr>"

definition sample_codec :: attestation_codec where
  "sample_codec =
     \<lparr>parse_json = (\<lambda>t. Inr (JObject [(lit ''return'', if t = lit ''v'' then sample_version else JBool True)])),
      json_text = (\<lambda>j. if j = qmp_request (lit ''query-version'') None then lit ''v'' else lit ''q''),
      json_bytes = (\<lambda>_. Inr []),
      parse_attestation = (\<lambda>_. Inr sample_attestation),
      parse_review = (\<lambda>_. Inr sample_review), from_utf8 = (\<lambda>_. Inr []), sha256_hex = (\<lambda>_. sample_digest)\<rparr>"

definition answering_env :: env where
  "answering_env = (sample_env sample_live)\<lparr>world_virsh := (\<lambda>_ args _. Inr (last args))\<rparr>"

lemma sample_reads: "read_attestation sample_codec [] (Inr []) = Inr sample_attestation"
proof -
  have "validate_integrity sample_codec sample_attestation = Inr ()" by code_simp
  then show ?thesis
    by (simp add: read_attestation_def read_bounded_json_def parse_document_def sample_codec_def and_then_Inr)
qed


end
