(* ===== verification/Scrub_Invariance.thy ===== *)
theory Scrub_Invariance
  imports Attestation
begin

text \<open>
  What the fingerprint of the live XML does not see. A document is cut into pieces: the elements that
  report the live allocation, and the markup between them. Scrubbing blanks the text of the former and
  keeps everything else, so a resize, which changes nothing else, cannot look like configuration drift.
\<close>

section \<open>Cutting a document\<close>

datatype xml_piece = Markup rust_str | Allocation rust_str rust_str rust_str

fun piece_text :: "xml_piece \<Rightarrow> rust_str" where
  "piece_text (Markup m) = m"
| "piece_text (Allocation e attributes a) = [60] @ e @ attributes @ [62] @ a @ [60, 47] @ e @ [62]"

definition pieces_text :: "xml_piece list \<Rightarrow> rust_str" where
  "pieces_text ps = concat (map piece_text ps)"

text \<open>After a \<open><\<close>: the text can not begin the element \<open>e\<close>, however it continues.\<close>

definition other_name :: "rust_str \<Rightarrow> rust_str \<Rightarrow> bool" where
  "other_name e s \<longleftrightarrow> \<not> starts_with e s
     \<and> (starts_with s e \<longrightarrow> (case drop (length e) s of [] \<Rightarrow> False | d # _ \<Rightarrow> d \<noteq> 62 \<and> \<not> is_whitespace d))"

fun inert :: "rust_str \<Rightarrow> rust_str \<Rightarrow> bool" where
  "inert e [] = True"
| "inert e (c # s) = ((c = 60 \<longrightarrow> other_name e s) \<and> inert e s)"

definition element_attributes :: "rust_str \<Rightarrow> bool" where
  "element_attributes s \<longleftrightarrow> (s = [] \<or> is_whitespace (hd s)) \<and> 62 \<notin> set s \<and> 60 \<notin> set s"

definition element_name :: "rust_str \<Rightarrow> bool" where
  "element_name e \<longleftrightarrow> e \<noteq> [] \<and> list_all is_ascii_alphabetic e"

section \<open>Facts on searching\<close>

lemma starts_with_iff: "starts_with s p \<longleftrightarrow> (\<exists>r. s = p @ r)"
  unfolding starts_with_def by (metis append_eq_conv_conj append_take_drop_id)

lemma find_char_append:
  "(\<And>x. x \<in> set u \<Longrightarrow> \<not> f x) \<Longrightarrow> f c \<Longrightarrow> find_char f (u @ c # t) = Some (length u)"
  by (induction u) simp_all

lemma find_str_append: "c \<notin> set u \<Longrightarrow> find_str (c # p) (u @ (c # p) @ t) = Some (length u)"
  by (induction u) (auto simp: starts_with_def)

lemma lit_open: "lit ''<'' = [60]" "lit ''</'' = [60, 47]" "lit ''>'' = [62]"
  by (simp_all add: lit_def)

section \<open>One step of scrubbing\<close>

lemma scrub_char:
  assumes "\<not> starts_with (c # s) (60 # e)"
  shows "scrub_element e (c # s) = c # scrub_element e s"
proof (cases "find_str (60 # e) s")
  case None
  then show ?thesis using assms by (simp add: scrub_element.simps [of e "c # s"] scrub_element.simps [of e s] lit_open)
next
  case (Some start)
  then show ?thesis using assms
    by (auto simp: scrub_element.simps [of e "c # s"] scrub_element.simps [of e s] lit_open Let_def split: option.split)
qed

lemma scrub_other:
  assumes "d \<noteq> 62" and "\<not> is_whitespace d"
  shows "scrub_element e (60 # e @ d # r) = 60 # e @ scrub_element e (d # r)"
  using assms by (simp add: scrub_element.simps [of e "60 # e @ d # r"] lit_open starts_with_def)

lemma inert_suffix: "inert e (p @ q) \<Longrightarrow> inert e q"
  by (induction p) simp_all

lemma scrub_inert: "inert e p \<Longrightarrow> scrub_element e (p @ t) = p @ scrub_element e t"
proof (induction "length p" arbitrary: p rule: less_induct)
  case less
  show ?case
  proof (cases p)
    case (Cons c q)
    show ?thesis
    proof (cases "starts_with (p @ t) (60 # e)")
      case True
      then have c: "c = 60" and s: "starts_with (q @ t) e" by (auto simp: Cons starts_with_iff)
      have other: "other_name e q" using less.prems by (simp add: Cons c)
      then have "\<not> starts_with e q" by (simp add: other_name_def)
      then have "starts_with q e" using s by (auto simp: starts_with_iff append_eq_append_conv2)
      then obtain r where r: "q = e @ r" by (auto simp: starts_with_iff)
      with other obtain d r' where d: "q = e @ d # r'" "d \<noteq> 62" "\<not> is_whitespace d"
        by (auto simp: other_name_def starts_with_def split: list.splits)
      have "inert e (d # r')" using less.prems inert_suffix [of e "60 # e" "d # r'"] by (simp add: Cons c d(1))
      then show ?thesis using less.hyps [of "d # r'"] d(2,3) by (simp add: Cons c d(1) scrub_other)
    next
      case False
      then show ?thesis using less.hyps [of q] less.prems by (simp add: Cons scrub_char)
    qed
  qed simp
qed

lemma scrub_allocation:
  assumes "62 \<notin> set e" and "element_attributes attributes" and "60 \<notin> set a"
  shows "scrub_element e (piece_text (Allocation e attributes a) @ t) =
    piece_text (Allocation e attributes allocation_state) @ scrub_element e t"
proof -
  let ?close = "[60, 47] @ e @ [62]"
  let ?s = "60 # e @ attributes @ 62 # a @ 60 # 47 # e @ 62 # t"
  have "(case attributes @ 62 # a @ ?close @ t of [] \<Rightarrow> False | c # _ \<Rightarrow> c = 62 \<or> is_whitespace c)"
    using assms(2) by (cases attributes) (simp_all add: element_attributes_def)
  then have named: "(case drop (length e + 1) ?s of [] \<Rightarrow> False | c # _ \<Rightarrow> c = 62 \<or> is_whitespace c)" by simp
  have opens: "find_char (\<lambda>c. c = 62) ?s = Some (length (60 # e @ attributes))"
  proof -
    have "x \<noteq> 62" if "x \<in> set (60 # e @ attributes)" for x
      using that assms(1,2) by (auto simp: element_attributes_def)
    then show ?thesis using find_char_append [of "60 # e @ attributes" "\<lambda>c. c = 62" 62 "a @ 60 # 47 # e @ 62 # t"] by simp
  qed
  have closes: "find_str ?close (a @ ?close @ t) = Some (length a)"
    using find_str_append [of 60 a "47 # e @ [62]" t] assms(3) by simp
  have finds: "starts_with ?s (60 # e)" by (simp add: starts_with_def)
  have rest: "drop (4 + (length a + length e)) (62 # a @ 60 # 47 # e @ 62 # t) = t" by (simp add: numeral_eq_Suc)
  show ?thesis
    using named opens closes finds rest
    by (simp add: scrub_element.simps [of e ?s] lit_open)
qed

section \<open>Scrubbing a document\<close>

definition piece_ok :: "rust_str \<Rightarrow> xml_piece \<Rightarrow> bool" where
  "piece_ok e p =
     (case p of
        Markup m \<Rightarrow> inert e m
      | Allocation e' attributes a \<Rightarrow>
          element_name e' \<and> element_attributes attributes \<and> (if e' = e then 60 \<notin> set a else inert e a))"

fun blank :: "rust_str \<Rightarrow> xml_piece \<Rightarrow> xml_piece" where
  "blank e (Markup m) = Markup m"
| "blank e (Allocation e' attributes a) = Allocation e' attributes (if e' = e then allocation_state else a)"

lemma element_name_chars: "element_name e \<Longrightarrow> c \<in> set e \<Longrightarrow> is_ascii_alphabetic c"
  by (simp add: element_name_def list_all_iff)

lemma alphabetic_plain: "is_ascii_alphabetic c \<Longrightarrow> c \<noteq> 60 \<and> c \<noteq> 62 \<and> c \<noteq> 47 \<and> \<not> is_whitespace c"
  by (auto simp: is_ascii_alphabetic_def is_ascii_lowercase_def is_ascii_uppercase_def is_whitespace_def)

lemma inert_append: "inert e p \<Longrightarrow> inert e q \<Longrightarrow> inert e (p @ q)"
proof (induction p)
  case (Cons c p)
  have "other_name e p \<Longrightarrow> other_name e (p @ q)"
    by (auto simp: other_name_def starts_with_iff append_eq_append_conv2 split: list.splits)
  then show ?case using Cons by simp
qed simp

lemma inert_plain: "60 \<notin> set s \<Longrightarrow> inert e s"
  by (induction s) auto

lemma other_element:
  assumes "element_name e" and "element_name e'" and "e' \<noteq> e" and "r \<noteq> [] \<Longrightarrow> hd r = 62 \<or> is_whitespace (hd r)" and "r \<noteq> []"
  shows "other_name e (e' @ r)"
proof -
  obtain c r' where r: "r = c # r'" using assms(5) by (cases r) auto
  have c: "c \<notin> set e" "c = 62 \<or> is_whitespace c" using assms(4) element_name_chars [OF assms(1)] alphabetic_plain by (auto simp: r)
  have "\<not> starts_with e (e' @ r)" using c(1) by (auto simp: starts_with_iff r)
  moreover have "case drop (length e) (e' @ r) of [] \<Rightarrow> False | d # _ \<Rightarrow> d \<noteq> 62 \<and> \<not> is_whitespace d"
    if starts: "starts_with (e' @ r) e"
  proof -
    obtain u where "e' @ r = e @ u" using starts by (auto simp: starts_with_iff)
    then have "\<exists>v. e' = e @ v" using c(1) by (auto simp: r append_eq_append_conv2 Cons_eq_append_conv)
    then obtain v where v: "e' = e @ v" by blast
    then obtain d v' where "v = d # v'" using assms(3) by (cases v) auto
    then show ?thesis using alphabetic_plain [OF element_name_chars [OF assms(2), of d]] by (simp add: v)
  qed
  ultimately show ?thesis by (simp add: other_name_def)
qed

lemma inert_other_element:
  assumes "element_name e" and "element_name e'" and "e' \<noteq> e" and "element_attributes attributes" and "inert e a"
  shows "inert e (piece_text (Allocation e' attributes a))"
proof -
  have plain: "60 \<notin> set e'" using element_name_chars [OF assms(2)] alphabetic_plain by blast
  have "hd (attributes @ [62]) = 62 \<or> is_whitespace (hd (attributes @ [62]))"
    using assms(4) by (cases attributes) (auto simp: element_attributes_def)
  then have "inert e (60 # e' @ attributes @ [62])"
    using other_element [OF assms(1-3), of "attributes @ [62]"] assms(4) plain
    by (simp add: inert_plain element_attributes_def)
  moreover have "inert e ([60, 47] @ e' @ [62])"
    using assms(1) plain alphabetic_plain [of 47]
    by (cases e) (auto simp: inert_plain element_name_def other_name_def starts_with_def is_ascii_alphabetic_def
        is_ascii_lowercase_def is_ascii_uppercase_def)
  ultimately show ?thesis using assms(5) inert_append [of e "60 # e' @ attributes @ [62]" "a @ [60, 47] @ e' @ [62]"]
    by (simp add: inert_append)
qed

lemma scrub_pieces:
  assumes "element_name e" and "list_all (piece_ok e) ps"
  shows "scrub_element e (pieces_text ps) = pieces_text (map (blank e) ps)"
  using assms(2)
proof (induction ps)
  case Nil
  have "scrub_element e [] = []" by (simp add: scrub_element.simps [of e "[]"] lit_open)
  then show ?case by (simp add: pieces_text_def)
next
  case (Cons p ps)
  have step: "scrub_element e (piece_text p @ pieces_text ps) = piece_text (blank e p) @ scrub_element e (pieces_text ps)"
  proof (cases p)
    case (Markup m)
    then show ?thesis using Cons.prems by (simp add: piece_ok_def scrub_inert)
  next
    case (Allocation e' attributes a)
    have ok: "element_name e'" "element_attributes attributes" "if e' = e then 60 \<notin> set a else inert e a"
      using Cons.prems by (simp_all add: Allocation piece_ok_def)
    show ?thesis
    proof (cases "e' = e")
      case True
      moreover have "62 \<notin> set e" using element_name_chars [OF assms(1)] alphabetic_plain by blast
      ultimately show ?thesis using scrub_allocation [of e attributes a] ok by (simp add: Allocation)
    next
      case False
      then show ?thesis using scrub_inert [OF inert_other_element [OF assms(1) ok(1) False ok(2)]] ok(3)
        by (simp add: Allocation)
    qed
  qed
  then show ?case using Cons by (simp add: pieces_text_def)
qed

section \<open>Resizing is not drift\<close>

definition allocation_elements :: "rust_str list" where
  "allocation_elements = [lit ''currentMemory'', lit ''requested'', lit ''current'']"

text \<open>Pieces as libvirt writes them: the reported sizes are texts without markup.\<close>

definition allocation_document :: "xml_piece list \<Rightarrow> bool" where
  "allocation_document ps = list_all (\<lambda>p. case p of
       Markup m \<Rightarrow> list_all (\<lambda>e. inert e m) allocation_elements
     | Allocation e attributes a \<Rightarrow> e \<in> set allocation_elements \<and> element_attributes attributes \<and> 60 \<notin> set a) ps"

fun without_allocation :: "xml_piece \<Rightarrow> xml_piece" where
  "without_allocation (Markup m) = Markup m"
| "without_allocation (Allocation e attributes a) = Allocation e attributes []"

lemma allocation_elements_facts:
  "distinct allocation_elements" "list_all element_name allocation_elements"
  by code_simp+

lemma allocation_state_inert: "e \<in> set allocation_elements \<Longrightarrow> inert e allocation_state"
proof -
  have "list_all (\<lambda>e. inert e allocation_state) allocation_elements" by code_simp
  then show "e \<in> set allocation_elements \<Longrightarrow> inert e allocation_state" by (simp add: list_all_iff)
qed

fun fill :: "rust_str list \<Rightarrow> xml_piece \<Rightarrow> xml_piece" where
  "fill es (Markup m) = Markup m"
| "fill es (Allocation e attributes a) = Allocation e attributes (if e \<in> set es then allocation_state else a)"

lemma fill_blank: "map (blank e) (map (fill es) ps) = map (fill (e # es)) ps"
proof -
  have "blank e (fill es p) = fill (e # es) p" for p by (cases p) auto
  then show ?thesis by simp
qed

lemma scrub_filled:
  assumes "allocation_document ps" and "e \<in> set allocation_elements" and "e \<notin> set es"
  shows "scrub_element e (pieces_text (map (fill es) ps)) = pieces_text (map (fill (e # es)) ps)"
proof -
  have e: "element_name e" using assms(2) allocation_elements_facts(2) by (simp add: list_all_iff)
  have "piece_ok e (fill es p)" if "p \<in> set ps" for p
    using assms that allocation_elements_facts(2) allocation_state_inert
    by (cases p) (fastforce simp: allocation_document_def piece_ok_def list_all_iff intro: inert_plain)+
  then show ?thesis using scrub_pieces [OF e, of "map (fill es) ps"] unfolding fill_blank by (simp add: list_all_iff)
qed

lemma scrub_document:
  assumes "allocation_document ps"
  shows "scrub_allocation_state (pieces_text ps) = pieces_text (map (fill (rev allocation_elements)) ps)"
proof -
  have start: "map (fill []) ps = ps"
  proof -
    have "fill [] p = p" for p by (cases p) simp_all
    then show ?thesis by (simp add: map_idI)
  qed
  have d: "lit ''currentMemory'' \<notin> set []" "lit ''requested'' \<notin> set [lit ''currentMemory'']"
      "lit ''current'' \<notin> set [lit ''requested'', lit ''currentMemory'']"
    using allocation_elements_facts(1) by (auto simp: allocation_elements_def)
  have m: "lit ''currentMemory'' \<in> set allocation_elements" "lit ''requested'' \<in> set allocation_elements"
      "lit ''current'' \<in> set allocation_elements"
    by (simp_all add: allocation_elements_def)
  show ?thesis
    using scrub_filled [OF assms m(1) d(1)] scrub_filled [OF assms m(2) d(2)] scrub_filled [OF assms m(3) d(3)]
    unfolding start by (simp add: scrub_allocation_state_def allocation_elements_def)
qed

lemma fill_without:
  "allocation_document ps \<Longrightarrow>
     map (fill (rev allocation_elements)) ps = map (fill (rev allocation_elements)) (map without_allocation ps)"
proof -
  assume doc: "allocation_document ps"
  have "fill (rev allocation_elements) p = fill (rev allocation_elements) (without_allocation p)" if "p \<in> set ps" for p
    using doc that by (cases p) (auto simp: allocation_document_def list_all_iff)
  then show ?thesis by simp
qed

text \<open>
  C18. The fingerprint of the live domain XML does not depend on the allocation it reports: two documents
  that differ only in the texts of their \<open>currentMemory\<close>, \<open>requested\<close> and \<open>current\<close> elements have the same
  identity. What the daemon itself changes therefore never invalidates the attestation it acts on.
\<close>

theorem resizing_is_not_drift:
  assumes "allocation_document ps" and "allocation_document qs"
    and "map without_allocation ps = map without_allocation qs"
  shows "xml_identity (pieces_text ps) = xml_identity (pieces_text qs)"
  using assms by (simp add: xml_identity_def scrub_document fill_without)

definition quoted :: "rust_str \<Rightarrow> rust_str" where
  "quoted s = [39] @ s @ [39]"

definition kib_unit :: rust_str where
  "kib_unit = lit '' unit='' @ quoted (lit ''KiB'')"

definition sample_pieces :: "rust_str \<Rightarrow> xml_piece list" where
  "sample_pieces kib =
     [Markup (lit ''<domain><name>win11</name>''), Allocation (lit ''currentMemory'') kib_unit kib,
      Markup (lit ''<memory model='' @ quoted (lit ''virtio-mem'') @ lit ''><target>''), Allocation (lit ''requested'') kib_unit kib,
      Allocation (lit ''current'') kib_unit kib, Markup (lit ''</target></memory></domain>'')]"

theorem resizing_is_not_drift_witness:
  "xml_identity (pieces_text (sample_pieces (lit ''4194304''))) = xml_identity (pieces_text (sample_pieces (lit ''8388608'')))"
proof (rule resizing_is_not_drift)
  show "allocation_document (sample_pieces (lit ''4194304''))" by code_simp
  show "allocation_document (sample_pieces (lit ''8388608''))" by code_simp
  show "map without_allocation (sample_pieces (lit ''4194304'')) = map without_allocation (sample_pieces (lit ''8388608''))"
    by (simp add: sample_pieces_def)
qed

end
