(* ===== verification/Service_Host.thy ===== *)
theory Service_Host
  imports Rust_Strings
begin

text \<open>
  The Windows service host: \<open>service_host.rs\<close>, with the status and exit rules of \<open>service_scm.rs\<close>. Its
  threads (the hosting thread, the worker, and any number of threads that request a stop) share the stop
  flag, the list of cancellation callbacks, one channel and the atomic state. Each atomic action of a
  thread is a transition, so a run is an arbitrary interleaving of them; what the worker, the status
  publication and the clock answer is arbitrary.
\<close>

section \<open>States and errors\<close>

datatype service_state = Created | StartPending | Running | StopPending | Stopped | Failed

fun state_u8 :: "service_state \<Rightarrow> 8 word" where
  "state_u8 Created = 0"
| "state_u8 StartPending = 1"
| "state_u8 Running = 2"
| "state_u8 StopPending = 3"
| "state_u8 Stopped = 4"
| "state_u8 Failed = 5"

definition from_u8 :: "8 word \<Rightarrow> service_state" where
  "from_u8 v =
     (if v = 0 then Created else if v = 1 then StartPending else if v = 2 then Running
      else if v = 3 then StopPending else if v = 4 then Stopped else Failed)"

lemma from_state_u8 [simp]: "from_u8 (state_u8 x) = x"
  by (cases x) (simp_all add: from_u8_def)

datatype service_host_error =
    AlreadyRunning
  | AlreadyStopped
  | Startup rust_str
  | Worker rust_str
  | InvalidShutdownTimeout

fun display_service_host_error :: "service_host_error \<Rightarrow> rust_str" where
  "display_service_host_error AlreadyRunning = lit ''service host is already running''"
| "display_service_host_error AlreadyStopped = lit ''service host has already stopped''"
| "display_service_host_error (Startup e) = lit ''service worker initialization failed: '' @ e"
| "display_service_host_error (Worker e) = lit ''service worker failed: '' @ e"
| "display_service_host_error InvalidShutdownTimeout = lit ''service host shutdown timeout must be greater than zero''"

type_synonym host_result = "service_host_error + unit"

datatype host_event = Initialized | Finished host_result | StopEvent

text \<open>
  The hosting thread: before a call of \<open>run_with_status\<close>; after the start checks; holding the lock of the
  callbacks with the flag as it read it; before the worker is spawned; waiting for an event; about to
  report \<open>Running\<close>; publishing; running the callbacks after it cancelled; returned; process ended.
\<close>

datatype host_phase =
    Idle
  | Claimed
  | Checked bool
  | Registered
  | Receiving
  | Reporting
  | Publishing service_state
  | Draining
  | Returned host_result
  | Exited

text \<open>
  The worker: held by the host; its thread before the first check of the flag, initializing, before the
  second check, about to report, running, dropping its resources, about to send its result, ended.
\<close>

datatype worker_phase =
    Held
  | Spawned
  | Initializing
  | InitDone
  | Announcing
  | Working
  | Dropping host_result
  | Sending host_result
  | Ended

text \<open>The callback of this host in the list of the stop signal.\<close>

datatype callback = Absent | Pending | Called

record host_sys =
  hs_state :: "8 word"
  hs_cancelled :: bool
  hs_callback :: callback
  hs_locked :: bool
  hs_requesters :: nat
  hs_cancellers :: nat
  hs_channel :: "host_event list"
  hs_worker :: worker_phase
  hs_host :: host_phase
  hs_deadline :: "int option"
  hs_status_error :: "rust_str option"
  hs_reports :: "(service_state \<times> bool) list"
  hs_now :: int

text \<open>A host made for a stop signal that may be cancelled already.\<close>

definition initial_host :: "bool \<Rightarrow> int \<Rightarrow> host_sys" where
  "initial_host cancelled t =
     \<lparr>hs_state = state_u8 Created, hs_cancelled = cancelled, hs_callback = Absent, hs_locked = False,
      hs_requesters = 0, hs_cancellers = 0, hs_channel = [], hs_worker = Held, hs_host = Idle,
      hs_deadline = None, hs_status_error = None, hs_reports = [], hs_now = t\<rparr>"

section \<open>Operations\<close>

fun start_guard :: "service_state \<Rightarrow> service_host_error + unit" where
  "start_guard Created = Inr ()"
| "start_guard StartPending = Inl AlreadyRunning"
| "start_guard Running = Inl AlreadyRunning"
| "start_guard StopPending = Inl AlreadyRunning"
| "start_guard Stopped = Inl AlreadyStopped"
| "start_guard Failed = Inl AlreadyStopped"

text \<open>\<open>Instant::checked_add\<close>, with the latest representable instant.\<close>

definition checked_instant :: "int \<Rightarrow> int \<Rightarrow> int \<Rightarrow> int option" where
  "checked_instant limit t d = (if t + d \<le> limit then Some (t + d) else None)"

text \<open>The receiver lives while \<open>run_with_status\<close> runs; a message to no receiver is lost.\<close>

fun receiving :: "host_phase \<Rightarrow> bool" where
  "receiving Idle = False"
| "receiving (Returned r) = False"
| "receiving Exited = False"
| "receiving _ = True"

definition send_event :: "host_event \<Rightarrow> host_sys \<Rightarrow> host_sys" where
  "send_event e s = (if receiving (hs_host s) then s\<lparr>hs_channel := hs_channel s @ [e]\<rparr> else s)"

text \<open>Draining the callbacks calls each once, and drops its sender with it.\<close>

definition run_callbacks :: "host_sys \<Rightarrow> host_sys" where
  "run_callbacks s = (if hs_callback s = Pending then send_event StopEvent (s\<lparr>hs_callback := Called\<rparr>) else s)"

text \<open>No sender is left: the worker's thread is over and the callback is gone.\<close>

definition disconnected :: "host_sys \<Rightarrow> bool" where
  "disconnected s \<longleftrightarrow> hs_worker s = Ended \<and> hs_callback s \<noteq> Pending"

definition final_result :: "host_sys \<Rightarrow> host_result \<Rightarrow> host_result" where
  "final_result s result =
     (case result of
        Inl e \<Rightarrow> Inl e
      | Inr _ \<Rightarrow> (case hs_status_error s of Some e \<Rightarrow> Inl (Worker e) | None \<Rightarrow> Inr ()))"

definition finished_host :: "host_sys \<Rightarrow> host_result \<Rightarrow> host_sys" where
  "finished_host s result =
     s\<lparr>hs_state := state_u8 (case result of Inr _ \<Rightarrow> Stopped | Inl _ \<Rightarrow> Failed), hs_host := Returned result, hs_channel := []\<rparr>"

definition start_host :: "int \<Rightarrow> int \<Rightarrow> host_sys \<Rightarrow> host_sys" where
  "start_host limit timeout s =
     (case start_guard (from_u8 (hs_state s)) of
        Inl e \<Rightarrow> s\<lparr>hs_host := Returned (Inl e)\<rparr>
      | Inr _ \<Rightarrow>
          if timeout = 0 \<or> checked_instant limit (hs_now s) timeout = None
            then s\<lparr>hs_state := state_u8 Failed, hs_host := Returned (Inl InvalidShutdownTimeout)\<rparr>
          else if hs_cancelled s then s\<lparr>hs_state := state_u8 Stopped, hs_host := Returned (Inr ())\<rparr>
          else if hs_worker s \<noteq> Held
            then s\<lparr>hs_state := state_u8 StartPending,
                   hs_host := Returned (Inl (Startup (lit ''service worker unavailable'')))\<rparr>
          else s\<lparr>hs_state := state_u8 StartPending, hs_host := Claimed\<rparr>)"

definition handle_event :: "int \<Rightarrow> int \<Rightarrow> host_event \<Rightarrow> host_sys \<Rightarrow> host_sys" where
  "handle_event limit timeout e s =
     (case e of
        StopEvent \<Rightarrow>
          if hs_deadline s = None
            then s\<lparr>hs_deadline := checked_instant limit (hs_now s) timeout, hs_state := state_u8 StopPending,
                   hs_host := Publishing StopPending\<rparr>
          else s
      | Initialized \<Rightarrow> if hs_cancelled s then s else s\<lparr>hs_host := Reporting\<rparr>
      | Finished result \<Rightarrow> finished_host s (final_result s result))"

definition state_published :: "service_state \<Rightarrow> rust_str + unit \<Rightarrow> host_sys \<Rightarrow> host_sys" where
  "state_published x answer s =
     (let s = s\<lparr>hs_reports := (x, is_ok answer) # hs_reports s, hs_host := Receiving\<rparr> in
      case answer of
        Inr _ \<Rightarrow> s
      | Inl e \<Rightarrow>
          let s = s\<lparr>hs_status_error := Some e\<rparr> in
          if x = Running then s\<lparr>hs_cancelled := True, hs_host := Draining\<rparr> else s)"

section \<open>Transitions\<close>

text \<open>
  Threads that request a stop: \<open>request_stop\<close> exchanges the state and cancels; cancelling sets the flag
  under its lock and then runs the callbacks under theirs.
\<close>

inductive stop_move :: "host_sys \<Rightarrow> host_sys \<Rightarrow> bool" where
  exchange: "stop_move s (s\<lparr>hs_state := (if hs_state s = state_u8 Running then state_u8 StopPending else hs_state s),
      hs_requesters := hs_requesters s + 1\<rparr>)"
| requested: "0 < hs_requesters s \<Longrightarrow>
    stop_move s (s\<lparr>hs_requesters := hs_requesters s - 1, hs_cancelled := True, hs_cancellers := hs_cancellers s + 1\<rparr>)"
| cancel: "stop_move s (s\<lparr>hs_cancelled := True, hs_cancellers := hs_cancellers s + 1\<rparr>)"
| drain: "0 < hs_cancellers s \<Longrightarrow> \<not> hs_locked s \<Longrightarrow>
    stop_move s (run_callbacks (s\<lparr>hs_cancellers := hs_cancellers s - 1\<rparr>))"

text \<open>The hosting thread. It can be asked to run again after it has returned.\<close>

inductive host_move :: "int \<Rightarrow> int \<Rightarrow> host_sys \<Rightarrow> host_sys \<Rightarrow> bool" for limit timeout where
  start: "hs_host s = Idle \<Longrightarrow> host_move limit timeout s (start_host limit timeout s)"
| again: "hs_host s = Returned r \<Longrightarrow> host_move limit timeout s (s\<lparr>hs_host := Idle\<rparr>)"
| lock: "hs_host s = Claimed \<Longrightarrow>
    host_move limit timeout s (s\<lparr>hs_host := Checked (hs_cancelled s), hs_locked := True\<rparr>)"
| late: "hs_host s = Checked True \<Longrightarrow>
    host_move limit timeout s (send_event StopEvent (s\<lparr>hs_host := Registered, hs_locked := False, hs_callback := Called\<rparr>))"
| register: "hs_host s = Checked False \<Longrightarrow>
    host_move limit timeout s (s\<lparr>hs_host := Registered, hs_locked := False, hs_callback := Pending\<rparr>)"
| spawn: "hs_host s = Registered \<Longrightarrow> host_move limit timeout s (s\<lparr>hs_host := Receiving, hs_worker := Spawned\<rparr>)"
| receive: "hs_host s = Receiving \<Longrightarrow> hs_channel s = e # rest \<Longrightarrow> (\<forall>r. e = Finished r \<longrightarrow> hs_worker s = Ended) \<Longrightarrow>
    host_move limit timeout s (handle_event limit timeout e (s\<lparr>hs_channel := rest\<rparr>))"
| report: "hs_host s = Reporting \<Longrightarrow>
    host_move limit timeout s (s\<lparr>hs_state := state_u8 Running, hs_host := Publishing Running\<rparr>)"
| publish: "hs_host s = Publishing x \<Longrightarrow> host_move limit timeout s (state_published x answer s)"
| own_drain: "hs_host s = Draining \<Longrightarrow> host_move limit timeout s (run_callbacks (s\<lparr>hs_host := Receiving\<rparr>))"
| expire: "hs_host s = Receiving \<Longrightarrow> hs_channel s = [] \<Longrightarrow> \<not> disconnected s \<Longrightarrow> hs_deadline s = Some d \<Longrightarrow> d \<le> hs_now s \<Longrightarrow>
    host_move limit timeout s (s\<lparr>hs_host := Exited\<rparr>)"
| hang_up: "hs_host s = Receiving \<Longrightarrow> hs_channel s = [] \<Longrightarrow> disconnected s \<Longrightarrow>
    host_move limit timeout s
      (finished_host s (Inl (Worker (lit ''service worker exited without reporting a result''))))"

text \<open>
  The worker's thread. A panic while it initializes or runs is caught; one while its resources are
  dropped ends the thread before it has sent its result.
\<close>

definition panicked :: host_result where
  "panicked = Inl (Worker (lit ''service worker panicked''))"

inductive worker_move :: "host_sys \<Rightarrow> host_sys \<Rightarrow> bool" where
  begin_work: "hs_worker s = Spawned \<Longrightarrow>
    worker_move s (s\<lparr>hs_worker := (if hs_cancelled s then Dropping (Inr ()) else Initializing)\<rparr>)"
| initialize: "hs_worker s = Initializing \<Longrightarrow>
    worker_move s (s\<lparr>hs_worker := (case (answer :: rust_str + unit) of Inl e \<Rightarrow> Dropping (Inl (Startup e)) | Inr _ \<Rightarrow> InitDone)\<rparr>)"
| check: "hs_worker s = InitDone \<Longrightarrow>
    worker_move s (s\<lparr>hs_worker := (if hs_cancelled s then Dropping (Inr ()) else Announcing)\<rparr>)"
| announce: "hs_worker s = Announcing \<Longrightarrow> worker_move s (send_event Initialized (s\<lparr>hs_worker := Working\<rparr>))"
| work: "hs_worker s = Working \<Longrightarrow>
    worker_move s (s\<lparr>hs_worker := Dropping (case (answer :: rust_str + unit) of Inl e \<Rightarrow> Inl (Worker e) | Inr _ \<Rightarrow> Inr ())\<rparr>)"
| panic: "hs_worker s \<in> {Initializing, Working} \<Longrightarrow> worker_move s (s\<lparr>hs_worker := Dropping panicked\<rparr>)"
| drop_worker: "hs_worker s = Dropping r \<Longrightarrow> worker_move s (s\<lparr>hs_worker := Sending r\<rparr>)"
| drop_panic: "hs_worker s = Dropping r \<Longrightarrow> worker_move s (s\<lparr>hs_worker := Ended\<rparr>)"
| finish: "hs_worker s = Sending r \<Longrightarrow> worker_move s (send_event (Finished r) (s\<lparr>hs_worker := Ended\<rparr>))"

text \<open>One transition of the process, which ends with its hosting thread's exit; time passes on its own.\<close>

inductive sys_move :: "int \<Rightarrow> int \<Rightarrow> host_sys \<Rightarrow> host_sys \<Rightarrow> bool" for limit timeout where
  stopper: "hs_host s \<noteq> Exited \<Longrightarrow> stop_move s s' \<Longrightarrow> sys_move limit timeout s s'"
| host: "hs_host s \<noteq> Exited \<Longrightarrow> host_move limit timeout s s' \<Longrightarrow> sys_move limit timeout s s'"
| worker: "hs_host s \<noteq> Exited \<Longrightarrow> worker_move s s' \<Longrightarrow> sys_move limit timeout s s'"
| tick: "hs_host s \<noteq> Exited \<Longrightarrow> 0 \<le> d \<Longrightarrow> sys_move limit timeout s (s\<lparr>hs_now := hs_now s + d\<rparr>)"

inductive host_reachable :: "int \<Rightarrow> int \<Rightarrow> host_sys \<Rightarrow> bool" for limit timeout where
  initial: "host_reachable limit timeout (initial_host cancelled t)"
| step: "host_reachable limit timeout s \<Longrightarrow> sys_move limit timeout s s' \<Longrightarrow> host_reachable limit timeout s'"

section \<open>The service control manager\<close>

record scm_status =
  scm_current_state :: u32
  scm_controls_accepted :: u32
  scm_exit_code :: u32

fun scm_from_state :: "service_state \<Rightarrow> scm_status" where
  "scm_from_state Created = \<lparr>scm_current_state = 2, scm_controls_accepted = 0, scm_exit_code = 0\<rparr>"
| "scm_from_state StartPending = \<lparr>scm_current_state = 2, scm_controls_accepted = 0, scm_exit_code = 0\<rparr>"
| "scm_from_state Running = \<lparr>scm_current_state = 4, scm_controls_accepted = 5, scm_exit_code = 0\<rparr>"
| "scm_from_state StopPending = \<lparr>scm_current_state = 3, scm_controls_accepted = 0, scm_exit_code = 0\<rparr>"
| "scm_from_state Stopped = \<lparr>scm_current_state = 1, scm_controls_accepted = 0, scm_exit_code = 0\<rparr>"
| "scm_from_state Failed = \<lparr>scm_current_state = 1, scm_controls_accepted = 0, scm_exit_code = 1\<rparr>"

datatype service_event_id =
    StartPendingEvent | RunningEvent | StopRequestedEvent | StoppedEvent | ConfigurationFailedEvent
  | WorkerFailedEvent | UnexpectedExitEvent | StatusPublishFailedEvent | WakeUnavailableEvent | WakeConnectedEvent

datatype service_event_level = Information | Warning | Error

record service_event =
  se_id :: service_event_id
  se_level :: service_event_level
  se_message :: rust_str

definition MAX_EVENT_MESSAGE_CHARS :: nat where
  "MAX_EVENT_MESSAGE_CHARS = 2048"

definition sanitize_message :: "rust_str \<Rightarrow> rust_str" where
  "sanitize_message message =
     map (\<lambda>c. if is_control c then 32 else c) (take MAX_EVENT_MESSAGE_CHARS message)"

definition new_event :: "service_event_id \<Rightarrow> service_event_level \<Rightarrow> rust_str \<Rightarrow> service_event" where
  "new_event i level message = \<lparr>se_id = i, se_level = level, se_message = sanitize_message message\<rparr>"

fun classify_service_exit :: "rust_str + unit \<Rightarrow> bool \<Rightarrow> service_state \<times> service_event" where
  "classify_service_exit (Inr _) True =
     (Stopped, new_event StoppedEvent Information (lit ''service stopped after cancellation''))"
| "classify_service_exit (Inr _) False =
     (Failed, new_event UnexpectedExitEvent Error (lit ''service worker exited without a stop request''))"
| "classify_service_exit (Inl e) _ = (Failed, new_event WorkerFailedEvent Error e)"

text \<open>What \<open>service_main\<close> reports last, from the host's result and the stop flag it reads after it.\<close>

definition final_report :: "host_result \<Rightarrow> bool \<Rightarrow> scm_status \<times> service_event" where
  "final_report result stop_requested =
     (let (x, event) = classify_service_exit
        (map_err (\<lambda>e. lit ''runtime wiring / service host execution: '' @ display_service_host_error e) result) stop_requested
      in (scm_from_state x, event))"

end
