(* ===== verification/Service_Lifecycle.thy ===== *)
theory Service_Lifecycle
  imports Service_Host
begin

text \<open>
  The lifecycle of the service over every interleaving of its threads. One invariant relates the hosting
  thread's phase to the worker, the channel, the callback and the reports; each transition keeps it.
\<close>

section \<open>The invariant\<close>

definition handled :: "host_sys \<Rightarrow> bool" where
  "handled s \<longleftrightarrow> StopPending \<in> fst ` set (hs_reports s) \<or> hs_host s = Publishing StopPending"

definition announced :: "host_sys \<Rightarrow> bool" where
  "announced s \<longleftrightarrow> Running \<in> fst ` set (hs_reports s) \<or> hs_host s \<in> {Reporting, Publishing Running}"

text \<open>The hosting thread between the spawn of the worker and its return.\<close>

fun hosting :: "host_phase \<Rightarrow> bool" where
  "hosting Receiving = True"
| "hosting Reporting = True"
| "hosting (Publishing x) = True"
| "hosting Draining = True"
| "hosting _ = False"

fun starting :: "host_phase \<Rightarrow> bool" where
  "starting Claimed = True"
| "starting (Checked b) = True"
| "starting Registered = True"
| "starting _ = False"

fun unannounced :: "worker_phase \<Rightarrow> bool" where
  "unannounced Held = True"
| "unannounced Spawned = True"
| "unannounced Initializing = True"
| "unannounced InitDone = True"
| "unannounced Announcing = True"
| "unannounced _ = False"

definition stop_inv :: "host_sys \<Rightarrow> bool" where
  "stop_inv s \<longleftrightarrow>
     (0 < hs_cancellers s \<longrightarrow> hs_cancelled s)
     \<and> (hs_callback s = Called \<longrightarrow> hs_cancelled s)
     \<and> (hs_locked s \<longleftrightarrow> (\<exists>b. hs_host s = Checked b))
     \<and> (hs_host s = Checked True \<longrightarrow> hs_cancelled s)
     \<and> (hs_host s = Draining \<longrightarrow> hs_cancelled s)
     \<and> (hs_host s = Checked False \<and> hs_cancelled s \<longrightarrow> 0 < hs_cancellers s)
     \<and> (hs_callback s = Pending \<and> hs_cancelled s \<longrightarrow> 0 < hs_cancellers s \<or> hs_host s = Draining)"

definition phase_inv :: "host_sys \<Rightarrow> bool" where
  "phase_inv s \<longleftrightarrow>
     (\<not> receiving (hs_host s) \<and> hs_host s \<noteq> Exited \<longrightarrow> hs_channel s = [] \<and> hs_worker s \<in> {Held, Ended})
     \<and> (hs_state s = state_u8 Created \<longrightarrow> hs_host s = Idle)
     \<and> (hs_host s = Idle \<and> hs_state s = state_u8 Created \<longrightarrow>
          hs_worker s = Held \<and> hs_callback s = Absent \<and> hs_deadline s = None \<and> hs_status_error s = None \<and> hs_reports s = [])
     \<and> (hs_host s = Idle \<longrightarrow> hs_state s \<in> state_u8 ` {Created, Stopped, Failed})
     \<and> (\<forall>r. hs_host s = Returned r \<longrightarrow>
          hs_state s = state_u8 Failed \<and> r \<noteq> Inr () \<or> hs_state s = state_u8 Stopped \<and> r \<in> {Inr (), Inl AlreadyStopped})
     \<and> (starting (hs_host s) \<longrightarrow> hs_state s = state_u8 StartPending \<and> hs_worker s = Held \<and> hs_deadline s = None
          \<and> hs_status_error s = None \<and> hs_reports s = [] \<and> Initialized \<notin> set (hs_channel s))
     \<and> (hs_host s \<in> {Claimed, Checked True, Checked False} \<longrightarrow> hs_callback s = Absent \<and> hs_channel s = [])
     \<and> (hs_host s = Registered \<or> hosting (hs_host s) \<longrightarrow> hs_callback s \<noteq> Absent)
     \<and> (hosting (hs_host s) \<longrightarrow> hs_worker s \<noteq> Held)
     \<and> (\<forall>x. hs_host s = Publishing x \<longrightarrow> x \<in> {Running, StopPending})
     \<and> (\<forall>r. Finished r \<in> set (hs_channel s) \<longrightarrow> hs_worker s = Ended)"

definition count_inv :: "host_sys \<Rightarrow> bool" where
  "count_inv s \<longleftrightarrow>
     (receiving (hs_host s) \<longrightarrow>
        count_list (hs_channel s) StopEvent + (if handled s then 1 else 0) = (if hs_callback s = Called then 1 else 0))
     \<and> (handled s \<longrightarrow> hs_callback s = Called)
     \<and> count_list (hs_channel s) Initialized + (if announced s then 1 else 0) \<le> (1::nat)
     \<and> (unannounced (hs_worker s) \<longrightarrow> count_list (hs_channel s) Initialized = 0 \<and> \<not> announced s)"

definition order_inv :: "host_sys \<Rightarrow> bool" where
  "order_inv s \<longleftrightarrow>
     (hs_host s \<in> {Reporting, Publishing Running} \<longrightarrow> hs_reports s = [])
     \<and> (hs_host s = Publishing StopPending \<longrightarrow> map fst (hs_reports s) \<in> {[], [Running]})
     \<and> map fst (hs_reports s) \<in> {[], [Running], [StopPending], [StopPending, Running]}"

definition time_inv :: "int \<Rightarrow> int \<Rightarrow> host_sys \<Rightarrow> bool" where
  "time_inv limit timeout s \<longleftrightarrow>
     (hs_deadline s \<noteq> None \<longrightarrow> handled s)
     \<and> (handled s \<and> hs_deadline s = None \<longrightarrow> limit < hs_now s + timeout)
     \<and> (\<forall>d. hs_deadline s = Some d \<longrightarrow> d \<le> hs_now s + timeout)
     \<and> (hs_host s = Exited \<longrightarrow> hs_cancelled s \<and> hs_worker s \<notin> {Held, Ended} \<and> (\<exists>d. hs_deadline s = Some d \<and> d \<le> hs_now s))"

definition host_inv :: "int \<Rightarrow> int \<Rightarrow> host_sys \<Rightarrow> bool" where
  "host_inv limit timeout s \<longleftrightarrow> stop_inv s \<and> phase_inv s \<and> count_inv s \<and> order_inv s \<and> time_inv limit timeout s"

lemma state_u8_inject [simp]: "state_u8 x = state_u8 y \<longleftrightarrow> x = y"
  by (metis from_state_u8)

declare state_u8.simps [simp del]

text \<open>What each part does not depend on.\<close>

lemma handled_frame [simp]:
  "handled (s\<lparr>hs_state := a\<rparr>) = handled s" "handled (s\<lparr>hs_cancelled := b\<rparr>) = handled s"
  "handled (s\<lparr>hs_callback := c\<rparr>) = handled s" "handled (s\<lparr>hs_locked := b\<rparr>) = handled s"
  "handled (s\<lparr>hs_requesters := n\<rparr>) = handled s" "handled (s\<lparr>hs_cancellers := n\<rparr>) = handled s"
  "handled (s\<lparr>hs_channel := ch\<rparr>) = handled s" "handled (s\<lparr>hs_worker := w\<rparr>) = handled s"
  "handled (s\<lparr>hs_deadline := d\<rparr>) = handled s" "handled (s\<lparr>hs_status_error := e\<rparr>) = handled s"
  "handled (s\<lparr>hs_now := t\<rparr>) = handled s"
  by (simp_all add: handled_def)

lemma announced_frame [simp]:
  "announced (s\<lparr>hs_state := a\<rparr>) = announced s" "announced (s\<lparr>hs_cancelled := b\<rparr>) = announced s"
  "announced (s\<lparr>hs_callback := c\<rparr>) = announced s" "announced (s\<lparr>hs_locked := b\<rparr>) = announced s"
  "announced (s\<lparr>hs_requesters := n\<rparr>) = announced s" "announced (s\<lparr>hs_cancellers := n\<rparr>) = announced s"
  "announced (s\<lparr>hs_channel := ch\<rparr>) = announced s" "announced (s\<lparr>hs_worker := w\<rparr>) = announced s"
  "announced (s\<lparr>hs_deadline := d\<rparr>) = announced s" "announced (s\<lparr>hs_status_error := e\<rparr>) = announced s"
  "announced (s\<lparr>hs_now := t\<rparr>) = announced s"
  by (simp_all add: announced_def)

lemma stop_inv_frame [simp]:
  "stop_inv (s\<lparr>hs_state := a\<rparr>) = stop_inv s" "stop_inv (s\<lparr>hs_requesters := n\<rparr>) = stop_inv s"
  "stop_inv (s\<lparr>hs_channel := ch\<rparr>) = stop_inv s" "stop_inv (s\<lparr>hs_worker := w\<rparr>) = stop_inv s"
  "stop_inv (s\<lparr>hs_deadline := d\<rparr>) = stop_inv s" "stop_inv (s\<lparr>hs_status_error := e\<rparr>) = stop_inv s"
  "stop_inv (s\<lparr>hs_reports := r\<rparr>) = stop_inv s" "stop_inv (s\<lparr>hs_now := t\<rparr>) = stop_inv s"
  by (simp_all add: stop_inv_def)

lemma phase_inv_frame [simp]:
  "phase_inv (s\<lparr>hs_cancelled := b\<rparr>) = phase_inv s" "phase_inv (s\<lparr>hs_locked := b\<rparr>) = phase_inv s"
  "phase_inv (s\<lparr>hs_requesters := n\<rparr>) = phase_inv s" "phase_inv (s\<lparr>hs_cancellers := n\<rparr>) = phase_inv s"
  "phase_inv (s\<lparr>hs_now := t\<rparr>) = phase_inv s"
  by (simp_all add: phase_inv_def)

lemma count_inv_frame [simp]:
  "count_inv (s\<lparr>hs_state := a\<rparr>) = count_inv s" "count_inv (s\<lparr>hs_cancelled := b\<rparr>) = count_inv s"
  "count_inv (s\<lparr>hs_locked := b\<rparr>) = count_inv s" "count_inv (s\<lparr>hs_requesters := n\<rparr>) = count_inv s"
  "count_inv (s\<lparr>hs_cancellers := n\<rparr>) = count_inv s" "count_inv (s\<lparr>hs_deadline := d\<rparr>) = count_inv s"
  "count_inv (s\<lparr>hs_status_error := e\<rparr>) = count_inv s" "count_inv (s\<lparr>hs_now := t\<rparr>) = count_inv s"
  by (simp_all add: count_inv_def)

lemma order_inv_frame [simp]:
  "order_inv (s\<lparr>hs_state := a\<rparr>) = order_inv s" "order_inv (s\<lparr>hs_cancelled := b\<rparr>) = order_inv s"
  "order_inv (s\<lparr>hs_callback := c\<rparr>) = order_inv s" "order_inv (s\<lparr>hs_locked := b\<rparr>) = order_inv s"
  "order_inv (s\<lparr>hs_requesters := n\<rparr>) = order_inv s" "order_inv (s\<lparr>hs_cancellers := n\<rparr>) = order_inv s"
  "order_inv (s\<lparr>hs_channel := ch\<rparr>) = order_inv s" "order_inv (s\<lparr>hs_worker := w\<rparr>) = order_inv s"
  "order_inv (s\<lparr>hs_deadline := d\<rparr>) = order_inv s" "order_inv (s\<lparr>hs_status_error := e\<rparr>) = order_inv s"
  "order_inv (s\<lparr>hs_now := t\<rparr>) = order_inv s"
  by (simp_all add: order_inv_def)

lemma time_inv_frame [simp]:
  "time_inv limit timeout (s\<lparr>hs_state := a\<rparr>) = time_inv limit timeout s"
  "time_inv limit timeout (s\<lparr>hs_callback := c\<rparr>) = time_inv limit timeout s"
  "time_inv limit timeout (s\<lparr>hs_locked := b\<rparr>) = time_inv limit timeout s"
  "time_inv limit timeout (s\<lparr>hs_requesters := n\<rparr>) = time_inv limit timeout s"
  "time_inv limit timeout (s\<lparr>hs_cancellers := n\<rparr>) = time_inv limit timeout s"
  "time_inv limit timeout (s\<lparr>hs_channel := ch\<rparr>) = time_inv limit timeout s"
  "time_inv limit timeout (s\<lparr>hs_status_error := e\<rparr>) = time_inv limit timeout s"
  by (simp_all add: time_inv_def)

lemma initial_inv: "host_inv limit timeout (initial_host cancelled t)"
  by (simp add: host_inv_def initial_host_def stop_inv_def phase_inv_def count_inv_def order_inv_def time_inv_def
      handled_def announced_def)

lemma tick_inv: "host_inv limit timeout s \<Longrightarrow> 0 \<le> d \<Longrightarrow> host_inv limit timeout (s\<lparr>hs_now := hs_now s + d\<rparr>)"
  by (force simp: host_inv_def time_inv_def)

section \<open>Requests to stop\<close>

lemma time_cancelled: "time_inv limit timeout s \<Longrightarrow> time_inv limit timeout (s\<lparr>hs_cancelled := True\<rparr>)"
  by (simp add: time_inv_def)

lemma stop_cancelled: "stop_inv s \<Longrightarrow> stop_inv (s\<lparr>hs_cancelled := True, hs_cancellers := Suc n\<rparr>)"
  by (simp add: stop_inv_def)

lemma phase_exchanged:
  "phase_inv s \<Longrightarrow> hs_state s = state_u8 Running \<Longrightarrow> phase_inv (s\<lparr>hs_state := state_u8 StopPending\<rparr>)"
  by (auto simp: phase_inv_def)

lemma callbacks_phase: "phase_inv s \<Longrightarrow> phase_inv (run_callbacks s)"
  by (cases "hs_host s") (auto simp: run_callbacks_def send_event_def phase_inv_def)

lemma callbacks_count: "count_inv s \<Longrightarrow> count_inv (run_callbacks s)"
  by (auto simp: run_callbacks_def send_event_def count_inv_def)

lemma callbacks_order: "order_inv s \<Longrightarrow> order_inv (run_callbacks s)"
  by (simp add: run_callbacks_def send_event_def)

lemma callbacks_time: "time_inv limit timeout s \<Longrightarrow> time_inv limit timeout (run_callbacks s)"
  by (simp add: run_callbacks_def send_event_def)

lemma drained_stop:
  "stop_inv s \<Longrightarrow> 0 < hs_cancellers s \<Longrightarrow> \<not> hs_locked s \<Longrightarrow> stop_inv (run_callbacks (s\<lparr>hs_cancellers := hs_cancellers s - 1\<rparr>))"
  by (auto simp: run_callbacks_def send_event_def stop_inv_def)

lemma stop_move_inv: "stop_move s s' \<Longrightarrow> host_inv limit timeout s \<Longrightarrow> host_inv limit timeout s'"
proof (induction rule: stop_move.induct)
  case (drain s)
  then show ?case
    unfolding host_inv_def
    by (simp add: drained_stop [simplified] callbacks_phase callbacks_count callbacks_order callbacks_time)
qed (auto simp: host_inv_def time_cancelled stop_cancelled phase_exchanged)

section \<open>The worker's thread\<close>

text \<open>A step of the worker that sends nothing keeps it from its end and from the state before the spawn.\<close>

lemma worker_phase:
  "phase_inv s \<Longrightarrow> hs_worker s \<notin> {Held, Ended} \<Longrightarrow> w \<noteq> Held \<Longrightarrow> phase_inv (s\<lparr>hs_worker := w\<rparr>)"
  by (cases "hs_host s") (auto simp: phase_inv_def)

lemma worker_count:
  "count_inv s \<Longrightarrow> unannounced w \<longrightarrow> unannounced (hs_worker s) \<Longrightarrow> count_inv (s\<lparr>hs_worker := w\<rparr>)"
  by (simp add: count_inv_def)

lemma worker_time: "time_inv limit timeout s \<Longrightarrow> hs_host s \<noteq> Exited \<Longrightarrow> time_inv limit timeout (s\<lparr>hs_worker := w\<rparr>)"
  by (simp add: time_inv_def)

lemma worker_inv:
  "host_inv limit timeout s \<Longrightarrow> hs_host s \<noteq> Exited \<Longrightarrow> hs_worker s \<notin> {Held, Ended} \<Longrightarrow> w \<noteq> Held \<Longrightarrow>
     unannounced w \<longrightarrow> unannounced (hs_worker s) \<Longrightarrow> host_inv limit timeout (s\<lparr>hs_worker := w\<rparr>)"
  by (simp add: host_inv_def worker_phase worker_count worker_time)

lemma working_hosting:
  "host_inv limit timeout s \<Longrightarrow> hs_host s \<noteq> Exited \<Longrightarrow> hs_worker s \<notin> {Held, Ended} \<Longrightarrow> hosting (hs_host s)"
  by (cases "hs_host s") (auto simp: host_inv_def phase_inv_def)

lemma sent_inv:
  assumes "host_inv limit timeout s" and "hosting (hs_host s)" and "e \<noteq> StopEvent"
    and "\<And>r. e = Finished r \<Longrightarrow> hs_worker s = Ended"
    and "e = Initialized \<Longrightarrow> \<not> unannounced (hs_worker s) \<and> count_list (hs_channel s) Initialized = 0 \<and> \<not> announced s"
  shows "host_inv limit timeout (send_event e s)"
proof -
  have "receiving (hs_host s)" using assms(2) by (cases "hs_host s") simp_all
  then show ?thesis
    using assms by (auto simp: host_inv_def send_event_def phase_inv_def count_inv_def)
qed

lemma worker_move_inv: "worker_move s s' \<Longrightarrow> hs_host s \<noteq> Exited \<Longrightarrow> host_inv limit timeout s \<Longrightarrow> host_inv limit timeout s'"
proof (induction rule: worker_move.induct)
  case (announce s)
  have none: "count_list (hs_channel s) Initialized = 0" "\<not> announced s"
    using announce by (auto simp: host_inv_def count_inv_def)
  have "host_inv limit timeout (s\<lparr>hs_worker := Working\<rparr>)" using announce by (simp add: worker_inv)
  then show ?case using working_hosting [OF announce(3,2)] announce(1) none by (intro sent_inv) simp_all
next
  case (finish s r)
  have "host_inv limit timeout (s\<lparr>hs_worker := Ended\<rparr>)" using finish by (simp add: worker_inv)
  then show ?case using working_hosting [OF finish(3,2)] finish(1) by (intro sent_inv) simp_all
next
  case (begin_work s)
  then show ?case by (intro worker_inv) (simp_all split: if_split)
next
  case (initialize s answer)
  then show ?case by (intro worker_inv) (simp_all split: sum.split)
next
  case (check s)
  then show ?case by (intro worker_inv) (simp_all split: if_split)
next
  case (work s answer)
  then show ?case by (intro worker_inv) simp_all
next
  case (panic s)
  then show ?case by (intro worker_inv) auto
next
  case (drop_worker s r)
  then show ?case by (intro worker_inv) simp_all
next
  case (drop_panic s r)
  then show ?case by (intro worker_inv) simp_all
qed

section \<open>The hosting thread\<close>

lemmas inv_parts = stop_inv_def phase_inv_def count_inv_def order_inv_def time_inv_def handled_def announced_def

lemma host_invI:
  "stop_inv s \<Longrightarrow> phase_inv s \<Longrightarrow> count_inv s \<Longrightarrow> order_inv s \<Longrightarrow> time_inv limit timeout s \<Longrightarrow> host_inv limit timeout s"
  by (simp add: host_inv_def)

lemma host_invD:
  "host_inv limit timeout s \<Longrightarrow> stop_inv s" "host_inv limit timeout s \<Longrightarrow> phase_inv s" "host_inv limit timeout s \<Longrightarrow> count_inv s"
  "host_inv limit timeout s \<Longrightarrow> order_inv s" "host_inv limit timeout s \<Longrightarrow> time_inv limit timeout s"
  by (simp_all add: host_inv_def)

lemma lock_inv:
  assumes "host_inv limit timeout s" and "hs_host s = Claimed"
  shows "host_inv limit timeout (s\<lparr>hs_host := Checked (hs_cancelled s), hs_locked := True\<rparr>)"
  using host_invD [OF assms(1)] assms(2) by (cases "hs_cancelled s"; intro host_invI) (auto simp: inv_parts)

lemma late_inv:
  assumes "host_inv limit timeout s" and "hs_host s = Checked True"
  shows "host_inv limit timeout (send_event StopEvent (s\<lparr>hs_host := Registered, hs_locked := False, hs_callback := Called\<rparr>))"
  using host_invD [OF assms(1)] assms(2) by (intro host_invI) (auto simp: inv_parts send_event_def)

lemma register_inv:
  assumes "host_inv limit timeout s" and "hs_host s = Checked False"
  shows "host_inv limit timeout (s\<lparr>hs_host := Registered, hs_locked := False, hs_callback := Pending\<rparr>)"
  using host_invD [OF assms(1)] assms(2) by (intro host_invI) (auto simp: inv_parts)

lemma spawn_inv:
  assumes "host_inv limit timeout s" and "hs_host s = Registered"
  shows "host_inv limit timeout (s\<lparr>hs_host := Receiving, hs_worker := Spawned\<rparr>)"
  using host_invD [OF assms(1)] assms(2) by (intro host_invI) (auto simp: inv_parts)

lemma report_inv:
  assumes "host_inv limit timeout s" and "hs_host s = Reporting"
  shows "host_inv limit timeout (s\<lparr>hs_state := state_u8 Running, hs_host := Publishing Running\<rparr>)"
  using host_invD [OF assms(1)] assms(2) by (intro host_invI) (auto simp: inv_parts)

lemma again_inv:
  assumes "host_inv limit timeout s" and "hs_host s = Returned r"
  shows "host_inv limit timeout (s\<lparr>hs_host := Idle\<rparr>)"
  using host_invD [OF assms(1)] assms(2) by (intro host_invI) (auto simp: inv_parts)

lemma own_drain_inv:
  assumes "host_inv limit timeout s" and "hs_host s = Draining"
  shows "host_inv limit timeout (run_callbacks (s\<lparr>hs_host := Receiving\<rparr>))"
proof -
  have "phase_inv (s\<lparr>hs_host := Receiving\<rparr>)" "count_inv (s\<lparr>hs_host := Receiving\<rparr>)" "order_inv (s\<lparr>hs_host := Receiving\<rparr>)"
      "time_inv limit timeout (s\<lparr>hs_host := Receiving\<rparr>)"
    using host_invD [OF assms(1)] assms(2) by (auto simp: inv_parts)
  moreover have "stop_inv (run_callbacks (s\<lparr>hs_host := Receiving\<rparr>))"
    using host_invD(1) [OF assms(1)] assms(2) by (auto simp: stop_inv_def run_callbacks_def send_event_def)
  ultimately show ?thesis by (intro host_invI callbacks_phase callbacks_count callbacks_order callbacks_time)
qed

lemma expire_inv:
  assumes "host_inv limit timeout s" and "hs_host s = Receiving" and "\<not> disconnected s"
    and "hs_deadline s = Some d" and "d \<le> hs_now s"
  shows "host_inv limit timeout (s\<lparr>hs_host := Exited\<rparr>)"
proof (rule host_invI)
  let ?s = "s\<lparr>hs_host := Exited\<rparr>"
  note i = host_invD [OF assms(1)]
  have seen: "handled ?s = handled s" "announced ?s = announced s"
    using assms(2) by (simp_all add: handled_def announced_def)
  have "hs_callback s = Called" using i(3,5) assms(4) by (simp add: count_inv_def time_inv_def)
  then have called: "hs_cancelled s" "hs_worker s \<notin> {Held, Ended}"
    using i(1,2) assms(2,3) by (auto simp: stop_inv_def phase_inv_def disconnected_def)
  show "stop_inv ?s" using i(1) assms(2) by (auto simp: stop_inv_def)
  show "phase_inv ?s" using i(2) assms(2) by (simp add: phase_inv_def)
  show "count_inv ?s" using i(3) by (simp add: count_inv_def seen)
  show "order_inv ?s" using i(4) by (simp add: order_inv_def)
  show "time_inv limit timeout ?s" using i(5) assms(4,5) called by (simp add: time_inv_def seen)
qed

lemma finished_inv:
  assumes "host_inv limit timeout s" and "hs_host s = Receiving" and "hs_worker s = Ended" and "r \<noteq> Inl AlreadyStopped"
  shows "host_inv limit timeout (finished_host s r)"
proof (rule host_invI)
  let ?s = "finished_host s r"
  note i = host_invD [OF assms(1)]
  have parts: "hs_cancelled ?s = hs_cancelled s" "hs_callback ?s = hs_callback s" "hs_locked ?s = hs_locked s"
      "hs_cancellers ?s = hs_cancellers s" "hs_channel ?s = []" "hs_worker ?s = Ended" "hs_host ?s = Returned r"
      "hs_deadline ?s = hs_deadline s" "hs_reports ?s = hs_reports s" "hs_now ?s = hs_now s"
      "hs_state ?s = state_u8 (case r of Inr _ \<Rightarrow> Stopped | Inl _ \<Rightarrow> Failed)"
    by (simp_all add: finished_host_def assms(3))
  have seen: "handled ?s = handled s" "announced ?s = announced s"
    using assms(2) by (simp_all add: handled_def announced_def parts)
  show "stop_inv ?s" using i(1) assms(2) by (auto simp: stop_inv_def parts)
  show "phase_inv ?s" unfolding phase_inv_def parts using assms(4) by (auto split: sum.split)
  show "count_inv ?s" using i(3) by (simp add: count_inv_def parts seen)
  show "order_inv ?s" using i(4) assms(2) by (simp add: order_inv_def parts)
  show "time_inv limit timeout ?s" using i(5) by (simp add: time_inv_def parts seen)
qed

lemma accepted_inv:
  assumes "host_inv limit timeout s" and "hs_host s = Publishing x"
  shows "host_inv limit timeout (s\<lparr>hs_reports := (x, b) # hs_reports s, hs_host := Receiving\<rparr>)"
proof (rule host_invI)
  let ?s = "s\<lparr>hs_reports := (x, b) # hs_reports s, hs_host := Receiving\<rparr>"
  note i = host_invD [OF assms(1)]
  have x: "x \<in> {Running, StopPending}" using i(2) assms(2) by (auto simp: phase_inv_def)
  have seen: "handled ?s = handled s" "announced ?s = announced s"
    using assms(2) by (auto simp: handled_def announced_def)
  show "stop_inv ?s" using i(1) assms(2) by (auto simp: stop_inv_def)
  show "phase_inv ?s" using i(2) assms(2) by (simp add: phase_inv_def)
  show "count_inv ?s" using i(3) assms(2) by (simp add: count_inv_def seen)
  show "order_inv ?s" using i(4) assms(2) x by (auto simp: order_inv_def)
  show "time_inv limit timeout ?s" using i(5) assms(2) by (simp add: time_inv_def seen)
qed

lemma status_error_inv: "host_inv limit timeout s \<Longrightarrow> hs_host s = Receiving \<Longrightarrow> host_inv limit timeout (s\<lparr>hs_status_error := e\<rparr>)"
  by (simp add: host_inv_def phase_inv_def)

lemma refused_inv:
  assumes "host_inv limit timeout s" and "hs_host s = Receiving"
  shows "host_inv limit timeout (s\<lparr>hs_cancelled := True, hs_host := Draining\<rparr>)"
proof (rule host_invI)
  let ?s = "s\<lparr>hs_cancelled := True, hs_host := Draining\<rparr>"
  note i = host_invD [OF assms(1)]
  have seen: "handled ?s = handled s" "announced ?s = announced s"
    using assms(2) by (simp_all add: handled_def announced_def)
  show "stop_inv ?s" using i(1) assms(2) by (auto simp: stop_inv_def)
  show "phase_inv ?s" using i(2) assms(2) by (simp add: phase_inv_def)
  show "count_inv ?s" using i(3) assms(2) by (simp add: count_inv_def seen)
  show "order_inv ?s" using i(4) assms(2) by (simp add: order_inv_def)
  show "time_inv limit timeout ?s" using i(5) assms(2) by (simp add: time_inv_def seen)
qed

lemma published_inv:
  assumes "host_inv limit timeout s" and "hs_host s = Publishing x"
  shows "host_inv limit timeout (state_published x answer s)"
proof (cases answer)
  case (Inl e)
  have "host_inv limit timeout (s\<lparr>hs_reports := (x, False) # hs_reports s, hs_host := Receiving, hs_status_error := Some e\<rparr>)"
    using status_error_inv [OF accepted_inv [OF assms]] by simp
  from refused_inv [OF this] this show ?thesis by (cases "x = Running") (simp_all add: Inl state_published_def Let_def)
next
  case (Inr u)
  then show ?thesis using accepted_inv [OF assms, of True] by (simp add: state_published_def)
qed

lemma returned_inv:
  assumes "host_inv limit timeout s" and "hs_host s = Idle" and "x \<in> {Stopped, Failed}"
    and "x = Failed \<and> r \<noteq> Inr () \<or> x = Stopped \<and> r \<in> {Inr (), Inl AlreadyStopped}"
  shows "host_inv limit timeout (s\<lparr>hs_state := state_u8 x, hs_host := Returned r\<rparr>)"
proof (rule host_invI)
  let ?s = "s\<lparr>hs_state := state_u8 x, hs_host := Returned r\<rparr>"
  note i = host_invD [OF assms(1)]
  have seen: "handled ?s = handled s" "announced ?s = announced s"
    using assms(2) by (simp_all add: handled_def announced_def)
  show "stop_inv ?s" using i(1) assms(2) by (auto simp: stop_inv_def)
  show "phase_inv ?s" using i(2) assms(2-4) by (auto simp: phase_inv_def)
  show "count_inv ?s" using i(3) by (simp add: count_inv_def seen)
  show "order_inv ?s" using i(4) assms(2) by (simp add: order_inv_def)
  show "time_inv limit timeout ?s" using i(5) by (simp add: time_inv_def seen)
qed

lemma claimed_inv:
  assumes "host_inv limit timeout s" and "hs_host s = Idle" and "hs_state s = state_u8 Created"
  shows "host_inv limit timeout (s\<lparr>hs_state := state_u8 StartPending, hs_host := Claimed\<rparr>)"
proof (rule host_invI)
  let ?s = "s\<lparr>hs_state := state_u8 StartPending, hs_host := Claimed\<rparr>"
  note i = host_invD [OF assms(1)]
  have fresh: "hs_worker s = Held" "hs_callback s = Absent" "hs_deadline s = None" "hs_status_error s = None"
      "hs_reports s = []" "hs_channel s = []"
    using i(2) assms(2,3) by (simp_all add: phase_inv_def)
  show "stop_inv ?s" using i(1) assms(2) by (auto simp: stop_inv_def)
  show "phase_inv ?s" by (simp add: phase_inv_def fresh)
  show "count_inv ?s" by (simp add: count_inv_def fresh handled_def announced_def)
  show "order_inv ?s" by (simp add: order_inv_def fresh)
  show "time_inv limit timeout ?s" by (simp add: time_inv_def fresh handled_def)
qed

lemma idle_state:
  assumes "host_inv limit timeout s" and "hs_host s = Idle"
  obtains "hs_state s = state_u8 Created" "hs_worker s = Held" | "hs_state s = state_u8 Stopped" | "hs_state s = state_u8 Failed"
  using host_invD(2) [OF assms(1)] assms(2) by (auto simp: phase_inv_def)

lemma start_inv:
  assumes "host_inv limit timeout s" and "hs_host s = Idle"
  shows "host_inv limit timeout (start_host limit timeout s)"
  using assms
proof (cases rule: idle_state)
  case 1
  then show ?thesis using assms by (simp add: start_host_def returned_inv claimed_inv)
next
  case 2
  have same: "s\<lparr>hs_state := state_u8 Stopped, hs_host := Returned (Inl AlreadyStopped)\<rparr> = s\<lparr>hs_host := Returned (Inl AlreadyStopped)\<rparr>"
    using 2 by (cases s) simp
  have "host_inv limit timeout (s\<lparr>hs_host := Returned (Inl AlreadyStopped)\<rparr>)"
    unfolding same [symmetric] by (rule returned_inv [OF assms]) simp_all
  then show ?thesis using 2 by (simp add: start_host_def)
next
  case 3
  have same: "s\<lparr>hs_state := state_u8 Failed, hs_host := Returned (Inl AlreadyStopped)\<rparr> = s\<lparr>hs_host := Returned (Inl AlreadyStopped)\<rparr>"
    using 3 by (cases s) simp
  have "host_inv limit timeout (s\<lparr>hs_host := Returned (Inl AlreadyStopped)\<rparr>)"
    unfolding same [symmetric] by (rule returned_inv [OF assms]) simp_all
  then show ?thesis using 3 by (simp add: start_host_def)
qed

lemma handle_stop_inv:
  assumes "host_inv limit timeout s" and "hs_host s = Receiving" and "hs_channel s = StopEvent # rest"
  shows "host_inv limit timeout (handle_event limit timeout StopEvent (s\<lparr>hs_channel := rest\<rparr>))"
proof -
  note i = host_invD [OF assms(1)]
  have new: "\<not> handled s" "hs_callback s = Called" "count_list rest StopEvent = 0"
    using i(3) assms(2,3) by (auto simp: count_inv_def split: if_splits)
  then have none: "hs_deadline s = None" using i(5) by (auto simp: time_inv_def)
  let ?s = "s\<lparr>hs_channel := rest, hs_deadline := checked_instant limit (hs_now s) timeout, hs_state := state_u8 StopPending,
              hs_host := Publishing StopPending\<rparr>"
  have seen: "handled ?s" "announced ?s = announced s"
    using assms(2) by (auto simp: handled_def announced_def)
  have "host_inv limit timeout ?s"
  proof (rule host_invI)
    show "stop_inv ?s" using i(1) assms(2) by (auto simp: stop_inv_def)
    show "phase_inv ?s" using i(2) assms(2,3) by (auto simp: phase_inv_def)
    show "count_inv ?s" using i(3) assms(2,3) new by (auto simp: count_inv_def seen)
    show "order_inv ?s" using i(4) assms(2) new(1) by (auto simp: order_inv_def handled_def)
    show "time_inv limit timeout ?s" by (simp add: time_inv_def handled_def checked_instant_def)
  qed
  then show ?thesis by (simp add: handle_event_def none)
qed

lemma handle_initialized_inv:
  assumes "host_inv limit timeout s" and "hs_host s = Receiving" and "hs_channel s = Initialized # rest"
  shows "host_inv limit timeout (handle_event limit timeout Initialized (s\<lparr>hs_channel := rest\<rparr>))"
proof -
  note i = host_invD [OF assms(1)]
  have new: "\<not> announced s" "count_list rest Initialized = 0" "\<not> unannounced (hs_worker s)"
    using i(3) assms(3) by (auto simp: count_inv_def split: if_splits)
  show ?thesis
  proof (cases "hs_cancelled s")
    case True
    have "host_inv limit timeout (s\<lparr>hs_channel := rest\<rparr>)"
      using i assms(2,3) by (intro host_invI) (auto simp: phase_inv_def count_inv_def)
    then show ?thesis by (simp add: handle_event_def True)
  next
    case False
    let ?s = "s\<lparr>hs_channel := rest, hs_host := Reporting\<rparr>"
    have "hs_callback s \<noteq> Called" using i(1) False by (simp add: stop_inv_def)
    then have unhandled: "\<not> handled s" using i(3) by (simp add: count_inv_def)
    have reports: "hs_reports s = []"
      using i(4) unhandled new(1) by (auto simp: order_inv_def handled_def announced_def)
    have seen: "handled ?s = handled s" "announced ?s"
      using assms(2) by (simp_all add: handled_def announced_def)
    have "host_inv limit timeout ?s"
    proof (rule host_invI)
      show "stop_inv ?s" using i(1) assms(2) by (auto simp: stop_inv_def)
      show "phase_inv ?s" using i(2) assms(2,3) by (simp add: phase_inv_def)
      show "count_inv ?s" using i(3) assms(2,3) new by (auto simp: count_inv_def seen)
      show "order_inv ?s" by (simp add: order_inv_def reports)
      show "time_inv limit timeout ?s" using i(5) assms(2) by (simp add: time_inv_def seen)
    qed
    then show ?thesis by (simp add: handle_event_def False)
  qed
qed

lemma popped_finish_inv:
  "host_inv limit timeout s \<Longrightarrow> hs_channel s = Finished r # rest \<Longrightarrow> host_inv limit timeout (s\<lparr>hs_channel := rest\<rparr>)"
  by (auto simp: host_inv_def phase_inv_def count_inv_def)

text \<open>The result of the worker is its own: it never says that the host was started twice.\<close>

fun worker_result :: "host_result \<Rightarrow> bool" where
  "worker_result (Inl AlreadyStopped) = False"
| "worker_result _ = True"

definition result_inv :: "host_sys \<Rightarrow> bool" where
  "result_inv s \<longleftrightarrow> (\<forall>r. Finished r \<in> set (hs_channel s) \<or> hs_worker s \<in> {Dropping r, Sending r} \<longrightarrow> worker_result r)"

lemma result_send: "result_inv s \<Longrightarrow> (\<And>r. e = Finished r \<Longrightarrow> worker_result r) \<Longrightarrow> result_inv (send_event e s)"
  by (auto simp: result_inv_def send_event_def)

lemma result_frame [simp]:
  "result_inv (s\<lparr>hs_state := a\<rparr>) = result_inv s" "result_inv (s\<lparr>hs_cancelled := b\<rparr>) = result_inv s"
  "result_inv (s\<lparr>hs_callback := c\<rparr>) = result_inv s" "result_inv (s\<lparr>hs_locked := b\<rparr>) = result_inv s"
  "result_inv (s\<lparr>hs_requesters := n\<rparr>) = result_inv s" "result_inv (s\<lparr>hs_cancellers := n\<rparr>) = result_inv s"
  "result_inv (s\<lparr>hs_host := h\<rparr>) = result_inv s" "result_inv (s\<lparr>hs_deadline := d\<rparr>) = result_inv s"
  "result_inv (s\<lparr>hs_status_error := e\<rparr>) = result_inv s" "result_inv (s\<lparr>hs_reports := rs\<rparr>) = result_inv s"
  "result_inv (s\<lparr>hs_now := t\<rparr>) = result_inv s"
  by (simp_all add: result_inv_def)

lemma result_callbacks: "result_inv s \<Longrightarrow> result_inv (run_callbacks s)"
  using result_send [of "s\<lparr>hs_callback := Called\<rparr>" StopEvent] by (simp add: run_callbacks_def)

lemma result_working:
  "result_inv s \<Longrightarrow> (\<And>r. w \<in> {Dropping r, Sending r} \<Longrightarrow> worker_result r) \<Longrightarrow> result_inv (s\<lparr>hs_worker := w\<rparr>)"
  by (simp add: result_inv_def)

lemma result_sending: "result_inv s \<Longrightarrow> hs_worker s \<in> {Dropping r, Sending r} \<Longrightarrow> worker_result r"
  by (auto simp: result_inv_def)

lemma result_stop: "stop_move s s' \<Longrightarrow> result_inv s \<Longrightarrow> result_inv s'"
  by (induction rule: stop_move.induct) (simp_all add: result_callbacks)

lemma result_worker: "worker_move s s' \<Longrightarrow> result_inv s \<Longrightarrow> result_inv s'"
proof (induction rule: worker_move.induct)
  case (begin_work s)
  then show ?case by (intro result_working) (auto split: if_splits)
next
  case (initialize s answer)
  then show ?case by (intro result_working) (auto split: sum.splits)
next
  case (check s)
  then show ?case by (intro result_working) (auto split: if_splits)
next
  case (announce s)
  then show ?case by (intro result_send result_working) simp_all
next
  case (work s answer)
  then show ?case by (intro result_working) (auto split: sum.splits)
next
  case (panic s)
  then show ?case by (intro result_working) (auto simp: panicked_def)
next
  case (drop_worker s r)
  then show ?case using result_sending [of s r] by (intro result_working) auto
next
  case (drop_panic s r)
  then show ?case by (intro result_working) simp_all
next
  case (finish s r)
  then show ?case using result_sending [of s r] by (intro result_send result_working) auto
qed

lemma result_host: "host_move limit timeout s s' \<Longrightarrow> result_inv s \<Longrightarrow> result_inv s'"
proof (induction rule: host_move.induct)
  case (start s)
  then show ?case by (simp add: start_host_def split: sum.split)
next
  case (receive s e rest)
  then have "result_inv (s\<lparr>hs_channel := rest\<rparr>)" by (simp add: result_inv_def)
  then show ?case by (simp add: handle_event_def finished_host_def result_inv_def split: host_event.split)
next
  case (publish s x answer)
  then show ?case by (simp add: state_published_def Let_def split: sum.split)
next
  case (hang_up s)
  then show ?case by (simp add: finished_host_def result_inv_def)
next
  case (late s)
  then show ?case by (intro result_send) simp_all
next
  case (spawn s)
  then show ?case by (simp add: result_inv_def)
next
  case (own_drain s)
  then show ?case by (intro result_callbacks) simp
qed simp_all

lemma final_result_kind: "worker_result r \<Longrightarrow> final_result s r \<noteq> Inl AlreadyStopped"
  by (cases r rule: worker_result.cases; cases "hs_status_error s") (simp_all add: final_result_def)

text \<open>Every transition of the hosting thread keeps the invariant.\<close>

lemma host_move_inv: "host_move limit timeout s s' \<Longrightarrow> host_inv limit timeout s \<Longrightarrow> result_inv s \<Longrightarrow> host_inv limit timeout s'"
proof (induction rule: host_move.induct)
  case (receive s e rest)
  show ?case
  proof (cases e)
    case Initialized
    then show ?thesis using handle_initialized_inv receive by blast
  next
    case (Finished r)
    have "Finished r \<in> set (hs_channel s)" by (simp add: receive(2) Finished)
    then have "worker_result r" using receive(5) unfolding result_inv_def by blast
    then have "final_result (s\<lparr>hs_channel := rest\<rparr>) r \<noteq> Inl AlreadyStopped" by (rule final_result_kind)
    moreover have "host_inv limit timeout (s\<lparr>hs_channel := rest\<rparr>)" using receive(2,4) popped_finish_inv by (simp add: Finished)
    ultimately show ?thesis using finished_inv [of limit timeout "s\<lparr>hs_channel := rest\<rparr>"] receive(1,3)
      by (simp add: handle_event_def Finished)
  next
    case StopEvent
    then show ?thesis using handle_stop_inv receive by blast
  qed
next
  case (expire s d)
  then show ?case by (simp add: expire_inv)
next
  case (hang_up s)
  then show ?case by (intro finished_inv) (simp_all add: disconnected_def)
qed (simp_all add: start_inv again_inv lock_inv late_inv register_inv spawn_inv report_inv published_inv own_drain_inv)

lemma reachable_inv: "host_reachable limit timeout s \<Longrightarrow> host_inv limit timeout s \<and> result_inv s"
proof (induction rule: host_reachable.induct)
  case (initial cancelled t)
  then show ?case by (simp add: initial_inv) (simp add: result_inv_def initial_host_def)
next
  case (step s s')
  from step(2) show ?case
  proof (cases rule: sys_move.cases)
    case stopper
    then show ?thesis using step(3) by (simp add: stop_move_inv result_stop)
  next
    case host
    then show ?thesis using step(3) host_move_inv result_host by blast
  next
    case worker
    then show ?thesis using step(3) by (simp add: worker_move_inv result_worker)
  next
    case (tick d)
    then show ?thesis using step(3) by (simp add: tick_inv)
  qed
qed

section \<open>Properties\<close>

definition host_example :: "8 word \<Rightarrow> callback \<Rightarrow> host_event list \<Rightarrow> worker_phase \<Rightarrow> host_phase \<Rightarrow> (service_state \<times> bool) list \<Rightarrow> host_sys" where
  "host_example v cb ch w h reports =
     (initial_host False 0)\<lparr>hs_state := v, hs_callback := cb, hs_channel := ch, hs_worker := w, hs_host := h, hs_reports := reports\<rparr>"

lemma reach_host: "host_reachable l t s \<Longrightarrow> hs_host s \<noteq> Exited \<Longrightarrow> host_move l t s s' \<Longrightarrow> host_reachable l t s'"
  by (rule host_reachable.step [OF _ sys_move.host])

lemma reach_worker: "host_reachable l t s \<Longrightarrow> hs_host s \<noteq> Exited \<Longrightarrow> worker_move s s' \<Longrightarrow> host_reachable l t s'"
  by (rule host_reachable.step [OF _ sys_move.worker])

lemma reach_stop: "host_reachable l t s \<Longrightarrow> hs_host s \<noteq> Exited \<Longrightarrow> stop_move s s' \<Longrightarrow> host_reachable l t s'"
  by (rule host_reachable.step [OF _ sys_move.stopper])

lemmas example_defs = host_example_def initial_host_def

lemma exit_code: "scm_exit_code (fst (final_report r stop)) = 0 \<longleftrightarrow> r = Inr () \<and> stop"
  by (cases r; cases stop) (simp_all add: final_report_def)

text \<open>A run up to the moment the worker is at work and the host waits.\<close>

lemma example_working: "host_reachable 1000 10 (host_example (state_u8 Running) Pending [] Working Receiving [(Running, True)])"
proof -
  let ?R = "host_reachable 1000 10"
  have "?R (host_example (state_u8 Created) Absent [] Held Idle [])"
    using host_reachable.initial [of 1000 10 False 0] by (simp add: example_defs)
  then have "?R (host_example (state_u8 StartPending) Absent [] Held Claimed [])"
    by (rule reach_host) (simp_all add: example_defs host_move.simps start_host_def checked_instant_def)
  then have "?R (host_example (state_u8 StartPending) Absent [] Held (Checked False) [] \<lparr>hs_locked := True\<rparr>)"
    by (rule reach_host) (simp_all add: example_defs host_move.simps)
  then have "?R (host_example (state_u8 StartPending) Pending [] Held Registered [])"
    by (rule reach_host) (simp_all add: example_defs host_move.simps)
  then have "?R (host_example (state_u8 StartPending) Pending [] Spawned Receiving [])"
    by (rule reach_host) (simp_all add: example_defs host_move.simps)
  then have "?R (host_example (state_u8 StartPending) Pending [] Initializing Receiving [])"
    by (rule reach_worker) (simp_all add: example_defs worker_move.simps)
  then have "?R (host_example (state_u8 StartPending) Pending [] InitDone Receiving [])"
    by (rule reach_worker) (auto simp: example_defs worker_move.simps intro!: exI [of _ "Inr ()"])
  then have "?R (host_example (state_u8 StartPending) Pending [] Announcing Receiving [])"
    by (rule reach_worker) (simp_all add: example_defs worker_move.simps)
  then have "?R (host_example (state_u8 StartPending) Pending [Initialized] Working Receiving [])"
    by (rule reach_worker) (simp_all add: example_defs worker_move.simps send_event_def)
  then have "?R (host_example (state_u8 StartPending) Pending [] Working Reporting [])"
    by (rule reach_host) (simp_all add: example_defs host_move.simps handle_event_def)
  then have "?R (host_example (state_u8 Running) Pending [] Working (Publishing Running) [])"
    by (rule reach_host) (simp_all add: example_defs host_move.simps)
  then show ?thesis
    by (rule reach_host) (auto simp: example_defs host_move.simps state_published_def intro!: exI [of _ "Inr ()"])
qed

text \<open>
  C19. Whatever the worker, the clock, the publications and any number of stopping threads do, in every
  interleaving: the service reports at most \<open>Running\<close> and then \<open>StopPending\<close>, each once and never \<open>Running\<close>
  after \<open>StopPending\<close>; the host returns only when no worker thread is left, in the state \<open>Stopped\<close> exactly
  for the results that are not failures of this run, and its exit code is 0 only for a clean result of a
  requested stop; and the process is killed only after a stop whose
  deadline has passed, with the worker still alive.
\<close>

theorem service_lifecycle:
  assumes "host_reachable limit timeout s"
  shows "map fst (rev (hs_reports s)) \<in> {[], [Running], [StopPending], [Running, StopPending]}
    \<and> (\<forall>r. hs_host s = Returned r \<longrightarrow> hs_worker s \<in> {Held, Ended}
          \<and> (from_u8 (hs_state s) = Stopped \<and> r \<in> {Inr (), Inl AlreadyStopped}
               \<or> from_u8 (hs_state s) = Failed \<and> r \<noteq> Inr ())
          \<and> (scm_exit_code (fst (final_report r (hs_cancelled s))) = 0 \<longleftrightarrow> r = Inr () \<and> hs_cancelled s))
    \<and> (hs_host s = Exited \<longrightarrow> hs_cancelled s \<and> hs_worker s \<notin> {Held, Ended} \<and> (\<exists>d. hs_deadline s = Some d \<and> d \<le> hs_now s))"
proof -
  have i: "stop_inv s" "phase_inv s" "order_inv s" "time_inv limit timeout s"
    using reachable_inv [OF assms] by (simp_all add: host_inv_def)
  have "map fst (rev (hs_reports s)) \<in> {[], [Running], [StopPending], [Running, StopPending]}"
    using i(3) by (auto simp: order_inv_def rev_map [symmetric])
  moreover have "hs_worker s \<in> {Held, Ended}
      \<and> (from_u8 (hs_state s) = Stopped \<and> r \<in> {Inr (), Inl AlreadyStopped} \<or> from_u8 (hs_state s) = Failed \<and> r \<noteq> Inr ())
      \<and> (scm_exit_code (fst (final_report r (hs_cancelled s))) = 0 \<longleftrightarrow> r = Inr () \<and> hs_cancelled s)" if "hs_host s = Returned r" for r
    using i(2) that exit_code [of r "hs_cancelled s"] by (auto simp: phase_inv_def)
  moreover have "hs_host s = Exited \<longrightarrow> hs_cancelled s \<and> hs_worker s \<notin> {Held, Ended} \<and> (\<exists>d. hs_deadline s = Some d \<and> d \<le> hs_now s)"
    using i(4) by (simp add: time_inv_def)
  ultimately show ?thesis by blast
qed

theorem service_lifecycle_witness:
  "map fst (rev (hs_reports (host_example (state_u8 Running) Pending [] Working Receiving [(Running, True)])))
     \<in> {[], [Running], [StopPending], [Running, StopPending]}"
  using service_lifecycle [OF example_working] by blast

text \<open>
  C20. A stop is never missed. Once the flag is set and the thread that set it has run the callbacks, the
  hosting thread is never blocked for longer than the shutdown timeout: it has an event to take, or a
  deadline at most that far away. In no interleaving is the request lost between the check of the flag,
  the registration of the callback and the wait.
\<close>

theorem stop_is_never_missed:
  assumes "host_reachable limit timeout s" and "hs_cancelled s" and "hs_cancellers s = 0" and "hs_host s \<noteq> Exited"
    and "0 \<le> timeout" and "hs_now s + timeout \<le> limit"
  shows "\<exists>delay s'. 0 \<le> delay \<and> delay \<le> timeout
    \<and> host_move limit timeout (s\<lparr>hs_now := hs_now s + delay\<rparr>) s'"
proof -
  have i: "stop_inv s" "phase_inv s" "count_inv s" "time_inv limit timeout s"
    using reachable_inv [OF assms(1)] by (simp_all add: host_inv_def)
  have now: "\<exists>delay s'. 0 \<le> delay \<and> delay \<le> timeout \<and> host_move limit timeout (s\<lparr>hs_now := hs_now s + delay\<rparr>) s'"
    if "host_move limit timeout s s'" for s'
    using that assms(5) by (intro exI [of _ 0] exI [of _ s']) simp
  show ?thesis
  proof (cases "hs_host s")
    case Receiving
    show ?thesis
    proof (cases "hs_channel s")
      case (Cons e rest)
      have "\<forall>r. e = Finished r \<longrightarrow> hs_worker s = Ended" using i(2) Cons by (simp add: phase_inv_def)
      then show ?thesis using now host_move.receive [OF Receiving Cons] by blast
    next
      case Nil
      have "hs_callback s = Called"
        using i(1,2) assms(2,3) Receiving by (cases "hs_callback s") (auto simp: stop_inv_def phase_inv_def)
      then have "handled s" using i(3) Receiving Nil by (simp add: count_inv_def split: if_splits)
      then obtain d where d: "hs_deadline s = Some d" "d \<le> hs_now s + timeout"
        using i(4) assms(6) by (cases "hs_deadline s") (auto simp: time_inv_def)
      show ?thesis
      proof (cases "disconnected s")
        case True
        then show ?thesis using now host_move.hang_up [OF Receiving Nil] by blast
      next
        case False
        let ?delay = "max 0 (d - hs_now s)"
        let ?s = "s\<lparr>hs_now := hs_now s + ?delay\<rparr>"
        have "host_move limit timeout ?s (?s\<lparr>hs_host := Exited\<rparr>)"
          using Receiving Nil d(1) False by (intro host_move.expire [of _ d]) (simp_all add: disconnected_def)
        moreover have "0 \<le> ?delay" "?delay \<le> timeout" using assms(5) d(2) by simp_all
        ultimately show ?thesis by blast
      qed
    qed
  next
    case (Checked b)
    then show ?thesis using now [OF host_move.late] now [OF host_move.register] by (cases b) simp_all
  next
    case Idle
    then show ?thesis by (rule now [OF host_move.start])
  next
    case Claimed
    then show ?thesis by (rule now [OF host_move.lock])
  next
    case Registered
    then show ?thesis by (rule now [OF host_move.spawn])
  next
    case Reporting
    then show ?thesis by (rule now [OF host_move.report])
  next
    case (Publishing x)
    then show ?thesis by (rule now [OF host_move.publish])
  next
    case Draining
    then show ?thesis by (rule now [OF host_move.own_drain])
  next
    case (Returned r)
    then show ?thesis by (rule now [OF host_move.again])
  next
    case Exited
    then show ?thesis using assms(4) by simp
  qed
qed

text \<open>The example, after a request to stop.\<close>

lemma example_stopping:
  "host_reachable 1000 10 ((host_example (state_u8 Running) Called [StopEvent] Working Receiving [(Running, True)])
     \<lparr>hs_cancelled := True\<rparr>)"
proof -
  have "host_reachable 1000 10 ((host_example (state_u8 Running) Pending [] Working Receiving [(Running, True)])
     \<lparr>hs_cancelled := True, hs_cancellers := 1\<rparr>)"
    using example_working by (rule reach_stop) (auto simp: example_defs stop_move.simps)
  then show ?thesis
    by (rule reach_stop) (simp_all add: example_defs stop_move.simps run_callbacks_def send_event_def)
qed

theorem stop_is_never_missed_witness:
  "\<exists>delay s'. 0 \<le> delay \<and> delay \<le> 10 \<and> host_move 1000 10
     ((host_example (state_u8 Running) Called [StopEvent] Working Receiving [(Running, True)])
        \<lparr>hs_cancelled := True, hs_now := delay\<rparr>) s'"
  using stop_is_never_missed [OF example_stopping] by (simp add: example_defs)

text \<open>
  C40. A panic while the worker's resources are dropped is never reported. The host waits for the worker's
  result with no deadline while its callback holds a sender of the channel, so with no stop requested it
  stays in \<open>Running\<close> with no worker, and nothing but a stop request can move it: the branch for a worker
  thread that panicked during cleanup is only reached after a result, which is sent after the cleanup.
\<close>

theorem cleanup_panic_is_silent:
  "\<exists>s. host_reachable 1000 10 s \<and> hs_worker s = Ended \<and> from_u8 (hs_state s) = Running \<and> \<not> hs_cancelled s
     \<and> (\<forall>delay s'. \<not> host_move 1000 10 (s\<lparr>hs_now := hs_now s + delay\<rparr>) s') \<and> (\<forall>s'. \<not> worker_move s s')"
proof -
  have "host_reachable 1000 10 (host_example (state_u8 Running) Pending [] (Dropping (Inr ())) Receiving [(Running, True)])"
    using example_working
    by (rule reach_worker) (auto simp: example_defs worker_move.simps intro!: exI [of _ "Inr ()"])
  then have "host_reachable 1000 10 (host_example (state_u8 Running) Pending [] Ended Receiving [(Running, True)])"
    by (rule reach_worker) (auto simp: example_defs worker_move.simps)
  then show ?thesis
    by (intro exI [of _ "host_example (state_u8 Running) Pending [] Ended Receiving [(Running, True)]"] conjI)
      (auto simp: example_defs host_move.simps worker_move.simps disconnected_def)
qed

end
