(* ===== verification/Base64.thy ===== *)
theory Base64
  imports Rust_Strings
begin

text \<open>The padded base64 of \<open>qga.rs\<close>, with the UTF-8 bytes of a \<open>str\<close> the decoder reads.\<close>

type_synonym u8 = "8 word"

section \<open>UTF-8\<close>

definition continuation :: "nat \<Rightarrow> u8" where
  "continuation n = of_nat (128 + n mod 64)"

definition utf8_char :: "rust_char \<Rightarrow> u8 list" where
  "utf8_char c =
     (let n = nat c in
      if c < 0x80 then [of_nat n]
      else if c < 0x800 then [of_nat (192 + n div 64), continuation n]
      else if c < 0x10000 then [of_nat (224 + n div 4096), continuation (n div 64), continuation n]
      else [of_nat (240 + n div 262144), continuation (n div 4096), continuation (n div 64), continuation n])"

definition utf8_bytes :: "rust_str \<Rightarrow> u8 list" where
  "utf8_bytes s = concat (map utf8_char s)"

section \<open>Encoding\<close>

definition ALPHABET :: rust_str where
  "ALPHABET = lit ''ABCDEFGHIJKLMNOPQRSTUVWXYZabcdefghijklmnopqrstuvwxyz0123456789+/''"

definition block_value :: "u8 \<Rightarrow> u8 \<Rightarrow> u8 \<Rightarrow> u32" where
  "block_value b0 b1 b2 = of_nat (65536 * unat b0 + 256 * unat b1 + unat b2)"

definition sextet :: "u32 \<Rightarrow> nat \<Rightarrow> nat" where
  "sextet v index = unat (and (drop_bit (18 - 6 * index) v) 63)"

definition encode_chunk :: "u8 list \<Rightarrow> rust_str" where
  "encode_chunk chunk =
     (let byte = (\<lambda>k. if k < length chunk then chunk ! k else 0); v = block_value (byte 0) (byte 1) (byte 2)
      in map (\<lambda>index. if index \<le> length chunk then ALPHABET ! sextet v index else 61) [0, 1, 2, 3])"

function encode_base64 :: "u8 list \<Rightarrow> rust_str" where
  "encode_base64 input = (if input = [] then [] else encode_chunk (take 3 input) @ encode_base64 (drop 3 input))"
  by pat_completeness auto
termination
  by (relation "measure length") auto

declare encode_base64.simps [simp del]

section \<open>Decoding\<close>

definition base64_value :: "u8 \<Rightarrow> rust_str + u8" where
  "base64_value b =
     (if 65 \<le> b \<and> b \<le> 90 then Inr (b - 65)
      else if 97 \<le> b \<and> b \<le> 122 then Inr (b - 97 + 26)
      else if 48 \<le> b \<and> b \<le> 57 then Inr (b - 48 + 52)
      else if b = 43 then Inr 62
      else if b = 47 then Inr 63
      else Inl (lit ''QGA base64 payload contains an invalid character''))"

fun decode_blocks :: "u8 list \<Rightarrow> rust_str + u8 list" where
  "decode_blocks (c0 # c1 # c2 # c3 # rest) =
     (let padding = (if c2 = 61 \<and> c3 = 61 then 2 else if c3 = 61 then 1 else 0 :: nat) in
      if 0 < padding \<and> rest \<noteq> [] then Inl (lit ''QGA base64 padding appears before the final block'')
      else
        and_then (base64_value c0) (\<lambda>a.
        and_then (base64_value c1) (\<lambda>b.
        and_then (if c2 = 61 then Inr 0 else base64_value c2) (\<lambda>c.
        and_then (if c3 = 61 then Inr 0 else base64_value c3) (\<lambda>d.
          if c0 = 61 \<or> c1 = 61 \<or> c2 = 61 \<and> c3 \<noteq> 61 then Inl (lit ''QGA base64 padding is invalid'')
          else
            and_then (decode_blocks rest) (\<lambda>output.
              Inr ([or (push_bit 2 a) (drop_bit 4 b)]
                   @ (if padding < 2 then [or (push_bit 4 b) (drop_bit 2 c)] else [])
                   @ (if padding = 0 then [or (push_bit 6 c) d] else [])
                   @ output)))))))"
| "decode_blocks _ = Inr []"

definition decode_base64 :: "rust_str \<Rightarrow> rust_str + u8 list" where
  "decode_base64 input =
     (let bytes = utf8_bytes input in
      if length bytes mod 4 \<noteq> 0 then Inl (lit ''QGA base64 payload length is invalid'') else decode_blocks bytes)"

section \<open>Round trip\<close>

lemma alphabet_values:
  "n < 64 \<Longrightarrow> utf8_char (ALPHABET ! n) = [of_int (ALPHABET ! n)] \<and> (of_int (ALPHABET ! n) :: u8) \<noteq> 61
     \<and> base64_value (of_int (ALPHABET ! n)) = Inr (of_nat n)"
proof -
  have "list_all (\<lambda>n. utf8_char (ALPHABET ! n) = [of_int (ALPHABET ! n)] \<and> (of_int (ALPHABET ! n) :: u8) \<noteq> 61
     \<and> base64_value (of_int (ALPHABET ! n)) = Inr (of_nat n)) [0..<64]"
    by code_simp
  then show "n < 64 \<Longrightarrow> ?thesis" by (simp add: list_all_iff)
qed

lemma join_bits:
  assumes "q < 2 ^ k"
  shows "or (push_bit k (of_nat p :: u8)) (of_nat q) = of_nat (p * 2 ^ k + q)"
proof -
  have "\<not> bit (push_bit k (of_nat p :: u8)) n \<or> \<not> bit (of_nat q :: u8) n" for n
  proof (cases "n < k")
    case False
    then have "q < 2 ^ n" using assms by (meson leI less_le_trans one_le_numeral power_increasing)
    then have "\<not> bit q n" by (simp add: bit_iff_odd)
    then show ?thesis by (simp add: bit_of_nat_iff)
  qed (simp add: bit_push_bit_iff)
  then have "or (push_bit k (of_nat p :: u8)) (of_nat q) = push_bit k (of_nat p) + of_nat q"
    by (simp add: disjunctive_add)
  then show ?thesis by (simp add: push_bit_eq_mult mult.commute)
qed

lemma drop_nat: "n < 256 \<Longrightarrow> drop_bit k (of_nat n :: u8) = of_nat (n div 2 ^ k)"
proof -
  assume n: "n < 256"
  then have "n div 2 ^ k < 256" by (meson div_le_dividend le_less_trans)
  with n show ?thesis
    by (simp only: word_unat_eq_iff unat_drop_bit_eq unat_of_nat) (simp add: drop_bit_eq_div)
qed

lemma sextet_div: "sextet (of_nat n) index = n mod 2 ^ 32 div 2 ^ (18 - 6 * index) mod 64"
proof -
  have "(63::u32) = mask 6" by (simp add: mask_eq_exp_minus_1)
  then show ?thesis
    unfolding sextet_def
    by (simp only: take_bit_eq_mask [symmetric] unsigned_take_bit_eq unat_drop_bit_eq unat_of_nat)
      (simp add: take_bit_eq_mod drop_bit_eq_div)
qed

text \<open>The character of a sextet, and the four sextets of three bytes.\<close>

definition char_of_sextet :: "nat \<Rightarrow> u8" where
  "char_of_sextet n = of_int (ALPHABET ! n)"

lemma char_of_sextet:
  "n < 64 \<Longrightarrow> utf8_char (ALPHABET ! n) = [char_of_sextet n]" "n < 64 \<Longrightarrow> char_of_sextet n \<noteq> 61"
  "n < 64 \<Longrightarrow> base64_value (char_of_sextet n) = Inr (of_nat n)"
  using alphabet_values by (simp_all add: char_of_sextet_def)

lemma low_digit: "r < 64 \<Longrightarrow> (q * 64 + r) div 64 = q" "r < 64 \<Longrightarrow> (q * 64 + r) mod 64 = (r::nat)"
  by simp_all

lemma base64_digits:
  assumes "s0 < 64" and "s1 < 64" and "s2 < 64" and "s3 < (64::nat)"
  defines "n \<equiv> ((s0 * 64 + s1) * 64 + s2) * 64 + s3"
  shows "n div 262144 mod 64 = s0" "n div 4096 mod 64 = s1" "n div 64 mod 64 = s2" "n div 1 mod 64 = s3"
proof -
  have powers: "n div 262144 = n div 64 div 64 div 64" "n div 4096 = n div 64 div 64" by (simp_all add: div_mult2_eq [symmetric])
  show "n div 262144 mod 64 = s0" "n div 4096 mod 64 = s1" "n div 64 mod 64 = s2" "n div 1 mod 64 = s3"
    unfolding powers unfolding n_def using assms(1-4) by (simp_all only: low_digit mod_less div_by_1)
qed

lemma three_digits:
  "65536 * (4 * x1 + x0) + 256 * (16 * y1 + y0) + (64 * z1 + z0) =
    ((x1 * 64 + (16 * x0 + y1)) * 64 + (4 * y0 + z1)) * 64 + (z0::nat)"
  by simp

lemma three_bytes:
  "65536 * x + 256 * y + z =
    ((x div 4 * 64 + (16 * (x mod 4) + y div 16)) * 64 + (4 * (y mod 16) + z div 64)) * 64 + z mod (64::nat)"
  using three_digits [of "x div 4" "x mod 4" "y div 16" "y mod 16" "z div 64" "z mod 64"] by simp

lemma sextets:
  assumes "x < 256" and "y < 256" and "z < (256::nat)"
  defines "v \<equiv> of_nat (65536 * x + 256 * y + z)"
  shows "sextet v 0 = x div 4" "sextet v 1 = 16 * (x mod 4) + y div 16"
    "sextet v 2 = 4 * (y mod 16) + z div 64" "sextet v 3 = z mod 64"
proof -
  let ?n = "((x div 4 * 64 + (16 * (x mod 4) + y div 16)) * 64 + (4 * (y mod 16) + z div 64)) * 64 + z mod 64"
  have small: "65536 * x + 256 * y + z < 2 ^ 32" using assms(1-3) by simp
  have n: "65536 * x + 256 * y + z = ?n" by (rule three_bytes)
  have "x div 4 < 64" "y div 16 < 16" "z div 64 < 4" using assms(1-3) by auto
  moreover have "x mod 4 < 4" "y mod 16 < 16" by simp_all
  ultimately have parts: "x div 4 < 64" "16 * (x mod 4) + y div 16 < 64" "4 * (y mod 16) + z div 64 < 64" "z mod 64 < 64"
    by (simp, linarith, linarith, simp)
  have s: "sextet v k = ?n div 2 ^ (18 - 6 * k) mod 64" for k
    using small by (simp only: v_def sextet_div mod_less n)
  have "2 ^ (18 - 6 * 0) = (262144::nat)" "2 ^ (18 - 6 * 1) = (4096::nat)" "2 ^ (18 - 6 * 2) = (64::nat)" "2 ^ (18 - 6 * 3) = (1::nat)"
    by simp_all
  then show "sextet v 0 = x div 4" "sextet v 1 = 16 * (x mod 4) + y div 16" "sextet v 2 = 4 * (y mod 16) + z div 64"
      "sextet v 3 = z mod 64"
    by (simp_all only: s base64_digits [OF parts])
qed

text \<open>The bytes put together again from the sextets.\<close>

lemma joined:
  assumes "x < 256" and "y < 256" and "z < (256::nat)"
  shows "or (push_bit 2 (of_nat (x div 4))) (drop_bit 4 (of_nat (16 * (x mod 4) + y div 16))) = (of_nat x :: u8)"
    and "or (push_bit 4 (of_nat (16 * (x mod 4) + y div 16))) (drop_bit 2 (of_nat (4 * (y mod 16) + z div 64))) = (of_nat y :: u8)"
    and "or (push_bit 6 (of_nat (4 * (y mod 16) + z div 64))) (of_nat (z mod 64)) = (of_nat z :: u8)"
proof -
  have wrap: "of_nat (256 * a + b) = (of_nat b :: u8)" for a b
  proof -
    have "(256::u8) = 0" by code_simp
    then show ?thesis by (simp only: of_nat_add of_nat_mult of_nat_numeral mult_zero_left add_0_left)
  qed
  have small: "y div 16 < 16" "z div 64 < 4" "x mod 4 < 4" "y mod 16 < 16" using assms by auto
  have s: "16 * (x mod 4) + y div 16 < 256" "4 * (y mod 16) + z div 64 < 256" using small by linarith+
  have d: "(16 * (x mod 4) + y div 16) div 2 ^ 4 = x mod 4" "(4 * (y mod 16) + z div 64) div 2 ^ 2 = y mod 16"
    using small by simp_all
  show "or (push_bit 2 (of_nat (x div 4))) (drop_bit 4 (of_nat (16 * (x mod 4) + y div 16))) = (of_nat x :: u8)"
    using join_bits [of "x mod 4" 2 "x div 4"] small by (simp only: drop_nat [OF s(1)] d) simp
  have "(16 * (x mod 4) + y div 16) * 2 ^ 4 + y mod 16 = 256 * (x mod 4) + y" by simp
  then show "or (push_bit 4 (of_nat (16 * (x mod 4) + y div 16))) (drop_bit 2 (of_nat (4 * (y mod 16) + z div 64))) = (of_nat y :: u8)"
    using join_bits [of "y mod 16" 4 "16 * (x mod 4) + y div 16"] small
    by (simp only: drop_nat [OF s(2)] d) (simp only: wrap, simp)
  have "(4 * (y mod 16) + z div 64) * 2 ^ 6 + z mod 64 = 256 * (y mod 16) + z" by simp
  then show "or (push_bit 6 (of_nat (4 * (y mod 16) + z div 64))) (of_nat (z mod 64)) = (of_nat z :: u8)"
    using join_bits [of "z mod 64" 6 "4 * (y mod 16) + z div 64"] by (simp only: wrap) simp
qed

lemma utf8_bytes_simps [simp]:
  "utf8_bytes [] = []" "utf8_bytes (c # s) = utf8_char c @ utf8_bytes s" "utf8_bytes (s @ t) = utf8_bytes s @ utf8_bytes t"
  by (simp_all add: utf8_bytes_def)

lemma utf8_padding: "utf8_char 61 = [61]"
  by (simp add: utf8_char_def)

text \<open>One block, decoded.\<close>

definition sextet_of :: "u8 \<Rightarrow> u8 \<Rightarrow> u8 \<Rightarrow> nat \<Rightarrow> nat" where
  "sextet_of a b c index = sextet (block_value a b c) index"

lemma sextet_of:
  "sextet_of a b c 0 = unat a div 4" "sextet_of a b c 1 = 16 * (unat a mod 4) + unat b div 16"
  "sextet_of a b c 2 = 4 * (unat b mod 16) + unat c div 64" "sextet_of a b c 3 = unat c mod 64"
  using sextets [of "unat a" "unat b" "unat c"] unsigned_less [of a] unsigned_less [of b] unsigned_less [of c]
  by (simp_all add: sextet_of_def block_value_def)

lemma sextet_bound: "sextet v index < 64"
proof -
  have "(63::u32) = mask 6" by (simp add: mask_eq_exp_minus_1)
  then show ?thesis
    unfolding sextet_def by (simp only: take_bit_eq_mask [symmetric] unsigned_take_bit_eq) (simp add: take_bit_eq_mod)
qed

lemma sextet_of_char:
  "utf8_char (ALPHABET ! sextet (block_value a b c) k) = [char_of_sextet (sextet_of a b c k)]"
  "char_of_sextet (sextet_of a b c k) \<noteq> 61"
  "base64_value (char_of_sextet (sextet_of a b c k)) = Inr (of_nat (sextet_of a b c k))"
  using char_of_sextet [OF sextet_bound [of "block_value a b c" k]] by (simp_all add: sextet_of_def)

lemma sextets_joined:
  "or (push_bit 2 (of_nat (sextet_of a b c 0))) (drop_bit 4 (of_nat (sextet_of a b c 1))) = a"
  "or (push_bit 4 (of_nat (sextet_of a b c 1))) (drop_bit 2 (of_nat (sextet_of a b c 2))) = b"
  "or (push_bit 6 (of_nat (sextet_of a b c 2))) (of_nat (sextet_of a b c 3)) = c"
  using joined [of "unat a" "unat b" "unat c"] unsigned_less [of a] unsigned_less [of b] unsigned_less [of c]
  by (simp_all only: sextet_of) simp_all

lemma encoded_block:
  "utf8_bytes (encode_chunk [a]) = [char_of_sextet (sextet_of a 0 0 0), char_of_sextet (sextet_of a 0 0 1), 61, 61]"
  "utf8_bytes (encode_chunk [a, b]) =
     [char_of_sextet (sextet_of a b 0 0), char_of_sextet (sextet_of a b 0 1), char_of_sextet (sextet_of a b 0 2), 61]"
  "utf8_bytes (encode_chunk [a, b, c]) =
     [char_of_sextet (sextet_of a b c 0), char_of_sextet (sextet_of a b c 1), char_of_sextet (sextet_of a b c 2),
      char_of_sextet (sextet_of a b c 3)]"
  by (simp_all add: encode_chunk_def Let_def sextet_of_char(1) utf8_padding)

lemma encode_steps:
  "encode_base64 [] = []" "encode_base64 [a] = encode_chunk [a]" "encode_base64 [a, b] = encode_chunk [a, b]"
  "encode_base64 (a # b # c # rest) = encode_chunk [a, b, c] @ encode_base64 rest"
  by (simp_all add: encode_base64.simps [of "[]"] encode_base64.simps [of "[a]"] encode_base64.simps [of "[a, b]"]
      encode_base64.simps [of "a # b # c # rest"])

lemma decode_encode: "decode_blocks (utf8_bytes (encode_base64 bs)) = Inr bs \<and> length (utf8_bytes (encode_base64 bs)) mod 4 = 0"
proof (induction "length bs" arbitrary: bs rule: less_induct)
  case less
  consider "bs = []" | a where "bs = [a]" | a b where "bs = [a, b]" | a b c rest where "bs = a # b # c # rest"
    by (cases bs; cases "tl bs"; cases "tl (tl bs)") auto
  then show ?case
  proof cases
    case (2 a)
    then show ?thesis
      using sextets_joined(1) [of a 0 0] by (simp add: encode_steps encoded_block sextet_of_char(2,3))
  next
    case (3 a b)
    then show ?thesis
      using sextets_joined(1,2) [of a b 0] by (simp add: encode_steps encoded_block sextet_of_char(2,3))
  next
    case (4 a b c rest)
    then show ?thesis
      using sextets_joined [of a b c] less [of rest] by (simp add: encode_steps encoded_block sextet_of_char(2,3))
  qed (simp add: encode_steps)
qed

text \<open>
  C32. Decoding what was encoded gives the same bytes, for every byte string: a status written to the guest
  and a publication read from it are not altered on their way through the agent.
\<close>

theorem base64_roundtrip: "decode_base64 (encode_base64 bs) = Inr bs"
  using decode_encode [of bs] by (simp add: decode_base64_def Let_def)

end
