(* ===== verification/Guest_Files.thy ===== *)
theory Guest_Files
  imports Attestation Base64
begin

text \<open>
  Files of the guest through its agent: \<open>qga.rs\<close>. A file is opened, read in chunks or written, and
  closed, each by one agent command. The JSON texts of requests and responses are parameters.
\<close>

record read_result =
  rd_count :: nat
  rd_buffer :: rust_str
  rd_eof :: bool

record agent_codec =
  parse_open :: "rust_str \<Rightarrow> rust_str + u64"
  parse_read :: "rust_str \<Rightarrow> rust_str + read_result"
  parse_write :: "rust_str \<Rightarrow> rust_str + nat"
  parse_value :: "rust_str \<Rightarrow> rust_str + json"
  value_text :: "json \<Rightarrow> rust_str"

definition MAX_GUEST_FILE_READS :: nat where
  "MAX_GUEST_FILE_READS = 16"

definition agent_request :: "rust_str \<Rightarrow> (rust_str \<times> json) list \<Rightarrow> json" where
  "agent_request execute arguments =
     JObject [(lit ''arguments'', JObject arguments), (lit ''execute'', JString execute)]"

definition agent_args :: "agent_codec \<Rightarrow> rust_str \<Rightarrow> json \<Rightarrow> rust_str list" where
  "agent_args c vm req = [lit ''qemu-agent-command'', vm, value_text c req]"

definition agent_execute :: "env \<Rightarrow> agent_codec \<Rightarrow> nat \<Rightarrow> rust_str \<Rightarrow> json \<Rightarrow> (history, rust_str, rust_str) prog" where
  "agent_execute w c i vm req = run_virsh w i (agent_args c vm req)"

definition close_request :: "u64 \<Rightarrow> json" where
  "close_request handle = agent_request (lit ''guest-file-close'') [(lit ''handle'', JUnsigned handle)]"

definition guest_close :: "env \<Rightarrow> agent_codec \<Rightarrow> nat \<Rightarrow> rust_str \<Rightarrow> u64 \<Rightarrow> (history, rust_str, unit) prog" where
  "guest_close w c i vm handle =
     bind (agent_execute w c i vm (close_request handle)) (\<lambda>response.
     bind (lift_result (map_err (\<lambda>e. lit ''parse guest-file-close response: '' @ e) (parse_value c response))) (\<lambda>response.
       if Option.bind (json_get response (lit ''return'')) as_object = None
         then raise (lit ''guest-file-close response has no return object'')
       else ret ()))"

definition open_request :: "rust_str \<Rightarrow> rust_str \<Rightarrow> json" where
  "open_request path mode =
     agent_request (lit ''guest-file-open'') [(lit ''mode'', JString mode), (lit ''path'', JString path)]"

definition guest_open :: "env \<Rightarrow> agent_codec \<Rightarrow> nat \<Rightarrow> rust_str \<Rightarrow> rust_str \<Rightarrow> rust_str \<Rightarrow> (history, rust_str, u64) prog" where
  "guest_open w c i vm path mode =
     (if trim path = [] then raise (lit ''QGA guest file path must not be empty'')
      else
        bind (agent_execute w c i vm (open_request path mode)) (\<lambda>response.
          lift_result (map_err (\<lambda>e. lit ''parse guest-file-open response: '' @ e) (parse_open c response))))"

definition with_handle ::
    "env \<Rightarrow> agent_codec \<Rightarrow> nat \<Rightarrow> rust_str \<Rightarrow> u64 \<Rightarrow> (history, rust_str, 'a) prog \<Rightarrow> (history, rust_str, 'a) prog" where
  "with_handle w c i vm handle action =
     bind (attempt action) (\<lambda>result.
     bind (attempt (guest_close w c i vm handle)) (\<lambda>closed.
       case (result, closed) of
         (Inr value, Inr _) \<Rightarrow> ret value
       | (Inl error, Inr _) \<Rightarrow> raise error
       | (Inr _, Inl close_error) \<Rightarrow> raise close_error
       | (Inl error, Inl close_error) \<Rightarrow>
           raise (error @ lit ''; additionally failed to close QGA handle: '' @ close_error)))"

definition write_request :: "u64 \<Rightarrow> u8 list \<Rightarrow> json" where
  "write_request handle contents =
     agent_request (lit ''guest-file-write'')
       [(lit ''buf-b64'', JString (encode_base64 contents)), (lit ''handle'', JUnsigned handle)]"

definition write_contents :: "env \<Rightarrow> agent_codec \<Rightarrow> nat \<Rightarrow> rust_str \<Rightarrow> u64 \<Rightarrow> u8 list \<Rightarrow> (history, rust_str, unit) prog" where
  "write_contents w c i vm handle contents =
     bind (agent_execute w c i vm (write_request handle contents)) (\<lambda>response.
     bind (lift_result (map_err (\<lambda>e. lit ''parse guest-file-write response: '' @ e) (parse_write c response))) (\<lambda>count.
       if count \<noteq> length contents
         then raise (lit ''guest-file-write wrote '' @ dec count @ lit '' of '' @ dec (length contents) @ lit '' bytes'')
       else ret ()))"

definition write_file :: "env \<Rightarrow> agent_codec \<Rightarrow> nat \<Rightarrow> rust_str \<Rightarrow> rust_str \<Rightarrow> u8 list \<Rightarrow> (history, rust_str, unit) prog" where
  "write_file w c i vm path contents =
     bind (guest_open w c i vm path (lit ''w'')) (\<lambda>handle.
       with_handle w c i vm handle (write_contents w c i vm handle contents))"

definition chunk_request :: "u64 \<Rightarrow> nat \<Rightarrow> json" where
  "chunk_request handle requested =
     agent_request (lit ''guest-file-read'') [(lit ''count'', JUnsigned (of_nat requested)), (lit ''handle'', JUnsigned handle)]"

definition requested_bytes :: "nat \<Rightarrow> nat \<Rightarrow> nat option" where
  "requested_bytes maximum len =
     (if len \<le> maximum \<and> int (maximum - len + 1) < 2 ^ 64 then Some (maximum - len + 1) else None)"

fun read_chunks ::
    "env \<Rightarrow> agent_codec \<Rightarrow> nat \<Rightarrow> rust_str \<Rightarrow> u64 \<Rightarrow> nat \<Rightarrow> nat \<Rightarrow> u8 list \<Rightarrow> (history, rust_str, u8 list) prog" where
  "read_chunks w c i vm handle maximum 0 contents =
     raise (lit ''QGA guest file did not reach EOF within '' @ dec MAX_GUEST_FILE_READS @ lit '' reads'')"
| "read_chunks w c i vm handle maximum (Suc n) contents =
     bind (lift_result (ok_or (requested_bytes maximum (length contents)) (lit ''QGA read bound overflowed''))) (\<lambda>requested.
     bind (agent_execute w c i vm (chunk_request handle requested)) (\<lambda>response.
     bind (lift_result (map_err (\<lambda>e. lit ''parse guest-file-read response: '' @ e) (parse_read c response))) (\<lambda>r.
     bind (lift_result (decode_base64 (rd_buffer r))) (\<lambda>bytes.
       if rd_count r \<noteq> length bytes
         then raise (lit ''guest-file-read count '' @ dec (rd_count r) @ lit '' does not match decoded length '' @ dec (length bytes))
       else if bytes = [] \<and> \<not> rd_eof r then raise (lit ''QGA guest-file-read made no progress before EOF'')
       else if maximum < length (contents @ bytes)
         then raise (lit ''QGA guest file exceeds '' @ dec maximum @ lit '' byte limit'')
       else if rd_eof r then ret (contents @ bytes)
       else read_chunks w c i vm handle maximum n (contents @ bytes)))))"

definition sharing_collision :: "rust_str \<Rightarrow> bool" where
  "sharing_collision error \<longleftrightarrow>
     contains error (lit ''being used by another process'') \<or> contains error (lit ''sharing violation'')"

definition open_for_read :: "env \<Rightarrow> agent_codec \<Rightarrow> nat \<Rightarrow> rust_str \<Rightarrow> rust_str \<Rightarrow> (history, rust_str, u64) prog" where
  "open_for_read w c i vm path =
     bind (attempt (guest_open w c i vm path (lit ''r''))) (\<lambda>opened.
       case opened of
         Inr handle \<Rightarrow> ret handle
       | Inl error \<Rightarrow>
           if sharing_collision error
             then bind (tell i (Waited 25)) (\<lambda>_. guest_open w c i vm path (lit ''r''))
           else raise error)"

definition read_guest_file :: "env \<Rightarrow> agent_codec \<Rightarrow> nat \<Rightarrow> rust_str \<Rightarrow> rust_str \<Rightarrow> nat \<Rightarrow> (history, rust_str, u8 list) prog" where
  "read_guest_file w c i vm path maximum =
     bind (open_for_read w c i vm path) (\<lambda>handle.
       with_handle w c i vm handle (read_chunks w c i vm handle maximum MAX_GUEST_FILE_READS []))"

section \<open>What the agent served\<close>

text \<open>
  The chunks with which the agent answered the reads of one open file, each with its end-of-file mark, from
  the bytes already received and the history before to the history after.
\<close>

fun served ::
    "env \<Rightarrow> agent_codec \<Rightarrow> nat \<Rightarrow> rust_str \<Rightarrow> u64 \<Rightarrow> nat \<Rightarrow> u8 list \<Rightarrow> history \<Rightarrow> (u8 list \<times> bool) list \<Rightarrow> history \<Rightarrow> bool" where
  "served w c i vm handle maximum contents h [] h' = False"
| "served w c i vm handle maximum contents h ((bytes, eof) # chunks) h' =
     (\<exists>text r. world_virsh w i (agent_args c vm (chunk_request handle (maximum - length contents + 1))) h = Inr text
        \<and> parse_read c text = Inr r \<and> decode_base64 (rd_buffer r) = Inr bytes
        \<and> rd_count r = length bytes \<and> rd_eof r = eof
        \<and> (let h1 = (i, Virsh (agent_args c vm (chunk_request handle (maximum - length contents + 1)))) # h in
           if eof then chunks = [] \<and> h' = h1
           else bytes \<noteq> [] \<and> served w c i vm handle maximum (contents @ bytes) h1 chunks h'))"

lemma agent_execute_Inr:
  "agent_execute w c i vm req h = (Inr text, h') \<longleftrightarrow>
     world_virsh w i (agent_args c vm req) h = Inr text \<and> h' = (i, Virsh (agent_args c vm req)) # h"
  by (auto simp: agent_execute_def run_virsh_def ask_def)

lemma read_chunks_served:
  "read_chunks w c i vm handle maximum n contents h = (Inr bs, h') \<Longrightarrow>
     \<exists>chunks. served w c i vm handle maximum contents h chunks h' \<and> bs = contents @ concat (map fst chunks)
       \<and> length chunks \<le> n \<and> length bs \<le> maximum"
proof (induction n arbitrary: contents h)
  case 0
  then show ?case by (simp add: raise_def)
next
  case (Suc n)
  let ?args = "agent_args c vm (chunk_request handle (maximum - length contents + 1))"
  obtain t r bytes where
    world: "world_virsh w i ?args h = Inr t" and r: "parse_read c t = Inr r"
    and bytes: "decode_base64 (rd_buffer r) = Inr bytes" and count: "rd_count r = length bytes"
    and progress: "bytes \<noteq> [] \<or> rd_eof r" and bound: "length (contents @ bytes) \<le> maximum"
    and rest: "(if rd_eof r then ret (contents @ bytes) else read_chunks w c i vm handle maximum n (contents @ bytes))
        ((i, Virsh ?args) # h) = (Inr bs, h')"
    using Suc.prems
    by (auto simp: bind_Inr lift_Inr agent_execute_Inr map_err_Inr ok_or_Inr requested_bytes_def raise_def not_less
        split: if_splits)
  show ?case
  proof (cases "rd_eof r")
    case True
    then show ?thesis using world r bytes count bound rest
      by (intro exI [of _ "[(bytes, True)]"]) (auto simp: ret_Inr Let_def)
  next
    case False
    obtain chunks where "served w c i vm handle maximum (contents @ bytes) ((i, Virsh ?args) # h) chunks h'"
        "bs = (contents @ bytes) @ concat (map fst chunks)" "length chunks \<le> n" "length bs \<le> maximum"
      using Suc.IH [of "contents @ bytes" "(i, Virsh ?args) # h"] rest False by auto
    then show ?thesis using world r bytes count progress False
      by (intro exI [of _ "(bytes, False) # chunks"]) (auto simp: Let_def)
  qed
qed

lemma with_handle_Inr:
  "with_handle w c i vm handle action h = (Inr x, h') \<longleftrightarrow>
     (\<exists>g. action h = (Inr x, g) \<and> guest_close w c i vm handle g = (Inr (), h'))"
  by (auto simp: with_handle_def bind_Inr attempt_def ret_Inr raise_def split: prod.splits sum.splits)

lemma guest_close_event:
  "snd (guest_close w c i vm handle g) = (i, Virsh (agent_args c vm (close_request handle))) # g"
  by (auto simp: guest_close_def bind_def agent_execute_def run_virsh_def ask_def lift_result_def raise_def ret_def
      split: sum.splits prod.splits)

lemma with_handle_event:
  "snd (with_handle w c i vm handle action h)
     = (i, Virsh (agent_args c vm (close_request handle))) # snd (action h)"
  using guest_close_event [of w c i vm handle "snd (action h)"]
  by (auto simp: with_handle_def bind_def attempt_def ret_def raise_def split: prod.splits sum.splits)

section \<open>Handles\<close>

text \<open>
  What one call left behind: no handle was opened, and only open requests and waits were issued; or one
  handle was, and after the requests on it the last command closes it.
\<close>

definition open_step :: "agent_codec \<Rightarrow> nat \<Rightarrow> rust_str \<Rightarrow> rust_str \<Rightarrow> rust_str \<Rightarrow> nat \<times> effect \<Rightarrow> bool" where
  "open_step c i vm path mode e \<longleftrightarrow> e = (i, Virsh (agent_args c vm (open_request path mode))) \<or> e = (i, Waited 25)"

definition opened_at ::
    "env \<Rightarrow> agent_codec \<Rightarrow> nat \<Rightarrow> rust_str \<Rightarrow> rust_str \<Rightarrow> rust_str \<Rightarrow> u64 \<Rightarrow> history \<Rightarrow> history \<Rightarrow> bool" where
  "opened_at w c i vm path mode handle h g \<longleftrightarrow>
     (\<exists>g0 t. g = (i, Virsh (agent_args c vm (open_request path mode))) # g0
        \<and> world_virsh w i (agent_args c vm (open_request path mode)) g0 = Inr t \<and> parse_open c t = Inr handle
        \<and> (\<exists>new. g0 = new @ h \<and> list_all (open_step c i vm path mode) new))"

definition handle_closed ::
    "env \<Rightarrow> agent_codec \<Rightarrow> nat \<Rightarrow> rust_str \<Rightarrow> rust_str \<Rightarrow> rust_str \<Rightarrow> (u64 \<Rightarrow> nat \<times> effect \<Rightarrow> bool) \<Rightarrow> history \<Rightarrow> history \<Rightarrow> bool" where
  "handle_closed w c i vm path mode on_handle h h' \<longleftrightarrow>
     (\<exists>new. h' = new @ h \<and> list_all (open_step c i vm path mode) new)
     \<or> (\<exists>handle g used. opened_at w c i vm path mode handle h g \<and> list_all (on_handle handle) used
          \<and> h' = (i, Virsh (agent_args c vm (close_request handle))) # used @ g)"

lemma guest_open_cases:
  assumes "guest_open w c i vm path mode h = (r, h')"
  shows "(\<exists>e. r = Inl e) \<and> (\<exists>new. h' = new @ h \<and> list_all (open_step c i vm path mode) new)
    \<or> (\<exists>handle. r = Inr handle \<and> opened_at w c i vm path mode handle h h')"
proof (cases "trim path = []")
  case True
  then have "r = Inl (lit ''QGA guest file path must not be empty'')" "h' = h"
    using assms by (simp_all add: guest_open_def raise_def)
  then show ?thesis by simp
next
  case False
  let ?e = "(i, Virsh (agent_args c vm (open_request path mode)))"
  have h': "h' = ?e # h" using assms False
    by (auto simp: guest_open_def bind_def agent_execute_def run_virsh_def ask_def lift_result_def split: sum.splits prod.splits)
  show ?thesis
  proof (cases r)
    case (Inl e)
    then show ?thesis using h' by (auto simp: open_step_def intro!: exI [of _ "[?e]"])
  next
    case (Inr handle)
    then have "opened_at w c i vm path mode handle h h'"
      using assms False by (auto simp: guest_open_def bind_Inr lift_Inr agent_execute_Inr map_err_Inr opened_at_def)
    then show ?thesis using Inr by blast
  qed
qed

lemma opened_after:
  "opened_at w c i vm path mode handle (new @ h) g \<Longrightarrow> list_all (open_step c i vm path mode) new \<Longrightarrow>
     opened_at w c i vm path mode handle h g"
  unfolding opened_at_def by (metis append.assoc list_all_append)

lemma open_for_read_cases:
  assumes "open_for_read w c i vm path h = (r, h')"
  shows "(\<exists>e. r = Inl e) \<and> (\<exists>new. h' = new @ h \<and> list_all (open_step c i vm path (lit ''r'')) new)
    \<or> (\<exists>handle. r = Inr handle \<and> opened_at w c i vm path (lit ''r'') handle h h')"
proof -
  obtain r1 h1 where first: "guest_open w c i vm path (lit ''r'') h = (r1, h1)" by fastforce
  show ?thesis
  proof (cases r1)
    case (Inr handle)
    then show ?thesis using assms first guest_open_cases [OF first]
      by (auto simp: open_for_read_def bind_def attempt_def ret_def)
  next
    case (Inl e)
    obtain new where new: "h1 = new @ h" "list_all (open_step c i vm path (lit ''r'')) new"
      using guest_open_cases [OF first] Inl by auto
    show ?thesis
    proof (cases "sharing_collision e")
      case False
      then show ?thesis using assms first new by (auto simp: Inl open_for_read_def bind_def attempt_def raise_def)
    next
      case True
      let ?new = "(i, Waited 25) # new"
      have w: "list_all (open_step c i vm path (lit ''r'')) ?new" using new(2) by (simp add: open_step_def)
      have "guest_open w c i vm path (lit ''r'') (?new @ h) = (r, h')"
        using assms first True new(1) by (simp add: Inl open_for_read_def bind_def attempt_def tell_def)
      from guest_open_cases [OF this] show ?thesis
      proof (elim disjE conjE exE)
        fix e more
        assume "r = Inl e" "h' = more @ ?new @ h" "list_all (open_step c i vm path (lit ''r'')) more"
        then show ?thesis using w by (auto intro!: exI [of _ "more @ ?new"])
      next
        fix handle
        assume "r = Inr handle" "opened_at w c i vm path (lit ''r'') handle (?new @ h) h'"
        then show ?thesis using opened_after [OF _ w] by blast
      qed
    qed
  qed
qed

text \<open>The requests made on a handle before it is closed.\<close>

definition reading :: "agent_codec \<Rightarrow> nat \<Rightarrow> rust_str \<Rightarrow> u64 \<Rightarrow> nat \<times> effect \<Rightarrow> bool" where
  "reading c i vm handle e \<longleftrightarrow> (\<exists>n. e = (i, Virsh (agent_args c vm (chunk_request handle n))))"

lemma read_chunks_events:
  "\<exists>used. snd (read_chunks w c i vm handle maximum n contents h) = used @ h \<and> list_all (reading c i vm handle) used"
proof (induction n arbitrary: contents h)
  case 0
  then show ?case by (simp add: raise_def)
next
  case (Suc n)
  show ?case
  proof (cases "requested_bytes maximum (length contents)")
    case None
    then show ?thesis by (simp add: bind_def lift_result_def)
  next
    case (Some requested)
    let ?e = "(i, Virsh (agent_args c vm (chunk_request handle requested)))"
    have e: "reading c i vm handle ?e" by (auto simp: reading_def)
    have more: "\<exists>used. snd (read_chunks w c i vm handle maximum n (contents @ bytes) (?e # h)) = used @ h
        \<and> list_all (reading c i vm handle) used" for bytes
    proof -
      obtain used where "snd (read_chunks w c i vm handle maximum n (contents @ bytes) (?e # h)) = used @ ?e # h"
          "list_all (reading c i vm handle) used"
        using Suc.IH by blast
      then show ?thesis using e by (intro exI [of _ "used @ [?e]"]) simp
    qed
    have one: "\<exists>used. ?e # h = used @ h \<and> list_all (reading c i vm handle) used"
      using e by (intro exI [of _ "[?e]"]) simp
    show ?thesis using one more
      by (simp add: Some bind_def lift_result_def agent_execute_def run_virsh_def ask_def raise_def ret_def
          split: sum.split prod.split)
  qed
qed

lemma with_handle_closed:
  assumes "with_handle w c i vm handle action g = (r, h')" and "opened_at w c i vm path mode handle h g"
    and "\<exists>used. snd (action g) = used @ g \<and> list_all (on_handle handle) used"
  shows "handle_closed w c i vm path mode on_handle h h'"
  using assms with_handle_event [of w c i vm handle action g] unfolding handle_closed_def by (metis snd_conv)

text \<open>
  Reading a file of the guest leaks no handle of its agent, in any environment and on every path: either
  nothing was opened, or the last command of the call closes the one handle that was, after nothing but
  reads of that handle.
\<close>

theorem guest_handle_is_closed:
  assumes "read_guest_file w c i vm path maximum h = (r, h')"
  shows "handle_closed w c i vm path (lit ''r'') (reading c i vm) h h'"
proof -
  obtain r1 h1 where first: "open_for_read w c i vm path h = (r1, h1)" by fastforce
  show ?thesis
  proof (cases r1)
    case (Inl e)
    then show ?thesis using assms first open_for_read_cases [OF first]
      by (auto simp: read_guest_file_def bind_def handle_closed_def)
  next
    case (Inr handle)
    then have opened: "opened_at w c i vm path (lit ''r'') handle h h1" using open_for_read_cases [OF first] by auto
    have used: "with_handle w c i vm handle (read_chunks w c i vm handle maximum MAX_GUEST_FILE_READS []) h1 = (r, h')"
      using assms first Inr by (simp add: read_guest_file_def bind_def)
    show ?thesis by (rule with_handle_closed [where on_handle = "reading c i vm", OF used opened read_chunks_events])
  qed
qed

text \<open>
  C21. A publication that is read is complete: it is the concatenation of the chunks the agent served, in
  order, up to the first that marks the end of the file, in at most sixteen reads and within the limit, and
  the agent confirmed that the file was closed. What is cut short, over the limit, inconsistent in its
  length or stalled is an error, never a shorter file.
\<close>

theorem guest_read_is_complete:
  assumes "read_guest_file w c i vm path maximum h = (Inr bytes, h')"
  shows "length bytes \<le> maximum
    \<and> (\<exists>handle g chunks g'. opened_at w c i vm path (lit ''r'') handle h g
         \<and> served w c i vm handle maximum [] g chunks g' \<and> length chunks \<le> MAX_GUEST_FILE_READS
         \<and> bytes = concat (map fst chunks)
         \<and> guest_close w c i vm handle g' = (Inr (), h'))"
proof -
  obtain handle g g' where first: "open_for_read w c i vm path h = (Inr handle, g)"
    and chunks: "read_chunks w c i vm handle maximum MAX_GUEST_FILE_READS [] g = (Inr bytes, g')"
    and closed: "guest_close w c i vm handle g' = (Inr (), h')"
    using assms by (auto simp: read_guest_file_def bind_Inr with_handle_Inr)
  have "opened_at w c i vm path (lit ''r'') handle h g" using open_for_read_cases [OF first] by auto
  moreover obtain cs where "served w c i vm handle maximum [] g cs g'" "bytes = [] @ concat (map fst cs)"
      "length cs \<le> MAX_GUEST_FILE_READS" "length bytes \<le> maximum"
    using read_chunks_served [OF chunks] by blast
  ultimately show ?thesis using closed by auto
qed

section \<open>A guest with one file\<close>

text \<open>An agent that serves \<open>abc\<close> in one chunk.\<close>

definition sample_agent :: agent_codec where
  "sample_agent =
     \<lparr>parse_open = (\<lambda>_. Inr 7),
      parse_read = (\<lambda>_. Inr \<lparr>rd_count = 3, rd_buffer = lit ''YWJj'', rd_eof = True\<rparr>),
      parse_write = (\<lambda>_. Inr 0),
      parse_value = (\<lambda>_. Inr (JObject [(lit ''return'', JObject [])])),
      value_text = (\<lambda>_. lit ''q'')\<rparr>"

lemma sample_read:
  "fst (read_guest_file answering_env sample_agent 0 (lit ''win11'') (lit ''t.json'') 16 []) = Inr [97, 98, 99]"
  by code_simp

theorem guest_handle_is_closed_witness:
  "handle_closed answering_env sample_agent 0 (lit ''win11'') (lit ''t.json'') (lit ''r'') (reading sample_agent 0 (lit ''win11''))
     [] (snd (read_guest_file answering_env sample_agent 0 (lit ''win11'') (lit ''t.json'') 16 []))"
  by (rule guest_handle_is_closed) (rule prod.collapse [symmetric])

theorem guest_read_is_complete_witness:
  "\<exists>handle g chunks g'. served answering_env sample_agent 0 (lit ''win11'') handle 16 [] g chunks g'
     \<and> concat (map fst chunks) = [97, 98, 99]"
proof -
  let ?x = "read_guest_file answering_env sample_agent 0 (lit ''win11'') (lit ''t.json'') 16 []"
  have "?x = (Inr [97, 98, 99], snd ?x)" using sample_read by (metis prod.collapse)
  from guest_read_is_complete [OF this] show ?thesis by metis
qed

end
