(* ===== verification/Bounded_Command.thy ===== *)
theory Bounded_Command
  imports Guest_Effects
begin

text \<open>
  Child processes of the host: \<open>virsh.rs\<close>. A command runs in its own process group until a deadline, with
  both output streams read without blocking and bounded; whatever happens after the spawn, the group is
  killed and the child reaped. What the process, the clock and the operating system answer is an arbitrary
  function of what happened before.
\<close>

section \<open>The world of one command\<close>

datatype io_kind = TimedOut | WouldBlock | Interrupted | InvalidInput | NoSuchProcess | OtherError

record io_error =
  io_kind :: io_kind
  io_text :: rust_str

text \<open>A read gives the end of the stream, some bytes, or an error.\<close>

datatype read_answer = ReadBytes "byte list" | ReadFails io_error

datatype proc_event =
    AskedTime
  | Spawned
  | NonBlocking bool
  | ReadFrom bool
  | TriedWait
  | Slept int
  | KilledChild
  | KilledGroup
  | Reaped

type_synonym proc_history = "proc_event list"

record exit_status =
  st_success :: bool
  st_text :: rust_str

record cmd_output =
  o_status :: exit_status
  o_stdout :: "byte list"
  o_stderr :: "byte list"

record proc_env =
  p_instant :: "proc_history \<Rightarrow> int"
  p_limit :: int
  p_spawn :: "proc_history \<Rightarrow> io_error + unit"
  p_nonblocking :: "bool \<Rightarrow> proc_history \<Rightarrow> io_error option"
  p_read :: "bool \<Rightarrow> proc_history \<Rightarrow> read_answer"
  p_try_wait :: "proc_history \<Rightarrow> io_error + exit_status option"
  p_kill :: "proc_history \<Rightarrow> io_error option"
  p_wait :: "proc_history \<Rightarrow> io_error + exit_status"

type_synonym 'a proc = "(proc_history, io_error failure, 'a) prog"

definition proc_ask :: "proc_event \<Rightarrow> (proc_history \<Rightarrow> io_error + 'a) \<Rightarrow> 'a proc" where
  "proc_ask e answer = (\<lambda>h. (map_err Failed (answer h), e # h))"

definition other_error :: "rust_str \<Rightarrow> io_error" where
  "other_error message = \<lparr>io_kind = OtherError, io_text = message\<rparr>"

definition proc_now :: "proc_env \<Rightarrow> int proc" where
  "proc_now w = proc_ask AskedTime (\<lambda>h. Inr (p_instant w h))"

section \<open>Reading\<close>

text \<open>One chunk of one stream: whether it has ended, and what has been read so far.\<close>

definition read_chunk :: "proc_env \<Rightarrow> bool \<Rightarrow> int \<Rightarrow> byte list \<Rightarrow> (bool \<times> byte list) proc" where
  "read_chunk w stderr limit bytes =
     bind (proc_ask (ReadFrom stderr) (\<lambda>h. Inr (p_read w stderr h))) (\<lambda>answer.
       case answer of
         ReadBytes chunk \<Rightarrow>
           if chunk = [] then ret (True, bytes)
           else if limit < int (length bytes + length chunk)
             then raise (Failed (other_error (lit ''command output exceeds '' @ dec (nat limit) @ lit '' byte stream limit'')))
           else ret (False, bytes @ chunk)
       | ReadFails e \<Rightarrow>
           if io_kind e \<in> {WouldBlock, Interrupted} then ret (False, bytes) else raise (Failed e))"

record capture =
  c_out :: "byte list"
  c_err :: "byte list"
  c_out_done :: bool
  c_err_done :: bool
  c_status :: "exit_status option"

definition initial_capture :: "bool \<Rightarrow> capture" where
  "initial_capture interactive =
     \<lparr>c_out = [], c_err = [], c_out_done = False, c_err_done = interactive, c_status = None\<rparr>"

text \<open>One turn: the deadline, a chunk of each open stream, the status; the outputs when all have ended.\<close>

definition read_stdout :: "proc_env \<Rightarrow> int \<Rightarrow> capture \<Rightarrow> capture proc" where
  "read_stdout w limit c =
     (if c_out_done c then ret c
      else bind (read_chunk w False limit (c_out c)) (\<lambda>(ended, bytes). ret (c\<lparr>c_out_done := ended, c_out := bytes\<rparr>)))"

definition read_stderr :: "proc_env \<Rightarrow> bool \<Rightarrow> int \<Rightarrow> capture \<Rightarrow> capture proc" where
  "read_stderr w interactive limit c =
     (if c_err_done c \<or> interactive then ret c
      else bind (read_chunk w True limit (c_err c)) (\<lambda>(ended, bytes). ret (c\<lparr>c_err_done := ended, c_err := bytes\<rparr>)))"

definition poll_status :: "proc_env \<Rightarrow> capture \<Rightarrow> capture proc" where
  "poll_status w c =
     (if c_status c \<noteq> None then ret c
      else bind (proc_ask TriedWait (p_try_wait w)) (\<lambda>status. ret (c\<lparr>c_status := status\<rparr>)))"

definition completed :: "capture \<Rightarrow> cmd_output option" where
  "completed c =
     (if c_out_done c \<and> c_err_done c
        then map_option (\<lambda>status. \<lparr>o_status = status, o_stdout = c_out c, o_stderr = c_err c\<rparr>) (c_status c)
      else None)"

definition capture_turn :: "proc_env \<Rightarrow> bool \<Rightarrow> int \<Rightarrow> int \<Rightarrow> capture \<Rightarrow> capture proc" where
  "capture_turn w interactive limit deadline c =
     bind (proc_now w) (\<lambda>now.
       if deadline \<le> now then raise (Failed \<lparr>io_kind = TimedOut, io_text = lit ''command timed out''\<rparr>)
       else bind (read_stdout w limit c) (\<lambda>c. bind (read_stderr w interactive limit c) (poll_status w)))"

fun capture_loop :: "proc_env \<Rightarrow> nat \<Rightarrow> bool \<Rightarrow> int \<Rightarrow> int \<Rightarrow> capture \<Rightarrow> cmd_output proc" where
  "capture_loop w 0 interactive limit deadline c = raise OutOfFuel"
| "capture_loop w (Suc n) interactive limit deadline c =
     bind (capture_turn w interactive limit deadline c) (\<lambda>c.
       case completed c of
         Some out \<Rightarrow> ret out
       | None \<Rightarrow>
           bind (proc_now w) (\<lambda>now.
           bind (proc_ask (Slept (min 1 (max 0 (deadline - now)))) (\<lambda>h. Inr ())) (\<lambda>_.
             capture_loop w n interactive limit deadline c)))"

section \<open>Capturing the output of a command\<close>

definition output_limit :: "bool \<Rightarrow> int" where
  "output_limit interactive = (if interactive then 64 * 1024 * 1024 else 4 * 1024 * 1024)"

definition set_nonblocking :: "proc_env \<Rightarrow> bool \<Rightarrow> unit proc" where
  "set_nonblocking w stderr =
     proc_ask (NonBlocking stderr) (\<lambda>h. case p_nonblocking w stderr h of None \<Rightarrow> Inr () | Some e \<Rightarrow> Inl e)"

definition capture_streams :: "proc_env \<Rightarrow> nat \<Rightarrow> bool \<Rightarrow> int \<Rightarrow> cmd_output proc" where
  "capture_streams w n interactive deadline =
     bind (set_nonblocking w False) (\<lambda>_.
     bind (if interactive then ret () else set_nonblocking w True) (\<lambda>_.
       capture_loop w n interactive (output_limit interactive) deadline (initial_capture interactive)))"

text \<open>Killing the group of a process that is gone is no error.\<close>

definition kill_process :: "proc_env \<Rightarrow> bool \<Rightarrow> io_error option proc" where
  "kill_process w interactive =
     (if interactive then proc_ask KilledChild (\<lambda>h. Inr (p_kill w h))
      else proc_ask KilledGroup (\<lambda>h. Inr (case p_kill w h of
        None \<Rightarrow> None | Some e \<Rightarrow> if io_kind e = NoSuchProcess then None else Some e)))"

definition cleanup_error :: "io_error \<Rightarrow> io_error option \<Rightarrow> io_error + exit_status \<Rightarrow> io_error" where
  "cleanup_error error kill_error reaped =
     \<lparr>io_kind = io_kind error,
      io_text = io_text error
        @ (case kill_error of None \<Rightarrow> [] | Some e \<Rightarrow> lit ''; process-group cleanup failed: '' @ io_text e)
        @ (case reaped of Inr _ \<Rightarrow> [] | Inl e \<Rightarrow> lit ''; reap failed: '' @ io_text e)\<rparr>"

definition capture_output :: "proc_env \<Rightarrow> nat \<Rightarrow> int \<Rightarrow> bool \<Rightarrow> cmd_output proc" where
  "capture_output w n timeout interactive =
     bind (proc_now w) (\<lambda>t.
       if p_limit w < t + timeout
         then raise (Failed \<lparr>io_kind = InvalidInput, io_text = lit ''command timeout is too large''\<rparr>)
       else
         bind (proc_ask Spawned (p_spawn w)) (\<lambda>_.
         bind (try_failed (capture_streams w n interactive (t + timeout))) (\<lambda>result.
         bind (kill_process w interactive) (\<lambda>kill_error.
         bind (try_failed (proc_ask Reaped (p_wait w))) (\<lambda>reaped.
           case result of
             Inl error \<Rightarrow> raise (Failed (cleanup_error error kill_error reaped))
           | Inr out \<Rightarrow>
               (case kill_error of
                  Some e \<Rightarrow> raise (Failed e)
                | None \<Rightarrow> bind (lift_result (map_err Failed reaped)) (\<lambda>_. ret out)))))))"

definition bounded_output :: "proc_env \<Rightarrow> nat \<Rightarrow> int \<Rightarrow> cmd_output proc" where
  "bounded_output w n timeout = capture_output w n timeout False"

definition bounded_interactive_output :: "proc_env \<Rightarrow> nat \<Rightarrow> int \<Rightarrow> cmd_output proc" where
  "bounded_interactive_output w n timeout = capture_output w n timeout True"

section \<open>Commands of virsh\<close>

datatype virsh_error =
    VirshStart rust_str
  | VirshTimeout int
  | VirshFailed rust_str rust_str
  | VirshInvalidUtf8 rust_str
  | VirshAuthorization rust_str

definition read_only :: "rust_str list \<Rightarrow> bool" where
  "read_only arguments \<longleftrightarrow>
     arguments \<noteq> [] \<and> hd arguments \<in> set [lit ''dumpxml'', lit ''domstate'', lit ''domuuid'', lit ''version'']"

text \<open>The arguments of the process, after the binary.\<close>

definition virsh_command :: "rust_str \<Rightarrow> rust_str list \<Rightarrow> rust_str list" where
  "virsh_command connection arguments =
     [lit ''-c'', connection] @ (if read_only arguments then [lit ''--readonly''] else []) @ arguments"

definition event_command :: "rust_str \<Rightarrow> rust_str list" where
  "event_command connection =
     virsh_command connection [lit ''event'', lit ''--event'', lit ''memory-device-size-change'', lit ''--loop'']"

text \<open>The result of one \<open>virsh\<close> process; decoding UTF-8 is a parameter.\<close>

definition process_result ::
    "(byte list \<Rightarrow> rust_str + rust_str) \<Rightarrow> (byte list \<Rightarrow> rust_str) \<Rightarrow> int \<Rightarrow> io_error + cmd_output \<Rightarrow> virsh_error + rust_str" where
  "process_result utf8 lossy timeout r =
     (case r of
        Inl e \<Rightarrow> Inl (if io_kind e = TimedOut then VirshTimeout timeout else VirshStart (io_text e))
      | Inr out \<Rightarrow>
          if \<not> st_success (o_status out) then Inl (VirshFailed (st_text (o_status out)) (trim (lossy (o_stderr out))))
          else map_err VirshInvalidUtf8 (utf8 (o_stdout out)))"

section \<open>What a turn does\<close>

lemma wp_proc_ask [wp_simps]:
  "wp (proc_ask e answer) Q E h = (case answer h of Inl x \<Rightarrow> E (Failed x) (e # h) | Inr x \<Rightarrow> Q x (e # h))"
  by (simp add: wp_def proc_ask_def split: sum.splits)

text \<open>Time never goes back, and sleeping takes at least the time asked for.\<close>

definition steady :: "proc_env \<Rightarrow> bool" where
  "steady w \<longleftrightarrow> (\<forall>h e. p_instant w h \<le> p_instant w (e # h)) \<and> (\<forall>h d. p_instant w h + d \<le> p_instant w (Slept d # h))"

definition within :: "int \<Rightarrow> capture \<Rightarrow> bool" where
  "within limit c \<longleftrightarrow> int (length (c_out c)) \<le> limit \<and> int (length (c_err c)) \<le> limit"

lemma within_simps [simp]:
  "within limit (c\<lparr>c_out_done := b, c_out := bs\<rparr>) \<longleftrightarrow> int (length bs) \<le> limit \<and> int (length (c_err c)) \<le> limit"
  "within limit (c\<lparr>c_err_done := b, c_err := bs\<rparr>) \<longleftrightarrow> int (length (c_out c)) \<le> limit \<and> int (length bs) \<le> limit"
  "within limit (c\<lparr>c_status := x\<rparr>) = within limit c"
  by (simp_all add: within_def)

text \<open>An answer of the world is never an execution that was cut.\<close>

abbreviation not_cut :: "io_error failure \<Rightarrow> bool" where
  "not_cut e \<equiv> e \<noteq> OutOfFuel"

lemma read_chunk_within:
  "int (length bytes) \<le> limit \<Longrightarrow>
     wp (read_chunk w stderr limit bytes) (\<lambda>(ended, bs) h'. int (length bs) \<le> limit \<and> (\<exists>e. h' = e # h)) (\<lambda>e h'. not_cut e) h"
  by (auto simp: read_chunk_def wp_simps split: read_answer.split)

text \<open>The histories a turn can leave: a few more events, in which time has not gone back.\<close>

definition later :: "proc_env \<Rightarrow> proc_history \<Rightarrow> proc_history \<Rightarrow> bool" where
  "later w h h' \<longleftrightarrow> (steady w \<longrightarrow> p_instant w h \<le> p_instant w h')"

lemma later_refl: "later w h h"
  by (simp add: later_def)

lemma later_step: "later w h h' \<Longrightarrow> later w h (e # h')"
  unfolding later_def steady_def by (meson order_trans)

definition bounded_at :: "proc_env \<Rightarrow> int \<Rightarrow> proc_history \<Rightarrow> capture \<Rightarrow> proc_history \<Rightarrow> bool" where
  "bounded_at w limit h c h' \<longleftrightarrow> within limit c \<and> later w h h'"

abbreviation ends_bounded :: "proc_env \<Rightarrow> int \<Rightarrow> proc_history \<Rightarrow> capture proc \<Rightarrow> proc_history \<Rightarrow> bool" where
  "ends_bounded w limit h m h1 \<equiv> wp m (bounded_at w limit h) (\<lambda>e _. not_cut e) h1"

lemma read_stdout_bounded: "bounded_at w limit h c h1 \<Longrightarrow> ends_bounded w limit h (read_stdout w limit c) h1"
  by (auto simp: read_stdout_def wp_simps bounded_at_def within_def intro: later_step intro!: wp_mono [OF read_chunk_within])

lemma read_stderr_bounded: "bounded_at w limit h c h1 \<Longrightarrow> ends_bounded w limit h (read_stderr w interactive limit c) h1"
  by (auto simp: read_stderr_def wp_simps bounded_at_def within_def intro: later_step intro!: wp_mono [OF read_chunk_within])

lemma poll_status_bounded: "bounded_at w limit h c h1 \<Longrightarrow> ends_bounded w limit h (poll_status w c) h1"
  by (auto simp: poll_status_def wp_simps bounded_at_def later_step split: sum.split)

lemma capture_turn_bounded:
  assumes "within limit c"
  shows "wp (capture_turn w interactive limit deadline c)
    (\<lambda>c' h'. bounded_at w limit h c' h' \<and> \<not> deadline \<le> p_instant w h) (\<lambda>e _. not_cut e) h"
proof (cases "deadline \<le> p_instant w h")
  case True
  then show ?thesis by (simp add: capture_turn_def proc_now_def wp_simps)
next
  case False
  have "bounded_at w limit h c (AskedTime # h)"
    using assms by (simp add: bounded_at_def later_step later_refl)
  then have "ends_bounded w limit h (read_stdout w limit c) (AskedTime # h)" by (rule read_stdout_bounded)
  then have "wp (bind (read_stdout w limit c) (\<lambda>c. bind (read_stderr w interactive limit c) (poll_status w)))
      (bounded_at w limit h) (\<lambda>e _. not_cut e) (AskedTime # h)"
    unfolding wp_bind
    by (rule wp_mono) (auto intro!: wp_mono [OF read_stderr_bounded] poll_status_bounded)
  then show ?thesis using False by (simp add: capture_turn_def proc_now_def wp_simps)
qed

text \<open>The loop: its outputs are bounded, and it is cut only when the clock stands still.\<close>

lemma slept:
  assumes "steady w" and "later w h h'" and "d = min 1 (max 0 (deadline - p_instant w h'))"
  shows "p_instant w h + 1 \<le> p_instant w (Slept d # AskedTime # h') \<or> deadline \<le> p_instant w (Slept d # AskedTime # h')"
proof -
  have "p_instant w h \<le> p_instant w h'" using assms(1,2) by (simp add: later_def)
  moreover have "p_instant w h' \<le> p_instant w (AskedTime # h')"
      "p_instant w (AskedTime # h') + d \<le> p_instant w (Slept d # AskedTime # h')"
    using assms(1) by (simp_all add: steady_def)
  ultimately show ?thesis using assms(3) by linarith
qed

definition small_output :: "int \<Rightarrow> cmd_output \<Rightarrow> bool" where
  "small_output limit out \<longleftrightarrow> int (length (o_stdout out)) \<le> limit \<and> int (length (o_stderr out)) \<le> limit"

definition cut_early :: "proc_env \<Rightarrow> nat \<Rightarrow> int \<Rightarrow> proc_history \<Rightarrow> io_error failure \<Rightarrow> bool" where
  "cut_early w n deadline h e \<longleftrightarrow> (e = OutOfFuel \<and> steady w \<longrightarrow> n = 0 \<or> p_instant w h + int n - 1 < deadline)"

lemma capture_loop_bounded:
  "within limit c \<Longrightarrow>
     wp (capture_loop w n interactive limit deadline c) (\<lambda>out _. small_output limit out) (\<lambda>e _. cut_early w n deadline h e) h"
proof (induction n arbitrary: c h)
  case 0
  then show ?case by (simp add: wp_simps cut_early_def)
next
  case (Suc n)
  have turn: "wp (case completed c' of
          Some out \<Rightarrow> ret out
        | None \<Rightarrow>
            bind (proc_now w) (\<lambda>now.
            bind (proc_ask (Slept (min 1 (max 0 (deadline - now)))) (\<lambda>h. Inr ())) (\<lambda>_.
              capture_loop w n interactive limit deadline c')))
        (\<lambda>out _. small_output limit out) (\<lambda>e _. cut_early w (Suc n) deadline h e) h'"
    if c': "bounded_at w limit h c' h'" and before: "\<not> deadline \<le> p_instant w h" for c' h'
  proof (cases "completed c'")
    case (Some out)
    then have "small_output limit out"
      using c' by (auto simp: completed_def bounded_at_def within_def small_output_def split: if_splits)
    then show ?thesis by (simp add: Some wp_simps)
  next
    case None
    let ?d = "min 1 (max 0 (deadline - p_instant w h'))"
    let ?h = "Slept ?d # AskedTime # h'"
    have "cut_early w (Suc n) deadline h e" if "cut_early w n deadline ?h e" for e
      using that slept [of w h h' ?d deadline] c' before by (auto simp: cut_early_def bounded_at_def)
    moreover have "wp (capture_loop w n interactive limit deadline c')
        (\<lambda>out _. small_output limit out) (\<lambda>e _. cut_early w n deadline ?h e) ?h"
      using Suc.IH c' by (simp add: bounded_at_def)
    ultimately have "wp (capture_loop w n interactive limit deadline c')
        (\<lambda>out _. small_output limit out) (\<lambda>e _. cut_early w (Suc n) deadline h e) ?h"
      by (blast intro: wp_mono)
    then show ?thesis by (simp add: None proc_now_def wp_simps)
  qed
  have "cut_early w (Suc n) deadline h e" if "not_cut e" for e using that by (simp add: cut_early_def)
  then show ?case
    unfolding capture_loop.simps wp_bind by (intro wp_mono [OF capture_turn_bounded [OF Suc.prems]] turn) auto
qed

section \<open>What a command leaves behind\<close>

definition killed :: "bool \<Rightarrow> proc_event" where
  "killed interactive = (if interactive then KilledChild else KilledGroup)"

definition cleaned_up :: "proc_env \<Rightarrow> bool \<Rightarrow> proc_history \<Rightarrow> proc_history \<Rightarrow> bool" where
  "cleaned_up w interactive h h' \<longleftrightarrow>
     h' = AskedTime # h \<or> h' = Spawned # AskedTime # h \<and> (\<exists>e. p_spawn w (AskedTime # h) = Inl e)
     \<or> (\<exists>g. h' = Reaped # killed interactive # g)"

lemma initial_within: "0 \<le> limit \<Longrightarrow> within limit (initial_capture interactive)"
  by (simp add: within_def initial_capture_def)

lemma output_limit_pos: "0 \<le> output_limit interactive"
  by (simp add: output_limit_def)

lemma streams_bounded:
  "wp (capture_streams w n interactive deadline) (\<lambda>out _. small_output (output_limit interactive) out)
     (\<lambda>e _. cut_early w n deadline h e) h"
proof -
  have cut: "cut_early w n deadline h e" if "later w h h'" "cut_early w n deadline h' e" for h' e
    using that by (auto simp: cut_early_def later_def)
  have loop: "wp (capture_loop w n interactive (output_limit interactive) deadline (initial_capture interactive))
      (\<lambda>out _. small_output (output_limit interactive) out) (\<lambda>e _. cut_early w n deadline h e) h'" if "later w h h'" for h'
    using that cut
    by (intro wp_mono [OF capture_loop_bounded [OF initial_within [OF output_limit_pos]]]) auto
  have "cut_early w n deadline h (Failed e)" for e by (simp add: cut_early_def)
  moreover have "later w h (NonBlocking False # h)" "later w h (NonBlocking True # NonBlocking False # h)"
    by (intro later_step later_refl)+
  note loop [OF this(1)] loop [OF this(2)]
  ultimately show ?thesis
    by (cases interactive) (auto simp: capture_streams_def set_nonblocking_def wp_simps split: option.split)
qed

lemma capture_output_bounded:
  "wp (capture_output w n timeout interactive)
     (\<lambda>out h'. small_output (output_limit interactive) out \<and> cleaned_up w interactive h h')
     (\<lambda>e h'. (not_cut e \<longrightarrow> cleaned_up w interactive h h') \<and> (steady w \<and> nat timeout < n \<longrightarrow> not_cut e)) h"
proof -
  let ?deadline = "p_instant w h + timeout"
  let ?h = "Spawned # AskedTime # h"
  have cleaned: "cleaned_up w interactive h (Reaped # killed interactive # g)" for g
    by (simp add: cleaned_up_def)
  have rest: "wp (bind (kill_process w interactive) (\<lambda>kill_error.
         bind (try_failed (proc_ask Reaped (p_wait w))) (\<lambda>reaped.
           case result of
             Inl error \<Rightarrow> raise (Failed (cleanup_error error kill_error reaped))
           | Inr out \<Rightarrow>
               (case kill_error of
                  Some e \<Rightarrow> raise (Failed e)
                | None \<Rightarrow> bind (lift_result (map_err Failed reaped)) (\<lambda>_. ret out)))))
      (\<lambda>out h'. result = Inr out \<and> cleaned_up w interactive h h') (\<lambda>e h'. not_cut e \<and> cleaned_up w interactive h h') g" for result g
    using cleaned
    by (cases interactive; cases result)
      (auto simp: kill_process_def killed_def wp_simps map_err_Inr split: sum.split option.split)
  have start: "p_instant w h \<le> p_instant w ?h" if "steady w"
    using that by (meson order_trans steady_def)
  have cut: "not_cut e \<or> (steady w \<longrightarrow> n \<le> nat timeout)" if "cut_early w n ?deadline ?h e" for e
    using that start by (auto simp: cut_early_def)
  have streams: "wp (try_failed (capture_streams w n interactive ?deadline))
      (\<lambda>result _. \<forall>out. result = Inr out \<longrightarrow> small_output (output_limit interactive) out)
      (\<lambda>e _. e = OutOfFuel \<and> (steady w \<longrightarrow> n \<le> nat timeout)) ?h"
    unfolding wp_try_failed
    by (rule wp_mono [OF streams_bounded]) (use cut in \<open>auto split: failure.split\<close>)
  have all: "wp (bind (try_failed (capture_streams w n interactive ?deadline)) (\<lambda>result.
         bind (kill_process w interactive) (\<lambda>kill_error.
         bind (try_failed (proc_ask Reaped (p_wait w))) (\<lambda>reaped.
           case result of
             Inl error \<Rightarrow> raise (Failed (cleanup_error error kill_error reaped))
           | Inr out \<Rightarrow>
               (case kill_error of
                  Some e \<Rightarrow> raise (Failed e)
                | None \<Rightarrow> bind (lift_result (map_err Failed reaped)) (\<lambda>_. ret out))))))
      (\<lambda>out h'. small_output (output_limit interactive) out \<and> cleaned_up w interactive h h')
      (\<lambda>e h'. (not_cut e \<longrightarrow> cleaned_up w interactive h h') \<and> (steady w \<and> nat timeout < n \<longrightarrow> not_cut e)) ?h"
    unfolding wp_bind [of "try_failed (capture_streams w n interactive ?deadline)"]
    by (rule wp_mono [OF streams]) (auto intro: wp_mono [OF rest])
  show ?thesis
  proof (cases "p_limit w < ?deadline")
    case True
    then show ?thesis by (simp add: capture_output_def proc_now_def wp_simps cleaned_up_def)
  next
    case False
    have "p_spawn w (AskedTime # h) = Inl e \<Longrightarrow> cleaned_up w interactive h ?h" for e by (simp add: cleaned_up_def)
    then show ?thesis
      unfolding capture_output_def proc_now_def wp_bind [of "proc_ask AskedTime _"] wp_proc_ask sum.case wp_if
        wp_bind [of "proc_ask Spawned _"]
      using False all by (simp split: sum.split)
  qed
qed

text \<open>
  C22. However a command goes, once it has been spawned its process group is killed and the child reaped
  before the call returns, in this order and as its last two actions: on success, on a timeout, when a
  stream cannot be read or exceeds the limit, and for descendants that hold its pipes open after it has
  exited. What it returns is bounded for either stream.
\<close>

theorem command_is_cleaned_up:
  assumes "capture_output w n timeout interactive h = (r, h')" and "r \<noteq> Inl OutOfFuel"
  shows "cleaned_up w interactive h h'
    \<and> (\<forall>out. r = Inr out \<longrightarrow> small_output (output_limit interactive) out)"
  using capture_output_bounded [of w n timeout interactive h] assms
  by (cases r) (auto simp: wp_def)

text \<open>
  C23. A command always ends: on a clock that does not go back and that sleeping advances, whatever the
  process does, one more turn than the milliseconds of the timeout is enough.
\<close>

theorem command_terminates:
  assumes "steady w" and "nat timeout < n"
  shows "fst (capture_output w n timeout interactive h) \<noteq> Inl OutOfFuel"
  using capture_output_bounded [of w n timeout interactive h] assms
  by (cases "capture_output w n timeout interactive h") (auto simp: wp_def split: sum.splits)

section \<open>A command that prints one line\<close>

fun slept_time :: "proc_history \<Rightarrow> int" where
  "slept_time [] = 0"
| "slept_time (e # h) = (case e of Slept d \<Rightarrow> max 0 d | _ \<Rightarrow> 0) + slept_time h"

definition sample_proc :: proc_env where
  "sample_proc =
     \<lparr>p_instant = slept_time, p_limit = 1000, p_spawn = (\<lambda>_. Inr ()), p_nonblocking = (\<lambda>_ _. None),
      p_read = (\<lambda>stderr h. ReadBytes (if stderr \<or> ReadFrom False \<in> set h then [] else [104, 105])),
      p_try_wait = (\<lambda>_. Inr (Some \<lparr>st_success = True, st_text = lit ''exit status: 0''\<rparr>)),
      p_kill = (\<lambda>_. Some \<lparr>io_kind = NoSuchProcess, io_text = lit ''No such process''\<rparr>),
      p_wait = (\<lambda>_. Inr \<lparr>st_success = True, st_text = lit ''exit status: 0''\<rparr>)\<rparr>"

lemma sample_steady: "steady sample_proc"
  by (auto simp: steady_def sample_proc_def split: proc_event.split)

theorem command_is_cleaned_up_witness:
  "\<exists>out h'. capture_output sample_proc 11 10 False [] = (Inr out, h') \<and> cleaned_up sample_proc False [] h'
     \<and> o_stdout out = [104, 105]"
proof -
  let ?x = "capture_output sample_proc 11 10 False []"
  have "map_err (\<lambda>_. ()) (fst ?x) = Inr \<lparr>o_status = \<lparr>st_success = True, st_text = lit ''exit status: 0''\<rparr>,
      o_stdout = [104, 105], o_stderr = []\<rparr>"
    by code_simp
  then obtain out where out: "fst ?x = Inr out" "o_stdout out = [104, 105]" by (auto simp: map_err_Inr)
  have x: "?x = (fst ?x, snd ?x)" by simp
  have "cleaned_up sample_proc False [] (snd ?x)" using command_is_cleaned_up [OF x] out(1) by simp
  then show ?thesis using out x by (intro exI [of _ out] exI [of _ "snd ?x"]) simp
qed

theorem command_terminates_witness:
  "fst (capture_output sample_proc 11 10 True []) \<noteq> Inl OutOfFuel"
  by (rule command_terminates [OF sample_steady]) simp

end
