(* ===== verification/Spec2Isabelle.thy ===== *)
theory Spec2Isabelle
  imports Guest_Policy Command_Safety Command_Resolution Runtime_Bounds Guest_Durability Scrub_Invariance Service_Lifecycle Guest_Files Bounded_Command
begin

text \<open>
  A verification development of the virtio-mem memory controller: a Windows guest service that asks for
  memory, and a host daemon that grants, executes and accounts for those requests by resizing the
  virtio-mem devices of libvirt domains.

  \<^bold>\<open>The program.\<close> The guest samples its memory, estimates the device size it needs
  (\<open>target_controller.rs\<close>), turns the difference into one request at a time (\<open>guest_policy.rs\<close>) and
  publishes it with its telemetry (\<open>demand.rs\<close>). The host daemon runs one controller per VM in rounds
  (\<open>host/src/runtime.rs\<close>): it reads the live device from the domain XML (\<open>xml_source.rs\<close>,
  \<open>virtio_mem_xml.rs\<close>), resolves or follows the command it has recorded, reads the guest's request
  through the guest channel (\<open>guest_channel.rs\<close>), admits it against a durable journal
  (\<open>memory_request.rs\<close>, \<open>checkpoint.rs\<close>), divides the shared pool among the VMs (\<open>pool.rs\<close>), grants what
  is free, records the intent durably, and resizes the device through \<open>virsh\<close> behind a guard
  (\<open>resize_sink.rs\<close>, \<open>compatibility.rs\<close>, \<open>host_memory.rs\<close>). Whatever it cannot account for latches the
  VM until an operator clears it. Settings (\<open>settings.rs\<close>, \<open>config.rs\<close>, \<open>windows_service_config.rs\<close>)
  and the status report (\<open>controller_status.rs\<close>) belong to the administrator.

  \<^bold>\<open>Conventions.\<close> A \<open>u64\<close> is a 64-bit word whose arithmetic wraps as in a release build; the checked and
  saturating operations of the code have their own definitions with their meaning over natural numbers
  (\<open>Prelude\<close>). A \<open>String\<close> is the list of its Unicode scalar values, an \<open>Instant\<close> and a \<open>Duration\<close> are
  integers in milliseconds. A \<open>Result\<close> is a sum with the error on the left; a Rust function that
  changes state and may fail returns both. JSON encoding, SHA-256, the XML tokenizer, file operations
  and child processes are parameters of the model or answers of the environment.

  \<^bold>\<open>The theories, in the order they build on each other.\<close>

  \<^item> \<open>Prelude\<close>, \<open>Rust_Strings\<close>: words, results, the locale \<open>block_floor\<close> for rounding to a block size
    (interpreted for the pool, the device and the grants), and the string operations of the code.
  \<^item> \<open>Units\<close>, \<open>Virtio_Mem\<close>, \<open>Compatibility\<close>, \<open>Host_Memory\<close>, \<open>Virtio_Mem_Xml\<close>: sizes as administrators
    write them, the device geometry and its validation, the evidence a resize needs, the headroom gate,
    and the domain XML parser, proved equal to parsing each device on its own.
  \<^item> \<open>Memory_Request\<close>, \<open>Pool\<close>: the requests, results and the admission journal, and one round of the
    pool. The theorems show in-order admission over every history and that a round never overcommits.
  \<^item> \<open>Telemetry\<close>, \<open>Target_Controller\<close>, \<open>Target_History\<close>, \<open>Guest_Policy\<close>, \<open>Demand\<close>: the guest. A lowered
    target rests on a full window of evidence, a request keeps every bound, and one request is issued at
    a time over every history of polls and restarts.
  \<^item> \<open>Windows_Service_Config\<close>, \<open>Settings\<close>, \<open>Host_Config\<close>, \<open>Controller_Status\<close>: configuration and status.
  \<^item> \<open>Checkpoint\<close>: the durable control state, its file, opening and the operator's \<open>clear-latch\<close>.
  \<^item> \<open>Effects\<close>: programs with errors on a state, their weakest preconditions and triples, and the
    environment. Every interaction is an event of a history and every answer of the world an arbitrary
    function of the history before it, so a theorem for every environment covers every behaviour of the
    guests, of libvirt, of the disk and of the clocks, and every moment of a stop request.
  \<^item> \<open>Resize_Sink\<close>, \<open>Guest_Channel\<close>: the adapters. The locale \<open>guarded_resize\<close> is what the daemon may
    assume of a resize: a rejection sent nothing, everything else sent exactly the one command asked for.
  \<^item> \<open>Runtime_State\<close>, \<open>Runtime\<close>, \<open>Host_Loop\<close>: the daemon, operation by operation, with the round and
    the loop. \<open>run\<close> takes the number of rounds it may make; a theorem about every number of rounds holds
    at every moment of a run of any length, so no bound is assumed.
  \<^item> \<open>Runtime_Invariants\<close>, \<open>Round_Invariants\<close>: the locales \<open>event_invariant\<close> and \<open>round_invariant\<close> that
    carry an invariant of the history and of each controller through every step, round and run.
  \<^item> \<open>Runtime_Safety\<close>, \<open>Command_Safety\<close>: their instances. An observe-only daemon never commands, and
    every command is backed by an unlatched durable intent for exactly its target.
  \<^item> \<open>Control_Refinement\<close>: the locales \<open>control_relation\<close> and \<open>control_relations\<close>, and the refinement of
    the checkpoints of a run to a journal with a latch that is set once.
  \<^item> \<open>Command_Resolution\<close>: a converged command is resolved by the next observation.
  \<^item> \<open>Runtime_Bounds\<close>: bounds of grants, termination of extended removals and of the wait.

  \<^item> \<open>Text_Scrub\<close>, \<open>Attestation\<close>, \<open>Scrub_Invariance\<close> (\<open>attestation.rs\<close>): the recorded review of the
    host, the live evidence collected with \<open>virsh\<close> and its comparison. The daemon confirms only what
    an integral document and fresh equal evidence support, and reported allocation is not drift.
  \<^item> \<open>Base64\<close>, \<open>Guest_Files\<close> (\<open>qga.rs\<close>), \<open>Bounded_Command\<close> (\<open>virsh.rs\<close>): files of the guest through
    the agent, and one child process under a deadline: complete reads, closed handles, a process that
    is killed and reaped on every path, and an end within one turn more than its timeout.
  \<^item> \<open>Guest_Effects\<close>, \<open>Guest_Sensors\<close>, \<open>Guest_Wake\<close> (\<open>demand.rs\<close>, \<open>wake.rs\<close> of the guest): the environment
    of the guest with its stop signal, atomic publication of a file, the native counters and the
    memory notification, and the optional wake channel with its overlapped operations.
  \<^item> \<open>Guest_Worker\<close> (\<open>requests.rs\<close>, \<open>runtime.rs\<close> of the guest): the durable request state, one poll and the
    loop of the worker. \<open>Guest_Invariants\<close> has the locales \<open>event_invariant\<close> and \<open>worker_invariant\<close> that
    carry an invariant through them, \<open>Guest_Durability\<close> their instances over lifetimes with crashes: a
    published request is retained on disk, and requests appear in the order of issue.
  \<^item> \<open>Service_Host\<close>, \<open>Service_Lifecycle\<close> (\<open>service_host.rs\<close>, exit rules of \<open>service_scm.rs\<close>, messages of
    \<open>event_log.rs\<close>): the hosting thread, the worker thread and the threads that stop them as one
    transition system; its states are reached by every interleaving, and no stop request is missed.

  \<^bold>\<open>Fuel.\<close> The guest and the child process are loops that only the world ends. Their models take the
  number \<open>n\<close> of turns inside one step (waits and retries) and the number \<open>k\<close> of polls of the worker; an
  execution that is cut there is the value \<open>OutOfFuel\<close> and keeps the history it has made. Theorems about
  the guest hold for every \<open>n\<close> and \<open>k\<close>, so at every moment of an execution of any length; for a child
  process one turn more than its timeout in milliseconds is proved to be enough.

  \<^bold>\<open>Not modelled.\<close> Of the host: file locks and process identities (\<open>ownership.rs\<close>), the session of
  libvirt connections (\<open>libvirt.rs\<close>), the unix socket of the wake channel (\<open>wake.rs\<close>) and the polkit check
  of \<open>virsh.rs\<close> are calls of the operating system and appear, where the daemon uses them, as answers of
  the environment; the command line (\<open>cli.rs\<close>, \<open>main.rs\<close>) wires the operations modelled here. Of the
  guest: registration with the service control manager, its access lists and the entry point
  (\<open>service_scm.rs\<close>, \<open>config.rs\<close>, \<open>main.rs\<close>, \<open>diagnostics.rs\<close>) and the load generator are native calls. The
  developer tools (\<open>tools/xtask\<close>) build, deploy and observe and take no part in control. Of a log line
  only the event name is kept.
\<close>

end
